theory Spec2Isabelle
  imports Main "HOL-Library.Multiset" "HOL-Library.Char_ord" "HOL-Library.List_Lexorder"
begin

section \<open>The query coordinator (be/src/runtime/coordinator.cc)\<close>

text \<open>
  A shallow embedding of the coordinator. Member variables of the \<^verbatim>\<open>Coordinator\<close> object
  are fields of a record that every operation takes and returns. Objects behind interfaces
  that the file only calls (the RPC clients and their cache, libhdfs, the local plan
  fragment executor) are parameters: a record of operations over an abstract world state.
  An abort of the process is a value of type \<open>fault\<close>.
\<close>

subsection \<open>Faults and assertions\<close>

text \<open>
  \<^verbatim>\<open>DCHECK\<close> is a glog debug assertion: it aborts the process when the build has
  assertions enabled and is compiled to nothing otherwise. The build is the boolean
  parameter \<open>dchecks\<close> of every function that contains a \<^verbatim>\<open>DCHECK\<close>.
  \<open>UndefinedBehaviour\<close> stands for a dereference of a null pointer or of an end
  iterator and for an index past the end of a vector; \<open>BlockedForever\<close> for a wait on a
  condition variable that nobody signals.
\<close>

datatype fault = DCheckFailure | UndefinedBehaviour | BlockedForever

definition DCHECK :: "bool \<Rightarrow> bool \<Rightarrow> bool" where
  \<comment> \<open>\<open>DCHECK dchecks c\<close> holds when execution goes on past the assertion\<close>
  "DCHECK dchecks c = (if dchecks then c else True)"

subsection \<open>64-bit integers\<close>

text \<open>
  \<^verbatim>\<open>int64_t\<close> values are integers; \<open>int64\<close> is the two's complement wrap-around of a
  result that leaves the range (what the usual compilers produce for \<^verbatim>\<open>+\<close> and \<^verbatim>\<open>+=\<close>).
\<close>

definition INT64_MAX :: int where
  "INT64_MAX = 2 ^ 63 - 1"

definition int64 :: "int \<Rightarrow> int" where
  "int64 x = (x + 2 ^ 63) mod 2 ^ 64 - 2 ^ 63"

subsection \<open>Status\<close>

text \<open>
  Modelled from the spec: the \<^verbatim>\<open>Status\<close> class (common/status.h) and the Thrift
  \<^verbatim>\<open>TStatus\<close> are not in this file. A status is OK or carries an error code and its
  messages; \<^verbatim>\<open>CANCELLED\<close> is a distinguished non-OK status; adding an error to a
  status never makes it OK.
\<close>

datatype TStatusCode = OK | CANCELLED | INTERNAL_ERROR | OTHER_ERROR nat

record TStatus =
  status_code :: TStatusCode
  error_msgs :: "string list"

datatype Status = Status_OK | Status_Error TStatusCode "string list"

fun ok :: "Status \<Rightarrow> bool" where
  "ok Status_OK = True"
| "ok (Status_Error c msgs) = False"

definition Status_CANCELLED :: Status where
  "Status_CANCELLED = Status_Error CANCELLED [''Cancelled'']"

definition Status_msg :: "string \<Rightarrow> Status" where
  \<comment> \<open>\<^verbatim>\<open>Status(const string& error_msg)\<close>\<close>
  "Status_msg m = Status_Error INTERNAL_ERROR [m]"

definition Status_code_msg :: "TStatusCode \<Rightarrow> string \<Rightarrow> Status" where
  \<comment> \<open>\<^verbatim>\<open>Status(TStatusCode::type code, const string& error_msg)\<close>\<close>
  "Status_code_msg c m = Status_Error c [m]"

definition Status_of_TStatus :: "TStatus \<Rightarrow> Status" where
  \<comment> \<open>\<^verbatim>\<open>Status(const TStatus& status)\<close>\<close>
  "Status_of_TStatus t =
     (if status_code t = OK then Status_OK else Status_Error (status_code t) (error_msgs t))"

fun AddErrorMsg :: "Status \<Rightarrow> string \<Rightarrow> Status" where
  "AddErrorMsg Status_OK m = Status_Error INTERNAL_ERROR [m]"
| "AddErrorMsg (Status_Error c msgs) m = Status_Error c (msgs @ [m])"

fun AddError :: "Status \<Rightarrow> Status \<Rightarrow> Status" where
  "AddError s Status_OK = s"
| "AddError Status_OK (Status_Error c msgs) = Status_Error c msgs"
| "AddError (Status_Error c msgs) (Status_Error c' msgs') = Status_Error c (msgs @ msgs')"

subsection \<open>Hosts, ids and C++ maps\<close>

record THostPort =
  hostname :: string
  ipaddress :: string
  port :: int

record TUniqueId =
  hi :: int
  lo :: int

text \<open>
  A \<^verbatim>\<open>std::map\<close> or \<^verbatim>\<open>unordered_map\<close> is an association list; a key is looked up with
  \<open>map_of\<close>. \<^verbatim>\<open>FindOrInsert\<close> is declared in util/container-util.h, outside this file:
  by its uses here it returns a pointer to the value stored under the key, after storing
  the given default when the key is absent. The model returns the map and the value;
  a write through the pointer is \<open>map_set\<close>.
\<close>

fun map_set :: "('k \<times> 'v) list \<Rightarrow> 'k \<Rightarrow> 'v \<Rightarrow> ('k \<times> 'v) list" where
  "map_set [] k v = [(k, v)]"
| "map_set ((k', v') # m) k v = (if k' = k then (k, v) # m else (k', v') # map_set m k v)"

definition FindOrInsert :: "('k \<times> 'v) list \<Rightarrow> 'k \<Rightarrow> 'v \<Rightarrow> ('k \<times> 'v) list \<times> 'v" where
  "FindOrInsert m k d = (case map_of m k of None \<Rightarrow> (map_set m k d, d) | Some v \<Rightarrow> (m, v))"

subsection \<open>Plan nodes (4.A): \<^verbatim>\<open>Coordinator::FindLeftmostNode\<close>\<close>

text \<open>
  The Thrift enum \<^verbatim>\<open>TPlanNodeType\<close> is generated outside this file; the coordinator names
  three of its values and only compares them.
\<close>

datatype TPlanNodeType = HDFS_SCAN_NODE | HBASE_SCAN_NODE | EXCHANGE_NODE | OTHER_NODE nat

type_synonym PlanNodeId = int

record TPlanNode =
  node_id :: PlanNodeId
  node_type :: TPlanNodeType
  num_children :: int

record TPlan =
  nodes :: "TPlanNode list"

text \<open>The \<^verbatim>\<open>while\<close> loop of lines 1184-1187: the index of the first node without children.\<close>

function leftmost_loop :: "TPlanNode list \<Rightarrow> nat \<Rightarrow> nat" where
  "leftmost_loop ns node_idx =
     (if node_idx < length ns \<and> num_children (ns ! node_idx) \<noteq> 0
      then leftmost_loop ns (node_idx + 1) else node_idx)"
  by pat_completeness auto
termination
  by (relation "measure (\<lambda>(ns, node_idx). length ns - node_idx)") auto

declare leftmost_loop.simps [simp del]

text \<open>The \<^verbatim>\<open>for\<close> loop of lines 1193-1196 over the wanted types.\<close>

fun match_types :: "PlanNodeId \<Rightarrow> TPlanNode \<Rightarrow> TPlanNodeType list \<Rightarrow> PlanNodeId" where
  "match_types invalid node [] = invalid"
| "match_types invalid node (t # ts) =
     (if node_type node = t then node_id node else match_types invalid node ts)"

text \<open>
  \<^verbatim>\<open>g_JavaConstants_constants.INVALID_PLAN_NODE_ID\<close> is declared outside this file: it is
  the first parameter.
\<close>

definition FindLeftmostNode :: "PlanNodeId \<Rightarrow> TPlan \<Rightarrow> TPlanNodeType list \<Rightarrow> PlanNodeId" where
  "FindLeftmostNode INVALID_PLAN_NODE_ID plan types =
     (let node_idx = leftmost_loop (nodes plan) 0 in
      if node_idx = length (nodes plan) then INVALID_PLAN_NODE_ID
      else match_types INVALID_PLAN_NODE_ID (nodes plan ! node_idx) types)"

text \<open>
  The specification's wording of the same function: the leftmost leaf is the first node
  with \<open>num_children = 0\<close>; the result is its id if its type is one of \<open>types\<close>, and
  the sentinel otherwise.
\<close>

definition leftmost_leaf :: "TPlan \<Rightarrow> TPlanNode option" where
  "leftmost_leaf plan = find (\<lambda>n. num_children n = 0) (nodes plan)"

definition find_leftmost_of_types :: "PlanNodeId \<Rightarrow> TPlan \<Rightarrow> TPlanNodeType list \<Rightarrow> PlanNodeId" where
  "find_leftmost_of_types invalid plan types =
     (case leftmost_leaf plan of
        None \<Rightarrow> invalid
      | Some leaf \<Rightarrow> if node_type leaf \<in> set types then node_id leaf else invalid)"

subsection \<open>The query request and the per-fragment parameters (3)\<close>

text \<open>
  The Thrift structures are generated outside this file; the records hold the fields the
  coordinator reads. An optional field that is only read when set is an \<open>option\<close>;
  \<open>partition\<close> and \<open>output_partition\<close> stand for the \<^verbatim>\<open>.type\<close> of the Thrift
  partition.
\<close>

datatype TPartitionType = UNPARTITIONED | RANDOM | HASH_PARTITIONED | RANGE_PARTITIONED

record TDataStreamSink =
  dest_node_id :: PlanNodeId
  output_partition :: TPartitionType

record TDataSink =
  stream_sink_isset :: bool
  stream_sink :: TDataStreamSink

record TPlanFragment =
  plan :: TPlan
  output_sink :: TDataSink
  partition :: TPartitionType

record THdfsFileSplit =
  path :: string
  offset :: int
  split_length :: int  \<comment> \<open>\<^verbatim>\<open>length\<close>\<close>

record TScanRange =
  hdfs_file_split :: "THdfsFileSplit option"
  hbase_key_range :: "(string \<times> string) option"

record TScanRangeLocation =
  server :: THostPort
  volume_id :: int

record TScanRangeLocations =
  scan_range :: TScanRange
  locations :: "TScanRangeLocation list"

record TScanRangeParams =
  p_scan_range :: TScanRange  \<comment> \<open>\<^verbatim>\<open>scan_range\<close>\<close>
  p_volume_id :: "int option"  \<comment> \<open>\<^verbatim>\<open>volume_id\<close>, optional\<close>

record TQueryExecRequest =
  fragments :: "TPlanFragment list"
  dest_fragment_idx :: "int list"
  per_node_scan_ranges :: "(PlanNodeId \<times> TScanRangeLocations list) list"

record TPlanFragmentDestination =
  dest_fragment_instance_id :: TUniqueId  \<comment> \<open>\<^verbatim>\<open>fragment_instance_id\<close>\<close>
  dest_server :: THostPort  \<comment> \<open>\<^verbatim>\<open>server\<close>\<close>

record FragmentExecParams =
  hosts :: "THostPort list"
  instance_ids :: "TUniqueId list"
  per_exch_num_senders :: "(PlanNodeId \<times> int) list"
  destinations :: "TPlanFragmentDestination list"
  data_server_map :: "(THostPort \<times> THostPort) list"

type_synonym PerNodeScanRanges = "(PlanNodeId \<times> TScanRangeParams list) list"

type_synonym FragmentScanRangeAssignment = "(THostPort \<times> PerNodeScanRanges) list"

subsection \<open>Backend execution state (4.E) and status reports\<close>

text \<open>
  The mutable fields of \<^verbatim>\<open>Coordinator::BackendExecState\<close>, with the part of
  \<^verbatim>\<open>rpc_params\<close> the coordinator reads back. The stopwatch and the runtime profile are
  telemetry kept by classes outside this file; of the profile the model keeps the one
  number the coordinator computes from it, the total of completed scan ranges.
\<close>

record BackendExecState =
  fragment_instance_id :: TUniqueId
  hostport :: THostPort
  total_split_size :: int
  rpc_per_node_scan_ranges :: PerNodeScanRanges
  rpc_backend_num :: nat
  fragment_idx :: nat
  status :: Status
  initiated :: bool
  is_done :: bool  \<comment> \<open>\<^verbatim>\<open>done\<close>\<close>
  profile_created :: bool
  error_log :: "string list"
  total_ranges_complete :: int

record TInsertExecStatus =
  num_appended_rows :: "(string \<times> int) list"
  insert_files_to_move :: "(string \<times> string) list"  \<comment> \<open>\<^verbatim>\<open>files_to_move\<close>\<close>

text \<open>
  \<open>report_ranges_complete\<close> is the sum of the scan-range counters of the instance
  once \<^verbatim>\<open>params.profile\<close> has been merged into its profile.
\<close>

record TReportExecStatusParams =
  backend_num :: int
  report_status :: TStatus  \<comment> \<open>\<^verbatim>\<open>status\<close>\<close>
  report_done :: bool  \<comment> \<open>\<^verbatim>\<open>done\<close>\<close>
  report_ranges_complete :: int
  report_error_log :: "string list option"  \<comment> \<open>\<^verbatim>\<open>error_log\<close>, optional\<close>
  insert_exec_status :: "TInsertExecStatus option"

subsection \<open>The collaborators behind interfaces (6)\<close>

text \<open>
  The backend clients and their cache answer as the world \<open>'w\<close> decides; a Thrift call
  either throws \<^verbatim>\<open>TTransportException\<close> or returns the result's status. Every call is
  written to \<open>rpc_log\<close> with the index of the backend it is made for. \<open>PrintId\<close> is
  \<^verbatim>\<open>operator<<\<close> for \<^verbatim>\<open>TUniqueId\<close> (util/debug-util.h), which writes the ids into the
  error messages.
\<close>

datatype rpc_reply = TTransportException string | Reply TStatus

record 'w rpc_ops =
  GetClient :: "THostPort \<Rightarrow> 'w \<Rightarrow> Status \<times> 'w"
  ReopenClient :: "THostPort \<Rightarrow> 'w \<Rightarrow> Status \<times> 'w"
  ExecPlanFragment :: "BackendExecState \<Rightarrow> 'w \<Rightarrow> rpc_reply \<times> 'w"
  CancelPlanFragment :: "THostPort \<Rightarrow> TUniqueId \<Rightarrow> 'w \<Rightarrow> rpc_reply \<times> 'w"
  PrintId :: "TUniqueId \<Rightarrow> string"

datatype rpc_event =
    GetClient_call nat Status
  | ReopenClient_call nat Status
  | ReleaseClient_call nat
  | ExecPlanFragment_call nat rpc_reply
  | CancelPlanFragment_call nat rpc_reply

text \<open>libhdfs, over a file system \<open>'fs\<close>; an \<^verbatim>\<open>int\<close> result is \<open>-1\<close> on failure.\<close>

datatype tObjectKind = kObjectKindFile | kObjectKindDirectory

record hdfsFileInfo =
  mKind :: tObjectKind
  mName :: string

record 'fs hdfs_ops =
  hdfsListDirectory :: "string \<Rightarrow> 'fs \<Rightarrow> hdfsFileInfo list option \<times> 'fs"
  hdfsDelete :: "string \<Rightarrow> 'fs \<Rightarrow> int \<times> 'fs"
  hdfsExists :: "string \<Rightarrow> 'fs \<Rightarrow> int \<times> 'fs"
  hdfsCreateDirectory :: "string \<Rightarrow> 'fs \<Rightarrow> int \<times> 'fs"
  hdfsRename :: "string \<Rightarrow> string \<Rightarrow> 'fs \<Rightarrow> int \<times> 'fs"
  hdfsErrorText :: "'fs \<Rightarrow> string"

datatype hdfs_call =
    ListDirectory_call string
  | Delete_call string
  | Exists_call string
  | CreateDirectory_call string
  | Rename_call string string

text \<open>
  The local \<^verbatim>\<open>PlanFragmentExecutor\<close> of the coordinator fragment: what its calls answer,
  the maps of its runtime state, and how often it was cancelled.
\<close>

record RowBatch =
  num_rows :: int

record PlanFragmentExecutor =
  prepare_result :: Status
  open_result :: Status
  next_results :: "(Status \<times> RowBatch option) list"
  hdfs_files_to_move :: "(string \<times> string) list"
  exec_num_appended_rows :: "(string \<times> int) list"
  cancel_calls :: nat

subsection \<open>The coordinator\<close>

text \<open>
  The members of \<^verbatim>\<open>Coordinator\<close> (named without the trailing underscore), followed by
  the state of the outside world: the RPC world and its log, the file system and the
  trace of libhdfs calls, the status reports that the backends will send while a thread
  waits on \<^verbatim>\<open>backend_completion_cv_\<close>, the number of \<^verbatim>\<open>notify_all\<close> on that condition
  variable and the number of query summaries written.
\<close>

record ('w, 'fs) Coordinator =
  query_id :: TUniqueId
  query_status :: Status
  has_called_wait :: bool
  executor :: "PlanFragmentExecutor option"
  needs_finalization :: bool
  finalize_params :: "bool \<times> string"  \<comment> \<open>\<^verbatim>\<open>is_overwrite\<close>, \<^verbatim>\<open>hdfs_base_dir\<close>\<close>
  num_backends :: int
  num_remaining_backends :: int
  num_scan_ranges :: int
  fragment_exec_params :: "FragmentExecParams list"
  scan_range_assignment :: "FragmentScanRangeAssignment list"
  backend_exec_states :: "BackendExecState option list"
  partition_row_counts :: "(string \<times> int) list"
  files_to_move :: "(string \<times> string) list"
  progress :: int
  exec_stats_num_rows :: int
  rpc_world :: 'w
  rpc_log :: "rpc_event list"
  hdfs :: 'fs
  hdfs_trace :: "hdfs_call list"
  incoming_reports :: "TReportExecStatusParams list"
  notifications :: nat
  summaries :: nat

subsection \<open>Instance ids: \<^verbatim>\<open>Coordinator::ComputeFragmentExecParams\<close>\<close>

text \<open>
  The loop over \<open>j\<close> of lines 1058-1067, for one fragment with \<open>n\<close> hosts; \<open>nb\<close> is
  \<^verbatim>\<open>num_backends_\<close>. The sum that leaves the 64-bit range wraps around.
\<close>

fun instance_ids_loop ::
  "bool \<Rightarrow> TUniqueId \<Rightarrow> int \<Rightarrow> nat list \<Rightarrow> TUniqueId list \<Rightarrow> fault + TUniqueId list" where
  "instance_ids_loop dchecks qid nb [] ids = Inr ids"
| "instance_ids_loop dchecks qid nb (j # js) ids =
     (let instance_num = nb + int j in
      if \<not> DCHECK dchecks (lo qid < INT64_MAX - instance_num - 1) then Inl DCheckFailure
      else instance_ids_loop dchecks qid nb js
             (ids @ [\<lparr>hi = hi qid, lo = int64 (lo qid + instance_num + 1)\<rparr>]))"

text \<open>The loop over the fragments of lines 1057-1069; returns the parameters and \<^verbatim>\<open>num_backends_\<close>.\<close>

fun assign_instance_ids ::
  "bool \<Rightarrow> TUniqueId \<Rightarrow> int \<Rightarrow> FragmentExecParams list \<Rightarrow> fault + (FragmentExecParams list \<times> int)" where
  "assign_instance_ids dchecks qid nb [] = Inr ([], nb)"
| "assign_instance_ids dchecks qid nb (params # rest) =
     (case instance_ids_loop dchecks qid nb [0..<length (hosts params)] (instance_ids params) of
        Inl f \<Rightarrow> Inl f
      | Inr ids \<Rightarrow>
          (case assign_instance_ids dchecks qid (nb + int (length (hosts params))) rest of
             Inl f \<Rightarrow> Inl f
           | Inr (rest', nb') \<Rightarrow> Inr (params\<lparr>instance_ids := ids\<rparr> # rest', nb')))"

text \<open>
  One round of the loop of lines 1077-1103, for fragment \<open>i\<close>: the number of senders of
  the destination's exchange node and the destinations of the fragment.
\<close>

definition add_senders :: "(PlanNodeId \<times> int) list \<Rightarrow> PlanNodeId \<Rightarrow> int \<Rightarrow> (PlanNodeId \<times> int) list" where
  \<comment> \<open>\<^verbatim>\<open>per_exch_num_senders[exch_id] += n\<close>\<close>
  "add_senders m exch_id n = (let (m', v) = FindOrInsert m exch_id 0 in map_set m' exch_id (v + n))"

definition compute_destinations ::
  "bool \<Rightarrow> TQueryExecRequest \<Rightarrow> nat \<Rightarrow> FragmentExecParams list \<Rightarrow> fault + FragmentExecParams list" where
  "compute_destinations dchecks exec_request i fep =
     (if length (dest_fragment_idx exec_request) \<le> i - 1 \<or> length (fragments exec_request) \<le> i
      then Inl UndefinedBehaviour
      else let d = dest_fragment_idx exec_request ! (i - 1) in
      if \<not> DCHECK dchecks (d < int (length fep)) then Inl DCheckFailure
      else if d < 0 \<or> int (length fep) \<le> d then Inl UndefinedBehaviour
      else let sink = output_sink (fragments exec_request ! i) in
      if \<not> DCHECK dchecks (stream_sink_isset sink) then Inl DCheckFailure
      else if \<not> DCHECK dchecks (output_partition (stream_sink sink) = UNPARTITIONED)
      then Inl DCheckFailure
      else let exch_id = dest_node_id (stream_sink sink);
               dest_params = (fep ! nat d)\<lparr>per_exch_num_senders :=
                 add_senders (per_exch_num_senders (fep ! nat d)) exch_id
                   (int (length (hosts (fep ! i))))\<rparr>;
               fep1 = fep[nat d := dest_params]
      in if length (instance_ids dest_params) < length (hosts dest_params)
      then Inl UndefinedBehaviour
      else Inr (fep1[i := (fep1 ! i)\<lparr>destinations :=
             map (\<lambda>j. \<lparr>dest_fragment_instance_id = instance_ids dest_params ! j,
                        dest_server = hosts dest_params ! j\<rparr>)
               [0..<length (hosts dest_params)]\<rparr>]))"

fun destinations_loop ::
  "bool \<Rightarrow> TQueryExecRequest \<Rightarrow> nat list \<Rightarrow> FragmentExecParams list \<Rightarrow> fault + FragmentExecParams list" where
  "destinations_loop dchecks exec_request [] fep = Inr fep"
| "destinations_loop dchecks exec_request (i # is) fep =
     (case compute_destinations dchecks exec_request i fep of
        Inl f \<Rightarrow> Inl f
      | Inr fep' \<Rightarrow> destinations_loop dchecks exec_request is fep')"

text \<open>
  \<^verbatim>\<open>ComputeFragmentExecParams\<close> after its call of \<^verbatim>\<open>ComputeFragmentHosts\<close>, which asks the
  cluster scheduler: \<open>fragment_exec_params\<close> holds one entry per fragment, with its
  \<open>hosts\<close> and \<open>data_server_map\<close>.
\<close>

definition ComputeFragmentExecParams ::
  "bool \<Rightarrow> TQueryExecRequest \<Rightarrow> ('w, 'fs) Coordinator \<Rightarrow> fault + ('w, 'fs) Coordinator" where
  "ComputeFragmentExecParams dchecks exec_request s =
     (case assign_instance_ids dchecks (query_id s) (num_backends s) (fragment_exec_params s) of
        Inl f \<Rightarrow> Inl f
      | Inr (fep, nb) \<Rightarrow>
          (case fragments exec_request of
             [] \<Rightarrow> Inl UndefinedBehaviour
           | fragment0 # _ \<Rightarrow>
               (case destinations_loop dchecks exec_request [1..<length fep] fep of
                  Inl f \<Rightarrow> Inl f
                | Inr fep' \<Rightarrow>
                    Inr (s\<lparr>fragment_exec_params := fep',
                           num_backends := (if partition fragment0 = UNPARTITIONED then nb - 1 else nb)\<rparr>))))"

subsection \<open>Scan-range assignment (4.C): \<^verbatim>\<open>Coordinator::ComputeScanRangeAssignment\<close>\<close>

definition GetScanRangeLength :: "TScanRange \<Rightarrow> int" where
  "GetScanRangeLength r = (case hdfs_file_split r of Some split \<Rightarrow> split_length split | None \<Rightarrow> 0)"

text \<open>
  The inner loop of lines 1264-1272 over the locations of one range; the state is
  \<^verbatim>\<open>assigned_bytes_per_host\<close>, \<^verbatim>\<open>min_assigned_bytes\<close>, \<^verbatim>\<open>data_host\<close> (\<open>None\<close> is the null
  pointer) and \<^verbatim>\<open>volume_id\<close>.
\<close>

fun pick_location ::
  "(THostPort \<times> int) list \<Rightarrow> TScanRangeLocation list \<Rightarrow> int \<Rightarrow> THostPort option \<Rightarrow> int \<Rightarrow>
   (THostPort \<times> int) list \<times> int \<times> THostPort option \<times> int" where
  "pick_location abph [] min_assigned_bytes data_host vol = (abph, min_assigned_bytes, data_host, vol)"
| "pick_location abph (location # rest) min_assigned_bytes data_host vol =
     (let (abph', assigned_bytes) = FindOrInsert abph (server location) 0 in
      if assigned_bytes < min_assigned_bytes
      then pick_location abph' rest assigned_bytes (Some (server location)) (volume_id location)
      else pick_location abph' rest min_assigned_bytes data_host vol)"

definition add_assigned_bytes :: "(THostPort \<times> int) list \<Rightarrow> THostPort \<Rightarrow> int \<Rightarrow> (THostPort \<times> int) list" where
  \<comment> \<open>\<^verbatim>\<open>assigned_bytes_per_host[*data_host] += n\<close>\<close>
  "add_assigned_bytes abph h n = (let (m, v) = FindOrInsert abph h 0 in map_set m h (int64 (v + n)))"

definition exec_hostport_of :: "bool \<Rightarrow> FragmentExecParams \<Rightarrow> THostPort \<Rightarrow> fault + THostPort" where
  \<comment> \<open>lines 1277-1288: translate the data host to a backend host\<close>
  "exec_hostport_of dchecks params data_host =
     (if \<not> DCHECK dchecks (0 < length (hosts params)) then Inl DCheckFailure
      else if length (hosts params) = 1 then Inr (hosts params ! 0)
      else (case map_of (data_server_map params) data_host of
              None \<Rightarrow> Inl (if dchecks then DCheckFailure else UndefinedBehaviour)
            | Some exec_hostport \<Rightarrow> Inr exec_hostport))"

definition push_scan_range ::
  "FragmentScanRangeAssignment \<Rightarrow> THostPort \<Rightarrow> PlanNodeId \<Rightarrow> TScanRangeParams \<Rightarrow>
   FragmentScanRangeAssignment" where
  \<comment> \<open>lines 1289-1298: the two \<^verbatim>\<open>FindOrInsert\<close> and the \<^verbatim>\<open>push_back\<close>\<close>
  "push_scan_range assignment exec_hostport node p =
     (let (assignment', scan_ranges) = FindOrInsert assignment exec_hostport [];
          (scan_ranges', scan_range_params_list) = FindOrInsert scan_ranges node []
      in map_set assignment' exec_hostport (map_set scan_ranges' node (scan_range_params_list @ [p])))"

text \<open>The loop of lines 1259-1299 over the scan ranges of one node.\<close>

fun assign_ranges ::
  "bool \<Rightarrow> PlanNodeId \<Rightarrow> FragmentExecParams \<Rightarrow> TScanRangeLocations list \<Rightarrow>
   (THostPort \<times> int) list \<Rightarrow> FragmentScanRangeAssignment \<Rightarrow>
   fault + ((THostPort \<times> int) list \<times> FragmentScanRangeAssignment)" where
  "assign_ranges dchecks node params [] abph assignment = Inr (abph, assignment)"
| "assign_ranges dchecks node params (scan_range_locations # rest) abph assignment =
     (case pick_location abph (locations scan_range_locations) INT64_MAX None (- 1) of
        (abph1, min_assigned_bytes, None, vol) \<Rightarrow> Inl UndefinedBehaviour
      | (abph1, min_assigned_bytes, Some data_host, vol) \<Rightarrow>
          (let abph2 = add_assigned_bytes abph1 data_host
                         (GetScanRangeLength (scan_range scan_range_locations))
           in case exec_hostport_of dchecks params data_host of
                Inl f \<Rightarrow> Inl f
              | Inr exec_hostport \<Rightarrow>
                  assign_ranges dchecks node params rest abph2
                    (push_scan_range assignment exec_hostport node
                       \<lparr>p_scan_range = scan_range scan_range_locations, p_volume_id = Some vol\<rparr>)))"

definition ComputeScanRangeAssignment ::
  "bool \<Rightarrow> PlanNodeId \<Rightarrow> TScanRangeLocations list \<Rightarrow> FragmentExecParams \<Rightarrow>
   FragmentScanRangeAssignment \<Rightarrow> fault + FragmentScanRangeAssignment" where
  "ComputeScanRangeAssignment dchecks node locs params assignment =
     (case assign_ranges dchecks node params locs [] assignment of
        Inl f \<Rightarrow> Inl f
      | Inr (abph, assignment') \<Rightarrow> Inr assignment')"

subsection \<open>Cancellation (4.H): \<^verbatim>\<open>Cancel\<close>, \<^verbatim>\<open>CancelInternal\<close>, \<^verbatim>\<open>UpdateStatus\<close>\<close>

fun join :: "string list \<Rightarrow> string \<Rightarrow> string" where
  "join [] sep = []"
| "join [x] sep = x"
| "join (x # y # ys) sep = x @ sep @ join (y # ys) sep"

text \<open>Lines 814-818: the reply of \<^verbatim>\<open>CancelPlanFragment\<close> has arrived.\<close>

definition cancel_replied ::
  "nat \<Rightarrow> BackendExecState \<Rightarrow> TStatus \<Rightarrow> 'w \<times> rpc_event list \<Rightarrow>
   BackendExecState \<times> 'w \<times> rpc_event list" where
  "cancel_replied i exec_state res wl =
     ((if status_code res \<noteq> OK
       then exec_state\<lparr>status := AddErrorMsg (status exec_state) (join (error_msgs res) ''; '')\<rparr>
       else exec_state),
      fst wl, snd wl @ [ReleaseClient_call i])"

text \<open>
  Lines 772-818: get a client and send \<^verbatim>\<open>CancelPlanFragment\<close>, with one retry; \<open>qid\<close> is
  \<^verbatim>\<open>query_id_\<close>.
\<close>

definition send_cancel ::
  "'w rpc_ops \<Rightarrow> TUniqueId \<Rightarrow> nat \<Rightarrow> BackendExecState \<Rightarrow> 'w \<times> rpc_event list \<Rightarrow>
   BackendExecState \<times> 'w \<times> rpc_event list" where
  "send_cancel ops qid i exec_state wl =
     (let (st, w1) = GetClient ops (hostport exec_state) (fst wl);
          log1 = snd wl @ [GetClient_call i st]
      in if \<not> ok st then (exec_state, w1, log1)
      else let (r1, w2) = CancelPlanFragment ops (hostport exec_state)
                            (fragment_instance_id exec_state) w1;
               log2 = log1 @ [CancelPlanFragment_call i r1]
      in case r1 of
           Reply res \<Rightarrow> cancel_replied i exec_state res (w2, log2)
         | TTransportException e \<Rightarrow>
             (let (st2, w3) = ReopenClient ops (hostport exec_state) w2;
                  log3 = log2 @ [ReopenClient_call i st2]
              in if \<not> ok st2
              then (exec_state\<lparr>status := AddError (status exec_state) st2\<rparr>, w3,
                    log3 @ [ReleaseClient_call i])
              else let (r2, w4) = CancelPlanFragment ops (hostport exec_state)
                                    (fragment_instance_id exec_state) w3;
                       log4 = log3 @ [CancelPlanFragment_call i r2]
              in case r2 of
                   Reply res \<Rightarrow> cancel_replied i exec_state res (w4, log4)
                 | TTransportException e2 \<Rightarrow>
                     (exec_state\<lparr>status := AddErrorMsg (status exec_state)
                        (''CancelPlanFragment rpc query_id='' @ PrintId ops qid @
                         '' instance_id='' @ PrintId ops (fragment_instance_id exec_state) @
                         '' failed: '' @ e2)\<rparr>, w4,
                      log4 @ [ReleaseClient_call i])))"

text \<open>Lines 753-818: one round of the loop over the backends, for a state that exists.\<close>

definition cancel_backend ::
  "'w rpc_ops \<Rightarrow> TUniqueId \<Rightarrow> nat \<Rightarrow> BackendExecState \<Rightarrow> 'w \<times> rpc_event list \<Rightarrow>
   BackendExecState \<times> 'w \<times> rpc_event list" where
  "cancel_backend ops qid i exec_state wl =
     (if \<not> ok (status exec_state) then (exec_state, wl)
      else let exec_state1 = exec_state\<lparr>status := Status_CANCELLED\<rparr>
      in if \<not> initiated exec_state1 then (exec_state1, wl)
      else if is_done exec_state1 then (exec_state1, wl)
      else send_cancel ops qid i exec_state1 wl)"

text \<open>
  The loop of lines 752-819 from index \<open>i\<close> on. An entry of \<^verbatim>\<open>backend_exec_states_\<close>
  that is still the null pointer is dereferenced at line 758.
\<close>

fun cancel_loop ::
  "'w rpc_ops \<Rightarrow> TUniqueId \<Rightarrow> nat \<Rightarrow> BackendExecState option list \<Rightarrow> 'w \<times> rpc_event list \<Rightarrow>
   fault + (BackendExecState option list \<times> 'w \<times> rpc_event list)" where
  "cancel_loop ops qid i [] wl = Inr ([], wl)"
| "cancel_loop ops qid i (None # rest) wl = Inl UndefinedBehaviour"
| "cancel_loop ops qid i (Some exec_state # rest) wl =
     (case cancel_backend ops qid i exec_state wl of
        (exec_state', wl') \<Rightarrow>
          (case cancel_loop ops qid (i + 1) rest wl' of
             Inl f \<Rightarrow> Inl f
           | Inr (rest', wl'') \<Rightarrow> Inr (Some exec_state' # rest', wl'')))"

text \<open>
  \<^verbatim>\<open>ReportQuerySummary\<close> returns at once before \<^verbatim>\<open>Wait\<close> was called; after that it reads
  every backend state and writes profiles, of which the model keeps the count.
\<close>

definition ReportQuerySummary :: "('w, 'fs) Coordinator \<Rightarrow> fault + ('w, 'fs) Coordinator" where
  "ReportQuerySummary s =
     (if \<not> has_called_wait s then Inr s
      else if list_ex (\<lambda>x. x = None) (backend_exec_states s) then Inl UndefinedBehaviour
      else Inr (s\<lparr>summaries := summaries s + 1\<rparr>))"

definition CancelInternal ::
  "bool \<Rightarrow> 'w rpc_ops \<Rightarrow> ('w, 'fs) Coordinator \<Rightarrow> fault + ('w, 'fs) Coordinator" where
  "CancelInternal dchecks ops s =
     (if \<not> DCHECK dchecks (\<not> ok (query_status s)) then Inl DCheckFailure
      else let executor' = map_option (\<lambda>ex. ex\<lparr>cancel_calls := cancel_calls ex + 1\<rparr>) (executor s)
      in case cancel_loop ops (query_id s) 0 (backend_exec_states s) (rpc_world s, rpc_log s) of
           Inl f \<Rightarrow> Inl f
         | Inr (states, w, log) \<Rightarrow>
             ReportQuerySummary
               (s\<lparr>executor := executor', backend_exec_states := states, rpc_world := w,
                  rpc_log := log, notifications := notifications s + 1\<rparr>))"

definition Cancel ::
  "bool \<Rightarrow> 'w rpc_ops \<Rightarrow> ('w, 'fs) Coordinator \<Rightarrow> fault + ('w, 'fs) Coordinator" where
  "Cancel dchecks ops s =
     (if \<not> ok (query_status s) then Inr s
      else CancelInternal dchecks ops (s\<lparr>query_status := Status_CANCELLED\<rparr>))"

definition GetStatus :: "('w, 'fs) Coordinator \<Rightarrow> Status" where
  "GetStatus s = query_status s"

definition UpdateStatus ::
  "bool \<Rightarrow> 'w rpc_ops \<Rightarrow> Status \<Rightarrow> ('w, 'fs) Coordinator \<Rightarrow>
   fault + (Status \<times> ('w, 'fs) Coordinator)" where
  "UpdateStatus dchecks ops st s =
     (if ok st then Inr (query_status s, s)
      else if \<not> ok (query_status s) then Inr (query_status s, s)
      else (case CancelInternal dchecks ops (s\<lparr>query_status := st\<rparr>) of
              Inl f \<Rightarrow> Inl f
            | Inr s' \<Rightarrow> Inr (query_status s', s')))"

subsection \<open>Dispatch (4.F): \<^verbatim>\<open>ExecRemoteFragment\<close> and \<^verbatim>\<open>Exec\<close>\<close>

text \<open>Lines 727-733: the result of \<^verbatim>\<open>ExecPlanFragment\<close> has arrived.\<close>

definition exec_replied ::
  "nat \<Rightarrow> BackendExecState \<Rightarrow> TStatus \<Rightarrow> 'w \<times> rpc_event list \<Rightarrow>
   Status \<times> BackendExecState \<times> 'w \<times> rpc_event list" where
  "exec_replied i exec_state res wl =
     (let st = Status_of_TStatus res
      in (st, exec_state\<lparr>status := st, initiated := (if ok st then True else initiated exec_state)\<rparr>,
          fst wl, snd wl @ [ReleaseClient_call i]))"

text \<open>
  Lines 685-735: get a client and send \<^verbatim>\<open>ExecPlanFragment\<close>, with one retry; \<open>qid\<close> is
  \<^verbatim>\<open>query_id_\<close>.
\<close>

definition ExecRemoteFragment ::
  "'w rpc_ops \<Rightarrow> TUniqueId \<Rightarrow> nat \<Rightarrow> BackendExecState \<Rightarrow> 'w \<times> rpc_event list \<Rightarrow>
   Status \<times> BackendExecState \<times> 'w \<times> rpc_event list" where
  "ExecRemoteFragment ops qid i exec_state wl =
     (let (st, w1) = GetClient ops (hostport exec_state) (fst wl);
          log1 = snd wl @ [GetClient_call i st]
      in if \<not> ok st then (st, exec_state, w1, log1)
      else let (r1, w2) = ExecPlanFragment ops exec_state w1;
               log2 = log1 @ [ExecPlanFragment_call i r1]
      in case r1 of
           Reply res \<Rightarrow> exec_replied i exec_state res (w2, log2)
         | TTransportException e \<Rightarrow>
             (let (st2, w3) = ReopenClient ops (hostport exec_state) w2;
                  log3 = log2 @ [ReopenClient_call i st2]
              in if \<not> ok st2 then (st2, exec_state, w3, log3 @ [ReleaseClient_call i])
              else let (r2, w4) = ExecPlanFragment ops exec_state w3;
                       log4 = log3 @ [ExecPlanFragment_call i r2]
              in case r2 of
                   Reply res \<Rightarrow> exec_replied i exec_state res (w4, log4)
                 | TTransportException e2 \<Rightarrow>
                     (let st3 = Status_msg
                                  (''ExecPlanRequest rpc query_id='' @ PrintId ops qid @
                                   '' instance_id='' @
                                   PrintId ops (fragment_instance_id exec_state) @
                                   '' failed: '' @ e2)
                      in (st3, exec_state\<lparr>status := st3\<rparr>, w4, log4 @ [ReleaseClient_call i]))))"

text \<open>
  Modelled from the spec: \<^verbatim>\<open>ParallelExecutor::Exec\<close> (runtime/parallel-executor.h) is not
  in this file. ``A parallel-executor utility issues the RPCs concurrently; the call
  returns the first error.'' The model calls the function on every argument, in the
  order of the indices, and returns the first status that is not OK.
\<close>

fun ParallelExecutor_Exec ::
  "'w rpc_ops \<Rightarrow> TUniqueId \<Rightarrow> nat \<Rightarrow> BackendExecState option list \<Rightarrow> 'w \<times> rpc_event list \<Rightarrow>
   fault + (Status \<times> BackendExecState option list \<times> 'w \<times> rpc_event list)" where
  "ParallelExecutor_Exec ops qid i [] wl = Inr (Status_OK, [], wl)"
| "ParallelExecutor_Exec ops qid i (None # rest) wl = Inl UndefinedBehaviour"
| "ParallelExecutor_Exec ops qid i (Some exec_state # rest) wl =
     (case ExecRemoteFragment ops qid i exec_state wl of
        (st, exec_state', wl') \<Rightarrow>
          (case ParallelExecutor_Exec ops qid (i + 1) rest wl' of
             Inl f \<Rightarrow> Inl f
           | Inr (st_rest, rest', wl'') \<Rightarrow>
               Inr (if ok st then st_rest else st, Some exec_state' # rest', wl'')))"

text \<open>\<^verbatim>\<open>BackendExecState::ComputeTotalSplitSize\<close>.\<close>

definition ComputeTotalSplitSize :: "PerNodeScanRanges \<Rightarrow> int" where
  "ComputeTotalSplitSize per_node =
     foldl (\<lambda>total p. case hdfs_file_split (p_scan_range p) of
                         None \<Rightarrow> total
                       | Some split \<Rightarrow> int64 (total + split_length split))
       0 (concat (map snd per_node))"

text \<open>
  The constructor of \<^verbatim>\<open>BackendExecState\<close> with the part of \<^verbatim>\<open>SetExecPlanFragmentParams\<close>
  that it keeps: \<^verbatim>\<open>scan_range_assignment_[fragment_idx][exec_host]\<close> stores an empty entry
  for a host without one.
\<close>

definition new_BackendExecState ::
  "nat \<Rightarrow> nat \<Rightarrow> FragmentExecParams \<Rightarrow> nat \<Rightarrow> ('w, 'fs) Coordinator \<Rightarrow>
   fault + (BackendExecState \<times> ('w, 'fs) Coordinator)" where
  "new_BackendExecState backend_no frag_idx params instance_idx s =
     (if length (instance_ids params) \<le> instance_idx \<or> length (hosts params) \<le> instance_idx
         \<or> length (scan_range_assignment s) \<le> frag_idx
      then Inl UndefinedBehaviour
      else let exec_host = hosts params ! instance_idx;
               (assignment', scan_ranges) =
                 FindOrInsert (scan_range_assignment s ! frag_idx) exec_host []
      in Inr (\<lparr>fragment_instance_id = instance_ids params ! instance_idx,
               hostport = exec_host,
               total_split_size = ComputeTotalSplitSize scan_ranges,
               rpc_per_node_scan_ranges = scan_ranges,
               rpc_backend_num = backend_no,
               fragment_idx = frag_idx,
               status = Status_OK,
               initiated = False,
               is_done = False,
               profile_created = False,
               error_log = [],
               total_ranges_complete = 0\<rparr>,
              s\<lparr>scan_range_assignment := (scan_range_assignment s)[frag_idx := assignment']\<rparr>))"

text \<open>The loop of lines 320-330; returns \<^verbatim>\<open>backend_num\<close> and the coordinator.\<close>

fun create_exec_states ::
  "nat \<Rightarrow> FragmentExecParams \<Rightarrow> nat list \<Rightarrow> nat \<Rightarrow> ('w, 'fs) Coordinator \<Rightarrow>
   fault + (nat \<times> ('w, 'fs) Coordinator)" where
  "create_exec_states frag_idx params [] backend_no s = Inr (backend_no, s)"
| "create_exec_states frag_idx params (instance_idx # rest) backend_no s =
     (case new_BackendExecState backend_no frag_idx params instance_idx s of
        Inl f \<Rightarrow> Inl f
      | Inr (exec_state, s1) \<Rightarrow>
          if length (backend_exec_states s1) \<le> backend_no then Inl UndefinedBehaviour
          else create_exec_states frag_idx params rest (backend_no + 1)
                 (s1\<lparr>backend_exec_states := (backend_exec_states s1)[backend_no := Some exec_state]\<rparr>))"

text \<open>
  The loop of lines 313-346 over the fragments. The result is \<open>Inl\<close> of a fault,
  \<open>Inr (Inl (status, s))\<close> for the \<^verbatim>\<open>return\<close> of line 344 and \<open>Inr (Inr s)\<close> when the
  loop ends.
\<close>

fun start_fragments ::
  "bool \<Rightarrow> 'w rpc_ops \<Rightarrow> nat list \<Rightarrow> nat \<Rightarrow> ('w, 'fs) Coordinator \<Rightarrow>
   fault + ((Status \<times> ('w, 'fs) Coordinator) + ('w, 'fs) Coordinator)" where
  "start_fragments dchecks ops [] backend_no s = Inr (Inr s)"
| "start_fragments dchecks ops (frag_idx # rest) backend_no s =
     (if length (fragment_exec_params s) \<le> frag_idx then Inl UndefinedBehaviour
      else let params = fragment_exec_params s ! frag_idx; num_hosts = length (hosts params)
      in if \<not> DCHECK dchecks (0 < num_hosts) then Inl DCheckFailure
      else case create_exec_states frag_idx params [0..<num_hosts] backend_no s of
             Inl f \<Rightarrow> Inl f
           | Inr (backend_no', s1) \<Rightarrow>
               (case ParallelExecutor_Exec ops (query_id s1) (backend_no' - num_hosts)
                       (take num_hosts (drop (backend_no' - num_hosts) (backend_exec_states s1)))
                       (rpc_world s1, rpc_log s1) of
                  Inl f \<Rightarrow> Inl f
                | Inr (fragments_exec_status, states, w, log) \<Rightarrow>
                    (let s2 = s1\<lparr>backend_exec_states :=
                                   take (backend_no' - num_hosts) (backend_exec_states s1) @ states @
                                   drop backend_no' (backend_exec_states s1),
                                 rpc_world := w, rpc_log := log\<rparr>
                     in if \<not> ok fragments_exec_status
                     then if \<not> DCHECK dchecks (ok (query_status s2)) then Inl DCheckFailure
                          else (case CancelInternal dchecks ops
                                       (s2\<lparr>query_status := fragments_exec_status\<rparr>) of
                                  Inl f \<Rightarrow> Inl f
                                | Inr s3 \<Rightarrow> Inr (Inl (fragments_exec_status, s3)))
                     else start_fragments dchecks ops rest backend_no' s2)))"

text \<open>
  \<^verbatim>\<open>Exec\<close> from line 240, where it takes \<^verbatim>\<open>lock_\<close>: the lines before store the request
  in the members and run \<^verbatim>\<open>ComputeFragmentExecParams\<close> and \<^verbatim>\<open>ComputeScanRangeAssignment\<close>,
  whose results are read from the state. \<open>local\<close> is the executor that line 247 creates.
  The profile nodes of lines 265-304 and \<^verbatim>\<open>PrintBackendInfo\<close> are telemetry.
\<close>

definition Exec ::
  "bool \<Rightarrow> 'w rpc_ops \<Rightarrow> PlanFragmentExecutor \<Rightarrow> TQueryExecRequest \<Rightarrow> ('w, 'fs) Coordinator \<Rightarrow>
   fault + (Status \<times> ('w, 'fs) Coordinator)" where
  "Exec dchecks ops local request s =
     (case fragments request of
        [] \<Rightarrow> Inl UndefinedBehaviour
      | fragment0 # _ \<Rightarrow>
          (let has_coordinator_fragment = (partition fragment0 = UNPARTITIONED);
               s1 = s\<lparr>executor := (if has_coordinator_fragment then Some local else None)\<rparr>
           in if has_coordinator_fragment \<and> \<not> ok (prepare_result local)
           then Inr (prepare_result local, s1)
           else if num_backends s1 < 0 then Inl UndefinedBehaviour
           else let s2 = s1\<lparr>backend_exec_states :=
                              take (nat (num_backends s1)) (backend_exec_states s1) @
                              replicate (nat (num_backends s1) - length (backend_exec_states s1)) None,
                            num_remaining_backends := num_backends s1\<rparr>
           in case start_fragments dchecks ops
                     [(if has_coordinator_fragment then 1 else 0)..<length (fragments request)] 0 s2 of
                Inl f \<Rightarrow> Inl f
              | Inr (Inl (st, s3)) \<Rightarrow> Inr (st, s3)
              | Inr (Inr s3) \<Rightarrow> Inr (Status_OK, s3\<lparr>progress := 0\<rparr>)))"

subsection \<open>Status reports (4.G): \<^verbatim>\<open>UpdateFragmentExecStatus\<close>\<close>

text \<open>
  A \<^verbatim>\<open>std::map\<close> with string keys keeps its entries in the order of the keys.
  \<open>std_map_insert\<close> is \<^verbatim>\<open>insert\<close>, which leaves an existing entry as it is.
\<close>

fun std_map_insert :: "(string \<times> 'v) list \<Rightarrow> string \<Rightarrow> 'v \<Rightarrow> (string \<times> 'v) list" where
  "std_map_insert [] k v = [(k, v)]"
| "std_map_insert ((k', v') # m) k v =
     (if k = k' then (k', v') # m
      else if k < k' then (k, v) # (k', v') # m
      else (k', v') # std_map_insert m k v)"

definition add_row_count :: "(string \<times> int) list \<Rightarrow> string \<times> int \<Rightarrow> (string \<times> int) list" where
  \<comment> \<open>\<^verbatim>\<open>partition_row_counts_[partition.first] += partition.second\<close>\<close>
  "add_row_count m kv =
     (let m' = std_map_insert m (fst kv) 0
      in map_set m' (fst kv) (int64 ((case map_of m' (fst kv) of Some c \<Rightarrow> c | None \<Rightarrow> 0) + snd kv)))"

text \<open>
  Lines 839-865, under the lock of the state: the new state and the number of scan
  ranges completed since the last report, which goes to the progress updater.
\<close>

definition update_exec_state ::
  "bool \<Rightarrow> TReportExecStatusParams \<Rightarrow> BackendExecState \<Rightarrow> fault + (BackendExecState \<times> int)" where
  "update_exec_state dchecks params exec_state =
     (let st = Status_of_TStatus (report_status params)
      in if \<not> DCHECK dchecks (ok (status exec_state) \<or> \<not> ok st) then Inl DCheckFailure
      else let exec_state1 = exec_state\<lparr>
                 status := st,
                 is_done := report_done params,
                 profile_created := True,
                 error_log := (case report_error_log params of
                                 None \<Rightarrow> error_log exec_state
                               | Some lines \<Rightarrow> error_log exec_state @ lines)\<rparr>;
               total = report_ranges_complete params;
               delta = total - total_ranges_complete exec_state1
      in if \<not> DCHECK dchecks (0 \<le> delta) then Inl DCheckFailure
      else Inr (exec_state1\<lparr>total_ranges_complete := total\<rparr>, delta))"

definition merge_insert_status ::
  "TInsertExecStatus \<Rightarrow> ('w, 'fs) Coordinator \<Rightarrow> ('w, 'fs) Coordinator" where
  \<comment> \<open>lines 867-879\<close>
  "merge_insert_status ins s =
     s\<lparr>partition_row_counts := foldl add_row_count (partition_row_counts s) (num_appended_rows ins),
       files_to_move := foldl (\<lambda>m kv. std_map_insert m (fst kv) (snd kv)) (files_to_move s)
                          (insert_files_to_move ins)\<rparr>"

definition UpdateFragmentExecStatus ::
  "bool \<Rightarrow> 'w rpc_ops \<Rightarrow> TReportExecStatusParams \<Rightarrow> ('w, 'fs) Coordinator \<Rightarrow>
   fault + (Status \<times> ('w, 'fs) Coordinator)" where
  "UpdateFragmentExecStatus dchecks ops params s =
     (if backend_num params < 0 \<or> int (length (backend_exec_states s)) \<le> backend_num params
      then Inr (Status_code_msg INTERNAL_ERROR ''unknown backend number'', s)
      else case backend_exec_states s ! nat (backend_num params) of
             None \<Rightarrow> Inl UndefinedBehaviour
           | Some exec_state \<Rightarrow>
               (case update_exec_state dchecks params exec_state of
                  Inl f \<Rightarrow> Inl f
                | Inr (exec_state', delta) \<Rightarrow>
                    (let s1 = s\<lparr>backend_exec_states :=
                                  (backend_exec_states s)[nat (backend_num params) := Some exec_state'],
                                progress := progress s + delta\<rparr>;
                         s2 = (case insert_exec_status params of
                                 None \<Rightarrow> s1
                               | Some ins \<Rightarrow> if report_done params then merge_insert_status ins s1 else s1);
                         st = Status_of_TStatus (report_status params)
                     in if \<not> ok st
                     then (case UpdateStatus dchecks ops st s2 of
                             Inl f \<Rightarrow> Inl f
                           | Inr (st', s3) \<Rightarrow> Inr (Status_OK, s3))
                     else if report_done params
                     then if \<not> DCHECK dchecks (0 < num_remaining_backends s2) then Inl DCheckFailure
                          else Inr (Status_OK,
                                 s2\<lparr>num_remaining_backends := num_remaining_backends s2 - 1,
                                    notifications := (if num_remaining_backends s2 - 1 = 0
                                                      then notifications s2 + 1 else notifications s2)\<rparr>)
                     else Inr (Status_OK, s2))))"

subsection \<open>Waiting and results: \<^verbatim>\<open>WaitForAllBackends\<close>, \<^verbatim>\<open>Wait\<close>, \<^verbatim>\<open>GetNext\<close>\<close>

text \<open>
  The thread waits on \<^verbatim>\<open>backend_completion_cv_\<close> while backends remain and the query
  status is OK. While it waits, the reply threads handle the reports of
  \<open>incoming_reports\<close>, one after the other; with the condition still true and no report
  left, nobody wakes the thread.
\<close>

fun wait_loop ::
  "bool \<Rightarrow> 'w rpc_ops \<Rightarrow> TReportExecStatusParams list \<Rightarrow> ('w, 'fs) Coordinator \<Rightarrow>
   fault + (('w, 'fs) Coordinator \<times> TReportExecStatusParams list)" where
  "wait_loop dchecks ops [] s =
     (if 0 < num_remaining_backends s \<and> ok (query_status s) then Inl BlockedForever
      else Inr (s, []))"
| "wait_loop dchecks ops (report # reports) s =
     (if 0 < num_remaining_backends s \<and> ok (query_status s)
      then (case UpdateFragmentExecStatus dchecks ops report s of
              Inl f \<Rightarrow> Inl f
            | Inr (st, s') \<Rightarrow> wait_loop dchecks ops reports s')
      else Inr (s, report # reports))"

definition WaitForAllBackends ::
  "bool \<Rightarrow> 'w rpc_ops \<Rightarrow> ('w, 'fs) Coordinator \<Rightarrow> fault + (Status \<times> ('w, 'fs) Coordinator)" where
  "WaitForAllBackends dchecks ops s =
     (case wait_loop dchecks ops (incoming_reports s) s of
        Inl f \<Rightarrow> Inl f
      | Inr (s', reports) \<Rightarrow> Inr (query_status s', s'\<lparr>incoming_reports := reports\<rparr>))"

subsection \<open>Finalization (4.I): \<^verbatim>\<open>FinalizeQuery\<close>\<close>

text \<open>
  \<^verbatim>\<open>AppendHdfsErrorMessage\<close> (util/hdfs-util.h) appends the text of \<^verbatim>\<open>errno\<close>, which the
  file system supplies.
\<close>

definition AppendHdfsErrorMessage :: "'fs hdfs_ops \<Rightarrow> 'fs \<Rightarrow> string \<Rightarrow> string \<Rightarrow> string" where
  "AppendHdfsErrorMessage hops fs message file = message @ file @ hdfsErrorText hops fs"

text \<open>The loop of lines 421-431 over the listing, with its \<^verbatim>\<open>break\<close>; returns \<^verbatim>\<open>delete_status\<close>.\<close>

fun delete_files_loop ::
  "'fs hdfs_ops \<Rightarrow> hdfsFileInfo list \<Rightarrow> 'fs \<times> hdfs_call list \<Rightarrow> Status \<times> 'fs \<times> hdfs_call list" where
  "delete_files_loop hops [] ft = (Status_OK, ft)"
| "delete_files_loop hops (info # rest) ft =
     (if mKind info = kObjectKindFile
      then (case hdfsDelete hops (mName info) (fst ft) of
              (rc, fs') \<Rightarrow>
                if rc = - 1
                then (Status_msg (AppendHdfsErrorMessage hops fs'
                        ''Failed to delete existing HDFS file as part of INSERT OVERWRITE query: ''
                        (mName info)),
                      fs', snd ft @ [Delete_call (mName info)])
                else delete_files_loop hops rest (fs', snd ft @ [Delete_call (mName info)]))
      else delete_files_loop hops rest ft)"

text \<open>
  The loop of lines 400-449 over \<^verbatim>\<open>partition_row_counts_\<close>; \<open>n\<close> is the size of that
  map. The result is a fault, a status returned from inside the loop, or the file system
  at the end of the loop.
\<close>

fun prepare_partitions ::
  "bool \<Rightarrow> 'fs hdfs_ops \<Rightarrow> bool \<times> string \<Rightarrow> nat \<Rightarrow> (string \<times> int) list \<Rightarrow> 'fs \<times> hdfs_call list \<Rightarrow>
   fault + ((Status \<times> 'fs \<times> hdfs_call list) + 'fs \<times> hdfs_call list)" where
  "prepare_partitions dchecks hops fp n [] ft = Inr (Inr ft)"
| "prepare_partitions dchecks hops fp n (part # rest) ft =
     (let dir = snd fp @ ''/'' @ fst part
      in if fst fp
      then if fst part = []
           then if \<not> DCHECK dchecks (n = 1) then Inl DCheckFailure
                else (case hdfsListDirectory hops dir (fst ft) of
                        (None, fs1) \<Rightarrow>
                          Inr (Inl (Status_msg (AppendHdfsErrorMessage hops fs1
                                      ''Could not list directory: '' dir),
                                    fs1, snd ft @ [ListDirectory_call dir]))
                      | (Some existing_files, fs1) \<Rightarrow>
                          (case delete_files_loop hops existing_files
                                  (fs1, snd ft @ [ListDirectory_call dir]) of
                             (delete_status, fs2, tr2) \<Rightarrow>
                               if \<not> ok delete_status then Inr (Inl (delete_status, fs2, tr2))
                               else (case hdfsCreateDirectory hops dir fs2 of
                                       (rc, fs3) \<Rightarrow>
                                         prepare_partitions dchecks hops fp n rest
                                           (fs3, tr2 @ [CreateDirectory_call dir]))))
           else (case hdfsExists hops dir (fst ft) of
                   (rc, fs1) \<Rightarrow>
                     if rc \<noteq> - 1
                     then (case hdfsDelete hops dir fs1 of
                             (rc2, fs2) \<Rightarrow>
                               if rc2 = - 1
                               then Inr (Inl (Status_msg (AppendHdfsErrorMessage hops fs2
                                       ''Failed to delete partition directory as part of INSERT OVERWRITE query: ''
                                       dir),
                                     fs2, snd ft @ [Exists_call dir, Delete_call dir]))
                               else (case hdfsCreateDirectory hops dir fs2 of
                                       (rc3, fs3) \<Rightarrow>
                                         prepare_partitions dchecks hops fp n rest
                                           (fs3, snd ft @ [Exists_call dir, Delete_call dir,
                                                           CreateDirectory_call dir])))
                     else (case hdfsCreateDirectory hops dir fs1 of
                             (rc3, fs3) \<Rightarrow>
                               prepare_partitions dchecks hops fp n rest
                                 (fs3, snd ft @ [Exists_call dir, CreateDirectory_call dir])))
      else (case hdfsCreateDirectory hops dir (fst ft) of
              (rc, fs1) \<Rightarrow>
                prepare_partitions dchecks hops fp n rest (fs1, snd ft @ [CreateDirectory_call dir])))"

text \<open>
  The loop of lines 453-468 over \<^verbatim>\<open>files_to_move_\<close>; \<open>tmp\<close> is \<^verbatim>\<open>tmp_dirs_to_delete\<close>, a
  \<^verbatim>\<open>std::set\<close>, kept sorted and without duplicates.
\<close>

fun move_files_loop ::
  "'fs hdfs_ops \<Rightarrow> (string \<times> string) list \<Rightarrow> string list \<Rightarrow> 'fs \<times> hdfs_call list \<Rightarrow>
   Status \<times> string list \<times> 'fs \<times> hdfs_call list" where
  "move_files_loop hops [] tmp ft = (Status_OK, tmp, ft)"
| "move_files_loop hops (move # rest) tmp ft =
     (if snd move = [] then move_files_loop hops rest (insort_insert (fst move) tmp) ft
      else (case hdfsRename hops (fst move) (snd move) (fst ft) of
              (rc, fs') \<Rightarrow>
                if rc = - 1
                then (Status_msg (AppendHdfsErrorMessage hops fs'
                        (''Could not move HDFS file: '' @ fst move @ '' to desintation: '' @ snd move) []),
                      tmp, fs', snd ft @ [Rename_call (fst move) (snd move)])
                else move_files_loop hops rest tmp
                       (fs', snd ft @ [Rename_call (fst move) (snd move)])))"

text \<open>The loop of lines 471-476 over the temporary directories.\<close>

fun delete_tmp_dirs_loop ::
  "'fs hdfs_ops \<Rightarrow> string list \<Rightarrow> 'fs \<times> hdfs_call list \<Rightarrow> Status \<times> 'fs \<times> hdfs_call list" where
  "delete_tmp_dirs_loop hops [] ft = (Status_OK, ft)"
| "delete_tmp_dirs_loop hops (tmp_path # rest) ft =
     (case hdfsDelete hops tmp_path (fst ft) of
        (rc, fs') \<Rightarrow>
          if rc = - 1
          then (Status_msg (AppendHdfsErrorMessage hops fs'
                  ''Failed to delete temporary directory: '' tmp_path),
                fs', snd ft @ [Delete_call tmp_path])
          else delete_tmp_dirs_loop hops rest (fs', snd ft @ [Delete_call tmp_path]))"

definition set_hdfs :: "'fs \<times> hdfs_call list \<Rightarrow> ('w, 'fs) Coordinator \<Rightarrow> ('w, 'fs) Coordinator" where
  "set_hdfs ft s = s\<lparr>hdfs := fst ft, hdfs_trace := snd ft\<rparr>"

definition FinalizeQuery ::
  "bool \<Rightarrow> 'fs hdfs_ops \<Rightarrow> ('w, 'fs) Coordinator \<Rightarrow> fault + (Status \<times> ('w, 'fs) Coordinator)" where
  "FinalizeQuery dchecks hops s =
     (if \<not> DCHECK dchecks (has_called_wait s) then Inl DCheckFailure
      else if \<not> DCHECK dchecks (needs_finalization s) then Inl DCheckFailure
      else case prepare_partitions dchecks hops (finalize_params s)
                  (length (partition_row_counts s)) (partition_row_counts s)
                  (hdfs s, hdfs_trace s) of
             Inl f \<Rightarrow> Inl f
           | Inr (Inl (st, ft)) \<Rightarrow> Inr (st, set_hdfs ft s)
           | Inr (Inr ft1) \<Rightarrow>
               (case move_files_loop hops (files_to_move s) [] ft1 of
                  (move_status, tmp_dirs_to_delete, ft2) \<Rightarrow>
                    if \<not> ok move_status then Inr (move_status, set_hdfs ft2 s)
                    else (case delete_tmp_dirs_loop hops tmp_dirs_to_delete ft2 of
                            (st, ft3) \<Rightarrow> Inr (st, set_hdfs ft3 s))))"



text \<open>
  \<^verbatim>\<open>GetNext\<close> returns the status and the batch it stored in \<^verbatim>\<open>*batch\<close> (\<open>None\<close> is
  \<^verbatim>\<open>NULL\<close>). The local executor answers with the head of \<open>next_results\<close>, and with the
  end of its rows when that list is empty.
\<close>

definition GetNext ::
  "bool \<Rightarrow> 'w rpc_ops \<Rightarrow> ('w, 'fs) Coordinator \<Rightarrow>
   fault + (Status \<times> RowBatch option \<times> ('w, 'fs) Coordinator)" where
  "GetNext dchecks ops s =
     (if \<not> DCHECK dchecks (has_called_wait s) then Inl DCheckFailure
      else case executor s of
             None \<Rightarrow> Inr (GetStatus s, None, s)
           | Some ex \<Rightarrow>
               (let (st, batch) = (case next_results ex of [] \<Rightarrow> (Status_OK, None) | r # _ \<Rightarrow> r);
                    s1 = s\<lparr>executor := Some (ex\<lparr>next_results := tl (next_results ex)\<rparr>)\<rparr>
                in case UpdateStatus dchecks ops st s1 of
                     Inl f \<Rightarrow> Inl f
                   | Inr (st1, s2) \<Rightarrow>
                       if \<not> ok st1 then Inr (st1, batch, s2)
                       else (case batch of
                               Some b \<Rightarrow>
                                 Inr (Status_OK, batch,
                                      s2\<lparr>exec_stats_num_rows := exec_stats_num_rows s2 + num_rows b\<rparr>)
                             | None \<Rightarrow>
                                 (case WaitForAllBackends dchecks ops s2 of
                                    Inl f \<Rightarrow> Inl f
                                  | Inr (st2, s3) \<Rightarrow>
                                      if \<not> ok st2 then Inr (st2, batch, s3)
                                      else if ok (query_status s3)
                                      then (case ReportQuerySummary s3 of
                                              Inl f \<Rightarrow> Inl f
                                            | Inr s4 \<Rightarrow> Inr (Status_OK, batch, s4))
                                      else Inr (Status_OK, batch, s3)))))"

subsection \<open>The scan-range assignment in the specification's words\<close>

text \<open>
  ``Maintain \<open>assigned_bytes[data_host]\<close>. For each scan range, choose the location whose
  \<open>assigned_bytes\<close> is currently minimum (tie-broken by first occurrence in the input
  order); add the range's length (0 for non-file splits) to that data host; translate the
  data host to an execution host via the fragment's \<open>data_server_map\<close> (or the sole host
  if only one); append to the output.'' A host that has no entry yet has 0 bytes.
\<close>

definition assigned_bytes :: "(THostPort \<times> int) list \<Rightarrow> THostPort \<Rightarrow> int" where
  "assigned_bytes abph h = (case map_of abph h of None \<Rightarrow> 0 | Some b \<Rightarrow> b)"

definition least_loaded :: "(THostPort \<Rightarrow> int) \<Rightarrow> TScanRangeLocation list \<Rightarrow> TScanRangeLocation option" where
  "least_loaded f locs = find (\<lambda>l. list_all (\<lambda>l'. f (server l) \<le> f (server l')) locs) locs"

definition spec_exec_host :: "FragmentExecParams \<Rightarrow> THostPort \<Rightarrow> THostPort option" where
  "spec_exec_host params h =
     (case hosts params of [sole] \<Rightarrow> Some sole | _ \<Rightarrow> map_of (data_server_map params) h)"

text \<open>The execution host and the appended parameters of every range, in input order.\<close>

fun spec_assignment ::
  "FragmentExecParams \<Rightarrow> (THostPort \<Rightarrow> int) \<Rightarrow> TScanRangeLocations list \<Rightarrow>
   (THostPort \<times> TScanRangeParams) list" where
  "spec_assignment params f [] = []"
| "spec_assignment params f (r # rs) =
     (case least_loaded f (locations r) of
        None \<Rightarrow> []
      | Some l \<Rightarrow>
          (case spec_exec_host params (server l) of
             None \<Rightarrow> []
           | Some e \<Rightarrow>
               (e, \<lparr>p_scan_range = scan_range r, p_volume_id = Some (volume_id l)\<rparr>) #
               spec_assignment params
                 (f(server l := f (server l) + GetScanRangeLength (scan_range r))) rs))"

text \<open>The bytes of every data host after all ranges.\<close>

fun spec_assigned_bytes :: "(THostPort \<Rightarrow> int) \<Rightarrow> TScanRangeLocations list \<Rightarrow> THostPort \<Rightarrow> int" where
  "spec_assigned_bytes f [] = f"
| "spec_assigned_bytes f (r # rs) =
     (case least_loaded f (locations r) of
        None \<Rightarrow> f
      | Some l \<Rightarrow>
          spec_assigned_bytes (f(server l := f (server l) + GetScanRangeLength (scan_range r))) rs)"

text \<open>
  What the output holds: the list of a node under an execution host, and all ranges of a
  node over all hosts, with their multiplicities.
\<close>

definition ranges_at :: "FragmentScanRangeAssignment \<Rightarrow> THostPort \<Rightarrow> PlanNodeId \<Rightarrow> TScanRangeParams list" where
  "ranges_at a e n =
     (case map_of a e of None \<Rightarrow> [] | Some m \<Rightarrow> (case map_of m n of None \<Rightarrow> [] | Some l \<Rightarrow> l))"

definition node_ranges :: "PerNodeScanRanges \<Rightarrow> PlanNodeId \<Rightarrow> TScanRangeParams multiset" where
  "node_ranges m n = sum_list (map (\<lambda>x. if fst x = n then mset (snd x) else {#}) m)"

definition emitted :: "FragmentScanRangeAssignment \<Rightarrow> PlanNodeId \<Rightarrow> TScanRangeParams multiset" where
  "emitted a n = sum_list (map (\<lambda>x. node_ranges (snd x) n) a)"

text \<open>
  The inputs the function is written for: every range has a location, the fragment has
  a host, and with more than one host every data host is a key of \<open>data_server_map\<close>
  (the assertions of lines 1277-1286); lengths are not negative.
\<close>

definition range_lengths :: "TScanRangeLocations list \<Rightarrow> int list" where
  "range_lengths locs = map (\<lambda>r. GetScanRangeLength (scan_range r)) locs"

definition hosts_known :: "FragmentExecParams \<Rightarrow> TScanRangeLocations list \<Rightarrow> bool" where
  "hosts_known params locs =
     (hosts params \<noteq> [] \<and>
      (length (hosts params) = 1 \<or>
       list_all (\<lambda>r. list_all (\<lambda>l. map_of (data_server_map params) (server l) \<noteq> None) (locations r)) locs))"

text \<open>
  The spread of the bytes over the data hosts, the largest range, and the inputs on which
  every range has a replica on every data host.
\<close>

definition imbalance :: "(THostPort \<times> int) list \<Rightarrow> int" where
  "imbalance abph = Max (set (map snd abph)) - Min (set (map snd abph))"

definition max_range_size :: "TScanRangeLocations list \<Rightarrow> int" where
  "max_range_size locs = Max (set (range_lengths locs))"

definition fully_replicated :: "TScanRangeLocations list \<Rightarrow> bool" where
  "fully_replicated locs =
     list_all (\<lambda>r. set (map server (locations r)) = set (map server (locations (hd locs)))) locs"

subsection \<open>Reading the RPC log\<close>

text \<open>
  The \<^verbatim>\<open>CancelPlanFragment\<close> calls made for backend \<open>i\<close>, and those that were answered;
  a backend state that \<^verbatim>\<open>CancelInternal\<close> sends a cancel to (status OK, initiated, not
  done); the backend an event belongs to and the events of one backend.
\<close>

fun is_cancel_call :: "nat \<Rightarrow> rpc_event \<Rightarrow> bool" where
  "is_cancel_call i (CancelPlanFragment_call j r) = (i = j)"
| "is_cancel_call i e = False"

fun is_cancel_reply :: "nat \<Rightarrow> rpc_event \<Rightarrow> bool" where
  "is_cancel_reply i (CancelPlanFragment_call j (Reply res)) = (i = j)"
| "is_cancel_reply i e = False"

definition cancel_calls_to :: "nat \<Rightarrow> rpc_event list \<Rightarrow> nat" where
  "cancel_calls_to i log = length (filter (is_cancel_call i) log)"

definition cancel_replies_of :: "nat \<Rightarrow> rpc_event list \<Rightarrow> nat" where
  "cancel_replies_of i log = length (filter (is_cancel_reply i) log)"

definition to_cancel :: "BackendExecState option \<Rightarrow> bool" where
  "to_cancel x = (case x of None \<Rightarrow> False | Some es \<Rightarrow> ok (status es) \<and> initiated es \<and> \<not> is_done es)"

fun event_backend :: "rpc_event \<Rightarrow> nat" where
  "event_backend (GetClient_call i st) = i"
| "event_backend (ReopenClient_call i st) = i"
| "event_backend (ReleaseClient_call i) = i"
| "event_backend (ExecPlanFragment_call i r) = i"
| "event_backend (CancelPlanFragment_call i r) = i"

definition calls_for :: "nat \<Rightarrow> rpc_event list \<Rightarrow> rpc_event list" where
  "calls_for i log = filter (\<lambda>e. event_backend e = i) log"

text \<open>
  The calls that cancel one instance, given what the client cache and the backend answer:
  a client is asked for; without one nothing is sent; otherwise \<^verbatim>\<open>CancelPlanFragment\<close> is
  sent once, and once more when the first attempt throws a transport exception and the
  client could be reopened; the client is released.
\<close>

definition cancel_trace :: "nat \<Rightarrow> Status \<Rightarrow> rpc_reply \<Rightarrow> Status \<Rightarrow> rpc_reply \<Rightarrow> rpc_event list" where
  "cancel_trace i client r1 reopened r2 =
     GetClient_call i client #
     (if \<not> ok client then []
      else CancelPlanFragment_call i r1 #
           (case r1 of
              Reply res \<Rightarrow> [ReleaseClient_call i]
            | TTransportException e \<Rightarrow>
                ReopenClient_call i reopened #
                (if \<not> ok reopened then [ReleaseClient_call i]
                 else [CancelPlanFragment_call i r2, ReleaseClient_call i])))"

text \<open>
  What the cancellation does to one instance: \<open>es\<close> is its state before, \<open>st'\<close> its
  status after and \<open>new\<close> the calls made for it. An instance whose status is not OK is
  left alone; the others get the status \<^verbatim>\<open>CANCELLED\<close>, and those that were initiated and
  are not done are sent the cancel calls, whose errors are added to the status.
\<close>

abbreviation cancel_effect :: "nat \<Rightarrow> BackendExecState \<Rightarrow> Status \<Rightarrow> rpc_event list \<Rightarrow> bool" where
  "cancel_effect i es st' new \<equiv>
     (if \<not> ok (status es) then st' = status es \<and> new = []
      else if \<not> (initiated es \<and> \<not> is_done es) then st' = Status_CANCELLED \<and> new = []
      else (\<exists>errs client r1 reopened r2.
              st' = Status_Error CANCELLED (''Cancelled'' # errs) \<and>
              new = cancel_trace i client r1 reopened r2))"

text \<open>\<^verbatim>\<open>Cancel\<close> called \<open>n\<close> times in a row.\<close>

fun Cancel_times ::
  "nat \<Rightarrow> bool \<Rightarrow> 'w rpc_ops \<Rightarrow> ('w, 'fs) Coordinator \<Rightarrow> fault + ('w, 'fs) Coordinator" where
  "Cancel_times 0 dchecks ops s = Inr s"
| "Cancel_times (Suc n) dchecks ops s =
     (case Cancel dchecks ops s of Inl f \<Rightarrow> Inl f | Inr s' \<Rightarrow> Cancel_times n dchecks ops s')"

subsection \<open>The dispatch calls of a planned query\<close>

text \<open>
  The dispatch of the instances one after the other, in the order of their backend
  numbers: the status that \<^verbatim>\<open>ExecRemoteFragment\<close> returns for each and the state it leaves.
  \<open>first_error\<close> is the first status of a list that is not OK.
\<close>

fun dispatch_each ::
  "'w rpc_ops \<Rightarrow> TUniqueId \<Rightarrow> nat \<Rightarrow> BackendExecState list \<Rightarrow> 'w \<times> rpc_event list \<Rightarrow>
   (Status \<times> BackendExecState) list \<times> 'w \<times> rpc_event list" where
  "dispatch_each ops qid i [] wl = ([], wl)"
| "dispatch_each ops qid i (es # rest) wl =
     (case ExecRemoteFragment ops qid i es wl of
        (st, es', wl') \<Rightarrow>
          (case dispatch_each ops qid (i + 1) rest wl' of
             (rs, wl'') \<Rightarrow> ((st, es') # rs, wl'')))"

definition first_error :: "Status list \<Rightarrow> Status" where
  "first_error sts = (case find (\<lambda>st. \<not> ok st) sts of None \<Rightarrow> Status_OK | Some st \<Rightarrow> st)"

text \<open>
  The instances that \<^verbatim>\<open>ComputeFragmentExecParams\<close> and \<^verbatim>\<open>ComputeScanRangeAssignment\<close> have
  planned: one per host of every fragment that runs on the backends, with the instance id,
  the host and the scan ranges of that host, numbered from \<open>backend_no\<close> on.
  \<open>remote_fragments\<close> are the fragments that \<^verbatim>\<open>Exec\<close> dispatches: all but the coordinator
  fragment. A query is \<open>planned\<close> when every such fragment has parameters, hosts and an
  instance id for each host, and \<^verbatim>\<open>num_backends_\<close> counts the instances.
\<close>

definition planned_ranges :: "FragmentScanRangeAssignment \<Rightarrow> THostPort \<Rightarrow> PerNodeScanRanges" where
  "planned_ranges assignment h = (case map_of assignment h of None \<Rightarrow> [] | Some ranges \<Rightarrow> ranges)"

definition planned_state ::
  "FragmentExecParams \<Rightarrow> FragmentScanRangeAssignment \<Rightarrow> nat \<Rightarrow> nat \<Rightarrow> nat \<Rightarrow> BackendExecState" where
  "planned_state params assignment backend_no frag_idx k =
     \<lparr>fragment_instance_id = instance_ids params ! k,
      hostport = hosts params ! k,
      total_split_size = ComputeTotalSplitSize (planned_ranges assignment (hosts params ! k)),
      rpc_per_node_scan_ranges = planned_ranges assignment (hosts params ! k),
      rpc_backend_num = backend_no,
      fragment_idx = frag_idx,
      status = Status_OK,
      initiated = False,
      is_done = False,
      profile_created = False,
      error_log = [],
      total_ranges_complete = 0\<rparr>"

definition fragment_states :: "nat \<Rightarrow> nat \<Rightarrow> ('w, 'fs) Coordinator \<Rightarrow> BackendExecState list" where
  "fragment_states frag_idx backend_no s =
     map (\<lambda>k. planned_state (fragment_exec_params s ! frag_idx) (scan_range_assignment s ! frag_idx)
                 (backend_no + k) frag_idx k)
       [0..<length (hosts (fragment_exec_params s ! frag_idx))]"

fun planned_states :: "nat list \<Rightarrow> nat \<Rightarrow> ('w, 'fs) Coordinator \<Rightarrow> BackendExecState list" where
  "planned_states [] backend_no s = []"
| "planned_states (frag_idx # rest) backend_no s =
     fragment_states frag_idx backend_no s @
     planned_states rest (backend_no + length (hosts (fragment_exec_params s ! frag_idx))) s"

definition remote_fragments :: "TQueryExecRequest \<Rightarrow> nat list" where
  "remote_fragments request =
     [(if partition (hd (fragments request)) = UNPARTITIONED then 1 else 0)..<length (fragments request)]"

definition planned :: "nat list \<Rightarrow> ('w, 'fs) Coordinator \<Rightarrow> bool" where
  "planned idxs s =
     (list_all (\<lambda>fi. fi < length (fragment_exec_params s) \<and> fi < length (scan_range_assignment s) \<and>
                     hosts (fragment_exec_params s ! fi) \<noteq> [] \<and>
                     length (hosts (fragment_exec_params s ! fi)) \<le>
                       length (instance_ids (fragment_exec_params s ! fi))) idxs \<and>
      num_backends s = int (length (planned_states idxs 0 s)))"

text \<open>The members that neither a status report nor a cancellation writes.\<close>

definition kept :: "('w, 'fs) Coordinator \<Rightarrow> ('w, 'fs) Coordinator \<Rightarrow> bool" where
  "kept s s' =
     (has_called_wait s' = has_called_wait s \<and> needs_finalization s' = needs_finalization s \<and>
      finalize_params s' = finalize_params s \<and> hdfs s' = hdfs s \<and> hdfs_trace s' = hdfs_trace s \<and>
      (executor s' = None) = (executor s = None))"

subsection \<open>Finalization of an overwrite of an unpartitioned table in the specification's words\<close>

text \<open>
  ``List the directory and delete files only (not subdirectories), propagate the first
  error. Create the partition directory. Then walk the pending-move map: empty destination:
  the source is a tmp directory to delete in step 4; non-empty destination: rename source
  to destination, failing the query on error. Step 4 deletes the accumulated tmp
  directories.''
\<close>

definition data_files :: "hdfsFileInfo list \<Rightarrow> string list" where
  "data_files listing = map mName (filter (\<lambda>info. mKind info = kObjectKindFile) listing)"

fun delete_each ::
  "'fs hdfs_ops \<Rightarrow> string \<Rightarrow> string list \<Rightarrow> 'fs \<times> hdfs_call list \<Rightarrow> Status \<times> 'fs \<times> hdfs_call list" where
  "delete_each hops message [] ft = (Status_OK, ft)"
| "delete_each hops message (p # ps) ft =
     (case hdfsDelete hops p (fst ft) of
        (rc, fs') \<Rightarrow>
          if rc = - 1
          then (Status_msg (AppendHdfsErrorMessage hops fs' message p), fs', snd ft @ [Delete_call p])
          else delete_each hops message ps (fs', snd ft @ [Delete_call p]))"

definition pending_renames :: "(string \<times> string) list \<Rightarrow> (string \<times> string) list" where
  "pending_renames moves = filter (\<lambda>move. snd move \<noteq> []) moves"

definition tmp_dirs :: "(string \<times> string) list \<Rightarrow> string list" where
  "tmp_dirs moves = foldl (\<lambda>tmp move. insort_insert (fst move) tmp) [] (filter (\<lambda>move. snd move = []) moves)"

fun rename_each ::
  "'fs hdfs_ops \<Rightarrow> (string \<times> string) list \<Rightarrow> 'fs \<times> hdfs_call list \<Rightarrow> Status \<times> 'fs \<times> hdfs_call list" where
  "rename_each hops [] ft = (Status_OK, ft)"
| "rename_each hops (move # rest) ft =
     (case hdfsRename hops (fst move) (snd move) (fst ft) of
        (rc, fs') \<Rightarrow>
          if rc = - 1
          then (Status_msg (AppendHdfsErrorMessage hops fs'
                  (''Could not move HDFS file: '' @ fst move @ '' to desintation: '' @ snd move) []),
                fs', snd ft @ [Rename_call (fst move) (snd move)])
          else rename_each hops rest (fs', snd ft @ [Rename_call (fst move) (snd move)]))"

definition finalize_overwrite_unpartitioned ::
  "'fs hdfs_ops \<Rightarrow> string \<Rightarrow> (string \<times> string) list \<Rightarrow> 'fs \<times> hdfs_call list \<Rightarrow>
   Status \<times> 'fs \<times> hdfs_call list" where
  "finalize_overwrite_unpartitioned hops base moves ft =
     (let root = base @ ''/'' in
      case hdfsListDirectory hops root (fst ft) of
        (None, fs1) \<Rightarrow>
          (Status_msg (AppendHdfsErrorMessage hops fs1 ''Could not list directory: '' root),
           fs1, snd ft @ [ListDirectory_call root])
      | (Some listing, fs1) \<Rightarrow>
          (case delete_each hops
                  ''Failed to delete existing HDFS file as part of INSERT OVERWRITE query: ''
                  (data_files listing) (fs1, snd ft @ [ListDirectory_call root]) of
             (delete_status, ft2) \<Rightarrow>
               if \<not> ok delete_status then (delete_status, ft2)
               else (case hdfsCreateDirectory hops root (fst ft2) of
                       (rc, fs3) \<Rightarrow>
                         (case rename_each hops (pending_renames moves)
                                 (fs3, snd ft2 @ [CreateDirectory_call root]) of
                            (move_status, ft4) \<Rightarrow>
                              if \<not> ok move_status then (move_status, ft4)
                              else delete_each hops ''Failed to delete temporary directory: ''
                                     (tmp_dirs moves) ft4))))"

subsection \<open>Example inputs\<close>

definition host_x :: THostPort where
  "host_x = \<lparr>hostname = ''x'', ipaddress = ''10.0.0.1'', port = 22000\<rparr>"

definition host_y :: THostPort where
  "host_y = \<lparr>hostname = ''y'', ipaddress = ''10.0.0.2'', port = 22000\<rparr>"

definition file_range :: "int \<Rightarrow> THostPort list \<Rightarrow> TScanRangeLocations" where
  "file_range n hs =
     \<lparr>scan_range = \<lparr>hdfs_file_split = Some \<lparr>path = ''f'', offset = 0, split_length = n\<rparr>,
                    hbase_key_range = None\<rparr>,
      locations = map (\<lambda>h. \<lparr>server = h, volume_id = 0\<rparr>) hs\<rparr>"

definition file_params :: "int \<Rightarrow> TScanRangeParams" where
  "file_params n =
     \<lparr>p_scan_range = \<lparr>hdfs_file_split = Some \<lparr>path = ''f'', offset = 0, split_length = n\<rparr>,
                      hbase_key_range = None\<rparr>,
      p_volume_id = Some 0\<rparr>"

definition params_of_hosts :: "THostPort list \<Rightarrow> FragmentExecParams" where
  "params_of_hosts hs =
     \<lparr>hosts = hs, instance_ids = [], per_exch_num_senders = [], destinations = [],
      data_server_map = map (\<lambda>h. (h, h)) hs\<rparr>"

text \<open>Scenario 4 of the specification: three ranges of 100 bytes, each on both hosts.\<close>

definition three_ranges :: "TScanRangeLocations list" where
  "three_ranges =
     [file_range 100 [host_x, host_y], file_range 100 [host_x, host_y],
      file_range 100 [host_x, host_y]]"

text \<open>Two ranges that only \<open>host_x\<close> holds and a small one that only \<open>host_y\<close> holds.\<close>

definition skewed_ranges :: "TScanRangeLocations list" where
  "skewed_ranges = [file_range 100 [host_x], file_range 100 [host_x], file_range 10 [host_y]]"

definition coordinator0 :: "'w \<Rightarrow> 'fs \<Rightarrow> ('w, 'fs) Coordinator" where
  "coordinator0 w fs =
     \<lparr>query_id = \<lparr>hi = 7, lo = 100\<rparr>, query_status = Status_OK, has_called_wait = False,
      executor = None, needs_finalization = False, finalize_params = (False, ''/base''),
      num_backends = 0, num_remaining_backends = 0, num_scan_ranges = 0,
      fragment_exec_params = [], scan_range_assignment = [], backend_exec_states = [],
      partition_row_counts = [], files_to_move = [], progress = 0, exec_stats_num_rows = 0,
      rpc_world = w, rpc_log = [], hdfs = fs, hdfs_trace = [], incoming_reports = [],
      notifications = 0, summaries = 0\<rparr>"

definition scan_fragment :: TPlanFragment where
  "scan_fragment =
     \<lparr>plan = \<lparr>nodes = [\<lparr>node_id = 0, node_type = HDFS_SCAN_NODE, num_children = 0\<rparr>]\<rparr>,
      output_sink = \<lparr>stream_sink_isset = False,
                     stream_sink = \<lparr>dest_node_id = 0, output_partition = UNPARTITIONED\<rparr>\<rparr>,
      partition = RANDOM\<rparr>"

definition one_fragment_request :: TQueryExecRequest where
  "one_fragment_request =
     \<lparr>fragments = [scan_fragment], dest_fragment_idx = [], per_node_scan_ranges = []\<rparr>"

text \<open>A query whose id has the largest \<open>lo\<close>, with one fragment on one host.\<close>

definition overflow_coordinator :: "(unit, unit) Coordinator" where
  "overflow_coordinator =
     (coordinator0 () ())\<lparr>query_id := \<lparr>hi = 7, lo = INT64_MAX\<rparr>,
                          fragment_exec_params := [params_of_hosts [host_x]]\<rparr>"

text \<open>A printer of ids: \<open>hi\<close> and \<open>lo\<close> in decimal digits.\<close>

function decimal :: "nat \<Rightarrow> string" where
  "decimal n = (if n < 10 then [char_of (48 + n)] else decimal (n div 10) @ [char_of (48 + n mod 10)])"
  by auto

termination decimal
  by (relation "measure id") auto

declare decimal.simps [simp del]

definition print_hi_lo :: "TUniqueId \<Rightarrow> string" where
  "print_hi_lo uid = decimal (nat (hi uid)) @ '':'' @ decimal (nat (lo uid))"

text \<open>Backends that answer every call, and a query with one running instance.\<close>

definition ok_tstatus :: TStatus where
  "ok_tstatus = \<lparr>status_code = OK, error_msgs = []\<rparr>"

definition quiet_ops :: "unit rpc_ops" where
  "quiet_ops =
     \<lparr>GetClient = (\<lambda>h w. (Status_OK, w)), ReopenClient = (\<lambda>h w. (Status_OK, w)),
      ExecPlanFragment = (\<lambda>es w. (Reply ok_tstatus, w)),
      CancelPlanFragment = (\<lambda>h i w. (Reply ok_tstatus, w)), PrintId = print_hi_lo\<rparr>"

definition running_backend :: "nat \<Rightarrow> BackendExecState" where
  "running_backend n =
     \<lparr>fragment_instance_id = \<lparr>hi = 7, lo = 101 + int n\<rparr>, hostport = host_x, total_split_size = 0,
      rpc_per_node_scan_ranges = [], rpc_backend_num = n, fragment_idx = 0, status = Status_OK,
      initiated = True, is_done = False, profile_created = False, error_log = [],
      total_ranges_complete = 0\<rparr>"

definition running_query :: "(unit, unit) Coordinator" where
  "running_query =
     (coordinator0 () ())\<lparr>num_backends := 1, num_remaining_backends := 1,
                          backend_exec_states := [Some (running_backend 0)]\<rparr>"

text \<open>A periodic report of an instance that is still running and has no error.\<close>

definition progress_report :: TReportExecStatusParams where
  "progress_report =
     \<lparr>backend_num = 0, report_status = ok_tstatus, report_done = False, report_ranges_complete = 0,
      report_error_log = None, insert_exec_status = None\<rparr>"

text \<open>
  Scenario 2 of the specification: one fragment on five hosts, and a transport error on
  the \<^verbatim>\<open>ExecPlanFragment\<close> calls of the third instance.
\<close>

definition host_n :: "nat \<Rightarrow> THostPort" where
  "host_n n = \<lparr>hostname = ''h'', ipaddress = ''10.0.0.1'', port = 22000 + int n\<rparr>"

definition fail_third_ops :: "unit rpc_ops" where
  "fail_third_ops =
     \<lparr>GetClient = (\<lambda>h w. (Status_OK, w)), ReopenClient = (\<lambda>h w. (Status_OK, w)),
      ExecPlanFragment = (\<lambda>es w. (if rpc_backend_num es = 2 then TTransportException ''down''
                                   else Reply ok_tstatus, w)),
      CancelPlanFragment = (\<lambda>h i w. (Reply ok_tstatus, w)), PrintId = print_hi_lo\<rparr>"

definition five_hosts_params :: FragmentExecParams where
  "five_hosts_params =
     \<lparr>hosts = map host_n [0..<5], instance_ids = map (\<lambda>n. \<lparr>hi = 7, lo = 101 + int n\<rparr>) [0..<5],
      per_exch_num_senders = [], destinations = [], data_server_map = []\<rparr>"

definition planned_query :: "(unit, unit) Coordinator" where
  "planned_query =
     (coordinator0 () ())\<lparr>fragment_exec_params := [five_hosts_params],
                          scan_range_assignment := [[]], num_backends := 5\<rparr>"

definition idle_executor :: PlanFragmentExecutor where
  "idle_executor =
     \<lparr>prepare_result = Status_OK, open_result = Status_OK, next_results = [],
      hdfs_files_to_move = [], exec_num_appended_rows = [], cancel_calls = 0\<rparr>"

text \<open>
  Scenario 3 of the specification: a file system that is the listing of the table's root
  directory, with the files \<open>a\<close> and \<open>b\<close> and the directory \<open>sub\<close>, and the moves
  of two temporary files to \<open>a\<close> and \<open>c\<close>.
\<close>

definition toy_hdfs :: "hdfsFileInfo list hdfs_ops" where
  "toy_hdfs =
     \<lparr>hdfsListDirectory = (\<lambda>dir fs. (Some fs, fs)),
      hdfsDelete = (\<lambda>p fs. (if p \<in> mName ` set fs then 0 else - 1, filter (\<lambda>info. mName info \<noteq> p) fs)),
      hdfsExists = (\<lambda>p fs. (if p \<in> mName ` set fs then 0 else - 1, fs)),
      hdfsCreateDirectory = (\<lambda>p fs. (0, fs)),
      hdfsRename = (\<lambda>src dst fs.
        (0, filter (\<lambda>info. mName info \<noteq> src \<and> mName info \<noteq> dst) fs @
            [\<lparr>mKind = kObjectKindFile, mName = dst\<rparr>])),
      hdfsErrorText = (\<lambda>fs. [])\<rparr>"

definition table_root :: "hdfsFileInfo list" where
  "table_root =
     [\<lparr>mKind = kObjectKindFile, mName = ''/base/a''\<rparr>,
      \<lparr>mKind = kObjectKindFile, mName = ''/base/b''\<rparr>,
      \<lparr>mKind = kObjectKindDirectory, mName = ''/base/sub''\<rparr>]"

definition tmp_moves :: "(string \<times> string) list" where
  "tmp_moves = [(''/base/tmp/1'', ''/base/a''), (''/base/tmp/2'', ''/base/c'')]"

definition overwrite_query :: "(unit, hdfsFileInfo list) Coordinator" where
  "overwrite_query =
     (coordinator0 () table_root)\<lparr>has_called_wait := True, needs_finalization := True,
        finalize_params := (True, ''/base''), partition_row_counts := [([], 10)],
        files_to_move := tmp_moves\<rparr>"




text \<open>A parallel insert that was cancelled, after \<^verbatim>\<open>Wait\<close>.\<close>

definition cancelled_insert :: "(unit, unit) Coordinator" where
  "cancelled_insert =
     (coordinator0 () ())\<lparr>has_called_wait := True, query_status := Status_CANCELLED\<rparr>"

text \<open>
  A backend whose first \<^verbatim>\<open>CancelPlanFragment\<close> call fails in the transport (the world
  counts these calls), and a query with four instances: running, not initiated, done, and
  failed.
\<close>

definition flaky_ops :: "nat rpc_ops" where
  "flaky_ops =
     \<lparr>GetClient = (\<lambda>h w. (Status_OK, w)), ReopenClient = (\<lambda>h w. (Status_OK, w)),
      ExecPlanFragment = (\<lambda>es w. (Reply ok_tstatus, w)),
      CancelPlanFragment = (\<lambda>h i w. (if w = 0 then TTransportException ''reset''
                                        else Reply ok_tstatus, Suc w)),
      PrintId = print_hi_lo\<rparr>"

definition mixed_query :: "(nat, unit) Coordinator" where
  "mixed_query =
     (coordinator0 0 ())\<lparr>num_backends := 4, num_remaining_backends := 3,
        backend_exec_states :=
          [Some (running_backend 0),
           Some ((running_backend 1)\<lparr>initiated := False\<rparr>),
           Some ((running_backend 2)\<lparr>is_done := True\<rparr>),
           Some ((running_backend 3)\<lparr>status := Status_msg ''remote error''\<rparr>)]\<rparr>"

text \<open>
  A query with a coordinator fragment and two fragments on the backends, of two and of
  three instances; \<open>fail_third_ops\<close> fails the dispatch of backend 2, the first instance of
  the last fragment, \<open>fail_first_ops\<close> that of backend 0, in the fragment before.
\<close>

definition root_fragment :: TPlanFragment where
  "root_fragment =
     \<lparr>plan = \<lparr>nodes = [\<lparr>node_id = 1, node_type = EXCHANGE_NODE, num_children = 0\<rparr>]\<rparr>,
      output_sink = \<lparr>stream_sink_isset = False,
                     stream_sink = \<lparr>dest_node_id = 0, output_partition = UNPARTITIONED\<rparr>\<rparr>,
      partition = UNPARTITIONED\<rparr>"

definition staged_request :: TQueryExecRequest where
  "staged_request =
     \<lparr>fragments = [root_fragment, scan_fragment, scan_fragment], dest_fragment_idx = [0, 1],
      per_node_scan_ranges = []\<rparr>"

definition staged_params :: "nat \<Rightarrow> nat \<Rightarrow> FragmentExecParams" where
  "staged_params b n =
     \<lparr>hosts = map host_n [b..<b + n],
      instance_ids = map (\<lambda>k. \<lparr>hi = 7, lo = 102 + int k\<rparr>) [b..<b + n],
      per_exch_num_senders = [], destinations = [], data_server_map = []\<rparr>"

definition staged_query :: "(unit, unit) Coordinator" where
  "staged_query =
     (coordinator0 () ())\<lparr>
        fragment_exec_params :=
          [(params_of_hosts [host_x])\<lparr>instance_ids := [\<lparr>hi = 7, lo = 101\<rparr>]\<rparr>,
           staged_params 0 2, staged_params 2 3],
        scan_range_assignment := [[], [], []], num_backends := 5\<rparr>"

definition fail_first_ops :: "unit rpc_ops" where
  "fail_first_ops =
     \<lparr>GetClient = (\<lambda>h w. (Status_OK, w)), ReopenClient = (\<lambda>h w. (Status_OK, w)),
      ExecPlanFragment = (\<lambda>es w. (if rpc_backend_num es = 0 then TTransportException ''down''
                                   else Reply ok_tstatus, w)),
      CancelPlanFragment = (\<lambda>h i w. (Reply ok_tstatus, w)), PrintId = print_hi_lo\<rparr>"



section \<open>Theorems\<close>

subsection \<open>Plan topology\<close>

lemma leftmost_loop_drop:
  "node_idx \<le> length ns \<Longrightarrow>
   leftmost_loop ns node_idx =
     node_idx + length (takeWhile (\<lambda>n. num_children n \<noteq> 0) (drop node_idx ns))"
proof (induction ns node_idx rule: leftmost_loop.induct)
  case (1 ns node_idx)
  show ?case
  proof (cases "node_idx < length ns")
    case True
    then have d: "drop node_idx ns = ns ! node_idx # drop (Suc node_idx) ns"
      by (simp add: Cons_nth_drop_Suc)
    show ?thesis
    proof (cases "num_children (ns ! node_idx) \<noteq> 0")
      case nz: True
      with True "1.IH" have "leftmost_loop ns (node_idx + 1) =
          node_idx + 1 + length (takeWhile (\<lambda>n. num_children n \<noteq> 0) (drop (node_idx + 1) ns))"
        by simp
      with True nz d show ?thesis
        by (subst leftmost_loop.simps) simp
    next
      case False
      with True d show ?thesis
        by (subst leftmost_loop.simps) simp
    qed
  next
    case False
    with "1.prems" show ?thesis
      by (subst leftmost_loop.simps) simp
  qed
qed

lemma leftmost_loop_takeWhile:
  "leftmost_loop ns 0 = length (takeWhile (\<lambda>n. num_children n \<noteq> 0) ns)"
  using leftmost_loop_drop [of 0 ns] by simp

lemma find_as_takeWhile:
  "find P xs =
     (let k = length (takeWhile (\<lambda>x. \<not> P x) xs) in if k = length xs then None else Some (xs ! k))"
  by (induction xs) (auto simp: Let_def)

lemma match_types_mem:
  "match_types invalid node types = (if node_type node \<in> set types then node_id node else invalid)"
  by (induction types) auto

text \<open>
  C8. For every plan and every list of types, \<open>FindLeftmostNode\<close> returns what the
  specification says: the sentinel when no node has \<open>num_children = 0\<close>; otherwise, with
  \<open>leaf\<close> the first such node, the id of \<open>leaf\<close> when its type is in the list and the
  sentinel when it is not.
\<close>

theorem FindLeftmostNode_spec:
  "FindLeftmostNode invalid the_plan types = find_leftmost_of_types invalid the_plan types"
  unfolding FindLeftmostNode_def find_leftmost_of_types_def leftmost_leaf_def
  by (simp add: leftmost_loop_takeWhile find_as_takeWhile [of "\<lambda>n. num_children n = 0"]
      match_types_mem Let_def)

subsection \<open>Instance ids\<close>

text \<open>
  C9. The ids of a query are \<open>lo\<close> of the query id plus the instance number plus one,
  with the same \<open>hi\<close>, and an instance number that would overflow the 64-bit \<open>lo\<close> is
  rejected. On the query with \<open>lo = INT64_MAX\<close> and one instance the build without
  assertions rejects nothing and assigns the wrapped-around \<open>lo = - 2 ^ 63\<close>; only the
  build with assertions stops, at \<^verbatim>\<open>DCHECK_LT\<close>.
\<close>

theorem instance_id_overflow_not_rejected:
  "map_sum id (\<lambda>s. (map instance_ids (fragment_exec_params s), num_backends s))
     (ComputeFragmentExecParams False one_fragment_request overflow_coordinator) =
     Inr ([[\<lparr>hi = 7, lo = - (2 ^ 63)\<rparr>]], 1) \<and>
   ComputeFragmentExecParams True one_fragment_request overflow_coordinator = Inl DCheckFailure"
  by code_simp

subsection \<open>Scan-range assignment\<close>

lemma map_of_map_set: "map_of (map_set m k v) = (map_of m)(k \<mapsto> v)"
  by (induction m k v rule: map_set.induct) auto

lemma keys_map_set: "fst ` set (map_set m k v) = insert k (fst ` set m)"
  by (induction m k v rule: map_set.induct) auto

lemma distinct_map_set: "distinct (map fst m) \<Longrightarrow> distinct (map fst (map_set m k v))"
  by (induction m k v rule: map_set.induct) (auto simp: keys_map_set)

lemma FindOrInsert_snd: "snd (FindOrInsert m k d) = (case map_of m k of None \<Rightarrow> d | Some v \<Rightarrow> v)"
  by (simp add: FindOrInsert_def split: option.splits)

lemma FindOrInsert_map_of: "map_of (fst (FindOrInsert m k d)) = (map_of m)(k \<mapsto> snd (FindOrInsert m k d))"
  by (auto simp: FindOrInsert_def map_of_map_set split: option.splits)

lemma FindOrInsert_keys: "fst ` set (fst (FindOrInsert m k d)) = insert k (fst ` set m)"
  by (auto simp: FindOrInsert_def keys_map_set split: option.splits dest: map_of_SomeD  intro: rev_image_eqI)

lemma FindOrInsert_distinct: "distinct (map fst m) \<Longrightarrow> distinct (map fst (fst (FindOrInsert m k d)))"
  by (auto simp: FindOrInsert_def distinct_map_set split: option.splits)

lemma assigned_bytes_FindOrInsert:
  "assigned_bytes (fst (FindOrInsert m k 0)) = assigned_bytes m"
  by (auto simp: assigned_bytes_def FindOrInsert_def map_of_map_set fun_eq_iff split: option.splits)

lemma FindOrInsert_assigned_bytes: "snd (FindOrInsert m k 0) = assigned_bytes m k"
  by (simp add: FindOrInsert_snd assigned_bytes_def)

lemma find_min_exists:
  fixes g :: "'a \<Rightarrow> int"
  assumes "xs \<noteq> []"
  shows "\<exists>x. find (\<lambda>x. list_all (\<lambda>y. g x \<le> g y) xs) xs = Some x"
proof -
  define m where "m = Min (g ` set xs)"
  have "m \<in> g ` set xs"
    unfolding m_def using assms by (intro Min_in) auto
  then obtain x where x: "x \<in> set xs" "g x = m" by auto
  have "\<forall>y\<in>set xs. m \<le> g y"
    unfolding m_def by (auto intro: Min_le)
  with x have "\<exists>x\<in>set xs. list_all (\<lambda>y. g x \<le> g y) xs"
    by (auto simp: list_all_iff)
  then show ?thesis
    by (cases "find (\<lambda>x. list_all (\<lambda>y. g x \<le> g y) xs) xs") (auto simp: find_None_iff)
qed

lemma pick_location_char:
  "pick_location abph locs mn dh vol = (abph', mn', dh', vol') \<Longrightarrow>
   assigned_bytes abph' = assigned_bytes abph \<and>
   (mn', dh', vol') =
     (case find (\<lambda>l. assigned_bytes abph (server l) < mn \<and>
                     list_all (\<lambda>l'. assigned_bytes abph (server l) \<le> assigned_bytes abph (server l')) locs) locs of
        None \<Rightarrow> (mn, dh, vol)
      | Some l \<Rightarrow> (assigned_bytes abph (server l), Some (server l), volume_id l))"
proof (induction locs arbitrary: abph mn dh vol)
  case Nil
  then show ?case by simp
next
  case (Cons loc locs)
  define abph1 where "abph1 = fst (FindOrInsert abph (server loc) 0)"
  define g where "g = (\<lambda>l::TScanRangeLocation. assigned_bytes abph (server l))"
  have f1: "assigned_bytes abph1 = assigned_bytes abph"
    by (simp add: abph1_def assigned_bytes_FindOrInsert)
  have foi: "FindOrInsert abph (server loc) 0 = (abph1, g loc)"
    by (simp add: abph1_def g_def FindOrInsert_assigned_bytes [symmetric])
  show ?case
  proof (cases "g loc < mn")
    case True
    with Cons.prems foi
    have run: "pick_location abph1 locs (g loc) (Some (server loc)) (volume_id loc) = (abph', mn', dh', vol')"
      by simp
    note ih = Cons.IH [OF run, unfolded f1, folded g_def]
    show ?thesis
    proof (cases "list_all (\<lambda>l'. g loc \<le> g l') locs")
      case all: True
      then have "find (\<lambda>l. g l < g loc \<and> list_all (\<lambda>l'. g l \<le> g l') locs) locs = None"
        by (auto simp: find_None_iff list_all_iff)
      with ih True all show ?thesis
        by (simp add: g_def)
    next
      case nall: False
      then obtain l0 where l0: "l0 \<in> set locs" "g l0 < g loc"
        by (auto simp: list_all_iff not_le)
      have e1: "find (\<lambda>l. g l < g loc \<and> list_all (\<lambda>l'. g l \<le> g l') locs) locs =
            find (\<lambda>l. list_all (\<lambda>l'. g l \<le> g l') locs) locs"
        using l0 by (intro find_cong refl) (force simp: list_all_iff)
      have e2: "find (\<lambda>l. g l < mn \<and> g l \<le> g loc \<and> list_all (\<lambda>l'. g l \<le> g l') locs) locs =
            find (\<lambda>l. list_all (\<lambda>l'. g l \<le> g l') locs) locs"
        using l0 True by (intro find_cong refl) (force simp: list_all_iff)
      from l0 have "locs \<noteq> []" by auto
      from find_min_exists [OF this, of g] obtain x where
        x: "find (\<lambda>l. list_all (\<lambda>l'. g l \<le> g l') locs) locs = Some x" by blast
      from ih True nall e1 e2 x show ?thesis
        by (simp add: g_def)
    qed
  next
    case False
    with Cons.prems foi
    have run: "pick_location abph1 locs mn dh vol = (abph', mn', dh', vol')"
      by simp
    note ih = Cons.IH [OF run, unfolded f1, folded g_def]
    have "find (\<lambda>l. g l < mn \<and> g l \<le> g loc \<and> list_all (\<lambda>l'. g l \<le> g l') locs) locs =
          find (\<lambda>l. g l < mn \<and> list_all (\<lambda>l'. g l \<le> g l') locs) locs"
      using False by (intro find_cong refl) auto
    with ih False show ?thesis
      by (simp add: g_def)
  qed
qed

lemma least_loaded_Some:
  "locs \<noteq> [] \<Longrightarrow> \<exists>l. least_loaded f locs = Some l"
  unfolding least_loaded_def using find_min_exists [of locs "\<lambda>l. f (server l)"] by simp

lemma pick_location_least_loaded:
  assumes "\<And>h. assigned_bytes abph h < INT64_MAX"
  shows "pick_location abph locs INT64_MAX None v0 =
     (fst (pick_location abph locs INT64_MAX None v0),
      (case least_loaded (assigned_bytes abph) locs of
         None \<Rightarrow> (INT64_MAX, None, v0)
       | Some l \<Rightarrow> (assigned_bytes abph (server l), Some (server l), volume_id l)))"
proof -
  obtain a b c d where r: "pick_location abph locs INT64_MAX None v0 = (a, b, c, d)"
    by (metis prod_cases4)
  have "find (\<lambda>l. assigned_bytes abph (server l) < INT64_MAX \<and>
                     list_all (\<lambda>l'. assigned_bytes abph (server l) \<le> assigned_bytes abph (server l')) locs) locs
       = least_loaded (assigned_bytes abph) locs"
    unfolding least_loaded_def using assms by simp
  with pick_location_char [OF r] r show ?thesis by simp
qed

lemma int64_id: "- (2 ^ 63) \<le> x \<Longrightarrow> x < 2 ^ 63 \<Longrightarrow> int64 x = x"
  by (simp add: int64_def)

lemma pick_location_fst_bytes:
  "assigned_bytes (fst (pick_location abph locs mn dh vol)) = assigned_bytes abph"
  using pick_location_char [of abph locs mn dh vol]
  by (cases "pick_location abph locs mn dh vol") simp

lemma pick_location_keys:
  "fst ` set (fst (pick_location abph locs mn dh vol)) = fst ` set abph \<union> server ` set locs"
proof (induction locs arbitrary: abph mn dh vol)
  case Nil
  then show ?case by simp
next
  case (Cons loc locs)
  obtain m v where foi: "FindOrInsert abph (server loc) 0 = (m, v)" by force
  then have k: "fst ` set m = insert (server loc) (fst ` set abph)"
    using FindOrInsert_keys [of abph "server loc" 0] by simp
  show ?case using foi k Cons.IH by (simp split: if_splits)
qed

lemma pick_location_distinct:
  "distinct (map fst abph) \<Longrightarrow> distinct (map fst (fst (pick_location abph locs mn dh vol)))"
proof (induction locs arbitrary: abph mn dh vol)
  case Nil
  then show ?case by simp
next
  case (Cons loc locs)
  obtain m v where foi: "FindOrInsert abph (server loc) 0 = (m, v)" by force
  then have "distinct (map fst m)"
    using FindOrInsert_distinct [OF Cons.prems, of "server loc" 0] by simp
  then show ?case using foi Cons.IH by (simp split: if_splits)
qed

lemma add_assigned_bytes_bytes:
  "assigned_bytes (add_assigned_bytes abph h n) = (assigned_bytes abph)(h := int64 (assigned_bytes abph h + n))"
  by (auto simp: add_assigned_bytes_def assigned_bytes_def FindOrInsert_def map_of_map_set fun_eq_iff
      split: option.splits prod.splits)

lemma add_assigned_bytes_keys:
  "fst ` set (add_assigned_bytes abph h n) = insert h (fst ` set abph)"
proof -
  obtain m v where foi: "FindOrInsert abph h 0 = (m, v)" by force
  then have "fst ` set m = insert h (fst ` set abph)"
    using FindOrInsert_keys [of abph h 0] by simp
  with foi show ?thesis by (simp add: add_assigned_bytes_def keys_map_set)
qed

lemma add_assigned_bytes_distinct:
  "distinct (map fst abph) \<Longrightarrow> distinct (map fst (add_assigned_bytes abph h n))"
proof -
  assume d: "distinct (map fst abph)"
  obtain m v where foi: "FindOrInsert abph h 0 = (m, v)" by force
  then have "distinct (map fst m)"
    using FindOrInsert_distinct [OF d, of h 0] by simp
  with foi show ?thesis by (simp add: add_assigned_bytes_def distinct_map_set)
qed

lemma least_loaded_SomeD:
  "least_loaded f locs = Some l \<Longrightarrow> l \<in> set locs \<and> (\<forall>l'\<in>set locs. f (server l) \<le> f (server l'))"
  by (auto simp: least_loaded_def find_Some_iff list_all_iff)

lemma exec_hostport_of_spec:
  "hosts_known params [r] \<Longrightarrow> l \<in> set (locations r) \<Longrightarrow>
   \<exists>e. exec_hostport_of dchecks params (server l) = Inr e \<and> spec_exec_host params (server l) = Some e"
  apply (cases "hosts params")
   apply (simp add: hosts_known_def)
  subgoal for h hs
    by (cases hs) (auto simp: hosts_known_def exec_hostport_of_def spec_exec_host_def DCHECK_def list_all_iff)
  done

lemma assign_ranges_sim:
  assumes "list_all (\<lambda>r. locations r \<noteq> []) locs"
    and "hosts_known params locs"
    and "list_all (\<lambda>n. 0 \<le> n) (range_lengths locs)"
    and "\<And>h. 0 \<le> assigned_bytes abph h \<and> assigned_bytes abph h + sum_list (range_lengths locs) < INT64_MAX"
  shows "\<exists>abph'. assign_ranges dchecks node params locs abph asg =
           Inr (abph', foldl (\<lambda>a (e, p). push_scan_range a e node p) asg
                         (spec_assignment params (assigned_bytes abph) locs)) \<and>
         assigned_bytes abph' = spec_assigned_bytes (assigned_bytes abph) locs \<and>
         fst ` set abph' = fst ` set abph \<union> (\<Union>r\<in>set locs. server ` set (locations r)) \<and>
         (distinct (map fst abph) \<longrightarrow> distinct (map fst abph')) \<and>
         map (\<lambda>x. p_scan_range (snd x)) (spec_assignment params (assigned_bytes abph) locs) = map scan_range locs"
  using assms
proof (induction locs arbitrary: abph asg)
  case Nil
  then show ?case by simp
next
  case (Cons r rs)
  define f where "f = assigned_bytes abph"
  define n where "n = GetScanRangeLength (scan_range r)"
  from Cons.prems(1) have ne: "locations r \<noteq> []" and wf': "list_all (\<lambda>r. locations r \<noteq> []) rs" by simp_all
  from Cons.prems(2) have hk1: "hosts_known params [r]" and hk': "hosts_known params rs"
    by (auto simp: hosts_known_def)
  from Cons.prems(3) have n0: "0 \<le> n" and nn': "list_all (\<lambda>n. 0 \<le> n) (range_lengths rs)"
    by (simp_all add: range_lengths_def n_def)
  have s0: "0 \<le> sum_list (range_lengths rs)"
    using nn' by (auto simp: list_all_iff intro: sum_list_nonneg)
  have bnd: "\<And>h. 0 \<le> f h \<and> f h + n + sum_list (range_lengths rs) < INT64_MAX"
    using Cons.prems(4) by (simp add: f_def n_def range_lengths_def add.assoc)
  from least_loaded_Some [OF ne] obtain l where l: "least_loaded f (locations r) = Some l" by blast
  from least_loaded_SomeD [OF l] have lin: "l \<in> set (locations r)" by simp
  from exec_hostport_of_spec [OF hk1 lin] obtain e where
    e: "exec_hostport_of dchecks params (server l) = Inr e" "spec_exec_host params (server l) = Some e"
    by blast
  define abph1 where "abph1 = fst (pick_location abph (locations r) INT64_MAX None (- 1))"
  have lt: "\<And>h. assigned_bytes abph h < INT64_MAX"
    using bnd s0 n0 by (fold f_def) (smt (verit))
  have pick: "pick_location abph (locations r) INT64_MAX None (- 1) =
      (abph1, f (server l), Some (server l), volume_id l)"
    using pick_location_least_loaded [OF lt, of "locations r" "- 1"] l
    by (simp add: abph1_def f_def)
  have b1: "assigned_bytes abph1 = f"
    by (simp add: abph1_def f_def pick_location_fst_bytes)
  define abph2 where "abph2 = add_assigned_bytes abph1 (server l) n"
  have "int64 (f (server l) + n) = f (server l) + n"
    using bnd [of "server l"] s0 n0 by (intro int64_id) (simp_all add: INT64_MAX_def)
  then have b2: "assigned_bytes abph2 = f(server l := f (server l) + n)"
    by (simp add: abph2_def add_assigned_bytes_bytes b1)
  have bnd2: "\<And>h. 0 \<le> assigned_bytes abph2 h \<and> assigned_bytes abph2 h + sum_list (range_lengths rs) < INT64_MAX"
    using bnd n0 by (simp add: b2) (smt (verit))
  have k2: "fst ` set abph2 = fst ` set abph \<union> server ` set (locations r)"
    using lin by (auto simp: abph2_def add_assigned_bytes_keys abph1_def pick_location_keys)
  have d2: "distinct (map fst abph) \<longrightarrow> distinct (map fst abph2)"
    by (simp add: abph2_def add_assigned_bytes_distinct abph1_def pick_location_distinct)
  define p where "p = \<lparr>p_scan_range = scan_range r, p_volume_id = Some (volume_id l)\<rparr>"
  from Cons.IH [OF wf' hk' nn' bnd2, of "push_scan_range asg e node p"]
  obtain abph' where
    run: "assign_ranges dchecks node params rs abph2 (push_scan_range asg e node p) =
           Inr (abph', foldl (\<lambda>a (e, p). push_scan_range a e node p) (push_scan_range asg e node p)
                         (spec_assignment params (assigned_bytes abph2) rs))"
    and bytes: "assigned_bytes abph' = spec_assigned_bytes (assigned_bytes abph2) rs"
    and keys: "fst ` set abph' = fst ` set abph2 \<union> (\<Union>r\<in>set rs. server ` set (locations r))"
    and dist: "distinct (map fst abph2) \<longrightarrow> distinct (map fst abph')"
    and rngs: "map (\<lambda>x. p_scan_range (snd x)) (spec_assignment params (assigned_bytes abph2) rs) = map scan_range rs"
    by blast
  have eq: "assign_ranges dchecks node params (r # rs) abph asg =
        assign_ranges dchecks node params rs abph2 (push_scan_range asg e node p)"
    using pick e by (simp add: abph2_def n_def p_def)
  have sa: "spec_assignment params f (r # rs) = (e, p) # spec_assignment params (assigned_bytes abph2) rs"
    using l e by (simp add: b2 n_def p_def)
  have sb: "spec_assigned_bytes f (r # rs) = spec_assigned_bytes (assigned_bytes abph2) rs"
    using l by (simp add: b2 n_def)
  show ?case
    unfolding f_def [symmetric] eq sa sb
    using run bytes keys dist rngs k2 d2 by (auto simp: p_def)
qed

lemma sum_list_map_set_Some:
  fixes F :: "'k \<times> 'v \<Rightarrow> 'm multiset"
  shows "map_of m k = Some v \<Longrightarrow>
    sum_list (map F (map_set m k v')) + F (k, v) = sum_list (map F m) + F (k, v')"
  by (induction m k v' rule: map_set.induct) (auto split: if_splits)

lemma sum_list_map_set_None:
  fixes F :: "'k \<times> 'v \<Rightarrow> 'm multiset"
  shows "map_of m k = None \<Longrightarrow> sum_list (map F (map_set m k v')) = sum_list (map F m) + F (k, v')"
  by (induction m k v' rule: map_set.induct) (auto split: if_splits)

lemma map_set_map_set: "map_set (map_set m k v) k v' = map_set m k v'"
  by (induction m k v rule: map_set.induct) auto

lemma node_ranges_push:
  "node_ranges (case FindOrInsert sr node [] of (sr', l) \<Rightarrow> map_set sr' node (l @ [p])) n =
   node_ranges sr n + (if n = node then {#p#} else {#})"
proof (cases "map_of sr node")
  case None
  then show ?thesis
    by (simp add: FindOrInsert_def map_set_map_set node_ranges_def sum_list_map_set_None)
next
  case (Some l)
  from sum_list_map_set_Some [OF Some, of "\<lambda>x. if fst x = n then mset (snd x) else {#}" "l @ [p]"]
  show ?thesis using Some
    by (auto simp: FindOrInsert_def node_ranges_def)
qed

lemma emitted_push:
  "emitted (push_scan_range a e node p) n = emitted a n + (if n = node then {#p#} else {#})"
proof (cases "map_of a e")
  case None
  then show ?thesis
    using node_ranges_push [where sr = "[]" and node = node and p = p and n = n]
    by (simp add: push_scan_range_def FindOrInsert_def map_set_map_set emitted_def
        sum_list_map_set_None node_ranges_def)
next
  case (Some sr)
  from sum_list_map_set_Some [OF Some, of "\<lambda>x. node_ranges (snd x) n"
      "case FindOrInsert sr node [] of (sr', l) \<Rightarrow> map_set sr' node (l @ [p])"]
  show ?thesis using Some node_ranges_push [where sr = sr and node = node and p = p and n = n]
    by (auto simp: push_scan_range_def FindOrInsert_def emitted_def split: prod.splits option.splits)
qed

lemma ranges_at_push:
  "ranges_at (push_scan_range a e node p) e' n =
   ranges_at a e' n @ (if e' = e \<and> n = node then [p] else [])"
  by (auto simp: ranges_at_def push_scan_range_def FindOrInsert_def map_of_map_set
      split: option.splits prod.splits)

lemma emitted_foldl:
  "emitted (foldl (\<lambda>a (e, p). push_scan_range a e node p) a xs) node = emitted a node + mset (map snd xs)"
  by (induction xs arbitrary: a) (auto simp: emitted_push)

lemma ranges_at_foldl:
  "ranges_at (foldl (\<lambda>a (e, p). push_scan_range a e node p) a xs) e' n =
   ranges_at a e' n @ (if n = node then map snd (filter (\<lambda>x. fst x = e') xs) else [])"
  by (induction xs arbitrary: a) (auto simp: ranges_at_push)

text \<open>
  C3. On an input where every range has a location, the data hosts are known to the
  fragment and the lengths are not negative and sum up below \<open>INT64_MAX\<close>, the function
  returns, and its output is the specification's: under every execution host the list of
  the node grows by the parameters of the ranges that \<open>spec_assignment\<close> sends there, in
  input order, and nothing else changes; \<open>spec_assignment\<close> picks for each range the
  first location with the least assigned bytes, adds the range's length to that data
  host, and maps it through \<open>data_server_map\<close> or to the sole host. Over all hosts
  every input range is emitted exactly once.
\<close>

theorem ComputeScanRangeAssignment_spec:
  assumes "list_all (\<lambda>r. locations r \<noteq> []) locs"
    and "hosts_known params locs"
    and "list_all (\<lambda>n. 0 \<le> n) (range_lengths locs)"
    and "sum_list (range_lengths locs) < INT64_MAX"
  shows "\<exists>assignment'.
      ComputeScanRangeAssignment dchecks node locs params assignment = Inr assignment' \<and>
      (\<forall>e n. ranges_at assignment' e n =
         ranges_at assignment e n @
         (if n = node then map snd (filter (\<lambda>x. fst x = e) (spec_assignment params (\<lambda>h. 0) locs))
          else [])) \<and>
      emitted assignment' node =
        emitted assignment node + mset (map snd (spec_assignment params (\<lambda>h. 0) locs)) \<and>
      map (\<lambda>x. p_scan_range (snd x)) (spec_assignment params (\<lambda>h. 0) locs) = map scan_range locs"
proof -
  have z: "assigned_bytes [] = (\<lambda>h. 0)"
    by (simp add: assigned_bytes_def fun_eq_iff)
  have "\<And>h. 0 \<le> assigned_bytes [] h \<and> assigned_bytes [] h + sum_list (range_lengths locs) < INT64_MAX"
    using assms(4) by (simp add: z)
  from assign_ranges_sim [OF assms(1-3) this, of dchecks node assignment]
  show ?thesis
    by (auto simp: ComputeScanRangeAssignment_def z emitted_foldl ranges_at_foldl)
qed

lemma three_ranges_locations: "list_all (\<lambda>r. locations r \<noteq> []) three_ranges"
  by (simp add: three_ranges_def file_range_def)

lemma three_ranges_hosts_known: "hosts_known (params_of_hosts [host_x, host_y]) three_ranges"
  by (simp add: hosts_known_def three_ranges_def file_range_def params_of_hosts_def)

lemma three_ranges_nonneg: "list_all (\<lambda>n. 0 \<le> n) (range_lengths three_ranges)"
  by (simp add: range_lengths_def three_ranges_def file_range_def GetScanRangeLength_def)

lemma three_ranges_sum: "sum_list (range_lengths three_ranges) < INT64_MAX"
  by (simp add: range_lengths_def three_ranges_def file_range_def GetScanRangeLength_def
      INT64_MAX_def)

lemma three_ranges_replicated: "three_ranges \<noteq> [] \<and> fully_replicated three_ranges"
  by (simp add: fully_replicated_def three_ranges_def file_range_def)

lemma three_ranges_assignment:
  "ComputeScanRangeAssignment True 3 three_ranges (params_of_hosts [host_x, host_y]) [] =
   Inr [(host_x, [(3, [file_params 100, file_params 100])]), (host_y, [(3, [file_params 100])])]"
  by code_simp

theorem ComputeScanRangeAssignment_spec_witness:
  "list_all (\<lambda>r. locations r \<noteq> []) three_ranges \<and>
   hosts_known (params_of_hosts [host_x, host_y]) three_ranges \<and>
   list_all (\<lambda>n. 0 \<le> n) (range_lengths three_ranges) \<and>
   sum_list (range_lengths three_ranges) < INT64_MAX \<and>
   ComputeScanRangeAssignment True 3 three_ranges (params_of_hosts [host_x, host_y]) [] =
     Inr [(host_x, [(3, [file_params 100, file_params 100])]), (host_y, [(3, [file_params 100])])] \<and>
   emitted [(host_x, [(3, [file_params 100, file_params 100])]), (host_y, [(3, [file_params 100])])] 3 =
     mset (map snd (spec_assignment (params_of_hosts [host_x, host_y]) (\<lambda>h. 0) three_ranges))"
  using ComputeScanRangeAssignment_spec [OF three_ranges_locations three_ranges_hosts_known
      three_ranges_nonneg three_ranges_sum, of True 3 "[]"]
    three_ranges_locations three_ranges_hosts_known three_ranges_nonneg three_ranges_sum
  by (auto simp: three_ranges_assignment emitted_def)

lemma spec_assigned_bytes_balanced:
  assumes "\<forall>r\<in>set locs. locations r \<noteq> [] \<and> server ` set (locations r) = H"
    and "\<forall>n\<in>set (range_lengths locs). 0 \<le> n \<and> n \<le> L"
    and "\<forall>h\<in>H. \<forall>h'\<in>H. f h - f h' \<le> L"
    and "0 \<le> L"
  shows "\<forall>h\<in>H. \<forall>h'\<in>H. spec_assigned_bytes f locs h - spec_assigned_bytes f locs h' \<le> L"
  using assms
proof (induction locs arbitrary: f)
  case Nil
  then show ?case by simp
next
  case (Cons r rs)
  define n where "n = GetScanRangeLength (scan_range r)"
  from Cons.prems(1) have ne: "locations r \<noteq> []" and H: "server ` set (locations r) = H" by simp_all
  from least_loaded_Some [OF ne] obtain l where l: "least_loaded f (locations r) = Some l" by blast
  from least_loaded_SomeD [OF l] H have lH: "server l \<in> H" and lmin: "\<forall>h\<in>H. f (server l) \<le> f h"
    by auto
  from Cons.prems(2) have n: "0 \<le> n" "n \<le> L" by (simp_all add: range_lengths_def n_def)
  have step: "\<forall>h\<in>H. \<forall>h'\<in>H. (f(server l := f (server l) + n)) h - (f(server l := f (server l) + n)) h' \<le> L"
    using Cons.prems(3) lmin n Cons.prems(4) by (auto) (smt (verit))+
  have "\<forall>h\<in>H. \<forall>h'\<in>H. spec_assigned_bytes (f(server l := f (server l) + n)) rs h
          - spec_assigned_bytes (f(server l := f (server l) + n)) rs h' \<le> L"
    using Cons.prems by (intro Cons.IH step) (simp_all add: range_lengths_def)
  with l show ?case by (simp add: n_def)
qed

text \<open>
  C4, as stated: for every input, the largest minus the smallest of the assigned bytes is
  at most the largest range. It fails when the ranges are not on the same hosts: with two
  ranges of 100 bytes that only \<open>host_x\<close> holds and one of 10 bytes that only \<open>host_y\<close>
  holds, the hosts end with 200 and 10 bytes.
\<close>

theorem assigned_bytes_imbalance_counterexample:
  "map_sum id fst (assign_ranges True 3 (params_of_hosts [host_x]) skewed_ranges [] []) =
     Inr [(host_x, 200), (host_y, 10)] \<and>
   max_range_size skewed_ranges = 100 \<and>
   \<not> imbalance [(host_x, 200), (host_y, 10)] \<le> max_range_size skewed_ranges"
  by code_simp

text \<open>
  C4, amended: when every range has a replica on every data host (and the input is one
  the function is written for), the loop returns and the largest minus the smallest of the
  assigned bytes is at most the largest range.
\<close>

theorem assigned_bytes_imbalance:
  assumes "locs \<noteq> []"
    and "list_all (\<lambda>r. locations r \<noteq> []) locs"
    and "fully_replicated locs"
    and "hosts_known params locs"
    and "list_all (\<lambda>n. 0 \<le> n) (range_lengths locs)"
    and "sum_list (range_lengths locs) < INT64_MAX"
  shows "\<exists>abph assignment'.
      assign_ranges dchecks node params locs [] assignment = Inr (abph, assignment') \<and>
      imbalance abph \<le> max_range_size locs"
proof -
  define H where "H = server ` set (locations (hd locs))"
  define L where "L = max_range_size locs"
  have z: "assigned_bytes [] = (\<lambda>h. 0)"
    by (simp add: assigned_bytes_def fun_eq_iff)
  have b0: "\<And>h. 0 \<le> assigned_bytes [] h \<and> assigned_bytes [] h + sum_list (range_lengths locs) < INT64_MAX"
    using assms(6) by (simp add: z)
  from assign_ranges_sim [OF assms(2) assms(4) assms(5) b0, of dchecks node assignment]
  obtain abph where run: "assign_ranges dchecks node params locs [] assignment =
      Inr (abph, foldl (\<lambda>a (e, p). push_scan_range a e node p) assignment
                   (spec_assignment params (assigned_bytes []) locs))"
    and bytes: "assigned_bytes abph = spec_assigned_bytes (\<lambda>h. 0) locs"
    and keys: "fst ` set abph = (\<Union>r\<in>set locs. server ` set (locations r))"
    and dist: "distinct (map fst abph)"
    by (auto simp: z)
  have rH: "\<forall>r\<in>set locs. locations r \<noteq> [] \<and> server ` set (locations r) = H"
    using assms(2,3) by (auto simp: fully_replicated_def list_all_iff H_def)
  have hd_in: "hd locs \<in> set locs" using assms(1) by simp
  with rH have Hne: "H \<noteq> {}" by force
  have kH: "fst ` set abph = H"
    using keys rH hd_in by auto
  have lens: "range_lengths locs \<noteq> []" using assms(1) by (simp add: range_lengths_def)
  have Lmax: "\<forall>n\<in>set (range_lengths locs). 0 \<le> n \<and> n \<le> L"
    using assms(5) by (auto simp: L_def max_range_size_def list_all_iff)
  with lens have L0: "0 \<le> L"
    by (cases "range_lengths locs") (auto intro: order_trans)
  have init: "\<forall>h\<in>H. \<forall>h'\<in>H. (\<lambda>h. 0::int) h - (\<lambda>h. 0) h' \<le> L"
    using L0 by simp
  have bal: "\<forall>h\<in>H. \<forall>h'\<in>H. assigned_bytes abph h - assigned_bytes abph h' \<le> L"
    unfolding bytes by (rule spec_assigned_bytes_balanced [OF rH Lmax init L0])
  have val: "\<And>h b. (h, b) \<in> set abph \<Longrightarrow> h \<in> H \<and> assigned_bytes abph h = b"
    using dist kH by (auto simp: assigned_bytes_def intro: rev_image_eqI)
  have ne: "set (map snd abph) \<noteq> {}" using kH Hne by auto
  have "Max (set (map snd abph)) \<in> set (map snd abph)" using ne by (intro Max_in) auto
  then obtain h b where mx: "(h, b) \<in> set abph" "b = Max (set (map snd abph))" by auto
  have "Min (set (map snd abph)) \<in> set (map snd abph)" using ne by (intro Min_in) auto
  then obtain h' b' where mn: "(h', b') \<in> set abph" "b' = Min (set (map snd abph))" by auto
  from val [OF mx(1)] val [OF mn(1)] bal have "b - b' \<le> L" by auto
  with run mx mn show ?thesis
    by (auto simp: imbalance_def L_def)
qed

lemma three_ranges_bytes:
  "map_sum id fst (assign_ranges True 3 (params_of_hosts [host_x, host_y]) three_ranges [] []) =
   Inr [(host_x, 200), (host_y, 100)]"
  by code_simp

theorem assigned_bytes_imbalance_witness:
  "three_ranges \<noteq> [] \<and> list_all (\<lambda>r. locations r \<noteq> []) three_ranges \<and>
   fully_replicated three_ranges \<and>
   hosts_known (params_of_hosts [host_x, host_y]) three_ranges \<and>
   list_all (\<lambda>n. 0 \<le> n) (range_lengths three_ranges) \<and>
   sum_list (range_lengths three_ranges) < INT64_MAX \<and>
   map_sum id fst (assign_ranges True 3 (params_of_hosts [host_x, host_y]) three_ranges [] []) =
     Inr [(host_x, 200), (host_y, 100)] \<and>
   imbalance [(host_x, 200), (host_y, 100)] \<le> max_range_size three_ranges"
  using assigned_bytes_imbalance [OF conjunct1 [OF three_ranges_replicated] three_ranges_locations
      conjunct2 [OF three_ranges_replicated] three_ranges_hosts_known three_ranges_nonneg
      three_ranges_sum, of True 3 "[]"]
    three_ranges_replicated three_ranges_locations three_ranges_hosts_known three_ranges_nonneg
    three_ranges_sum three_ranges_bytes
  by auto

subsection \<open>Status reports\<close>

lemma ok_AddErrorMsg [simp]: "\<not> ok (AddErrorMsg st m)"
  by (cases st) auto

lemma ok_AddError [simp]: "ok (AddError st st') = (ok st \<and> ok st')"
  by (cases st; cases st') auto

lemma ok_Status_CANCELLED [simp]: "\<not> ok Status_CANCELLED"
  by (simp add: Status_CANCELLED_def)

lemma ok_Status_msg [simp]: "\<not> ok (Status_msg m)"
  by (simp add: Status_msg_def)

text \<open>
  C1. Once the status of a backend state is not OK it stays so under any sequence of
  \<^verbatim>\<open>UpdateFragmentExecStatus\<close>. The code asserts it (line 842) and then stores the reported
  status whatever it is (line 847). After \<^verbatim>\<open>Cancel\<close> has set the status of a running
  instance to \<^verbatim>\<open>CANCELLED\<close>, a periodic report of that instance with status OK puts the
  status back to OK in the build without assertions, and aborts the process in the build
  with assertions; the same on the state alone, with any error status.
\<close>

theorem UpdateFragmentExecStatus_error_to_OK:
  "map_sum id (\<lambda>s. map (map_option status) (backend_exec_states s))
     (Cancel False quiet_ops running_query) = Inr [Some Status_CANCELLED] \<and>
   (case Cancel False quiet_ops running_query of
      Inl f \<Rightarrow> Inl f
    | Inr s \<Rightarrow> map_sum id (\<lambda>r. map (map_option status) (backend_exec_states (snd r)))
                 (UpdateFragmentExecStatus False quiet_ops progress_report s)) =
     Inr [Some Status_OK] \<and>
   (case Cancel True quiet_ops running_query of
      Inl f \<Rightarrow> Inl f
    | Inr s \<Rightarrow> map_sum id (\<lambda>r. map (map_option status) (backend_exec_states (snd r)))
                 (UpdateFragmentExecStatus True quiet_ops progress_report s)) =
     Inl DCheckFailure \<and>
   map_sum id (\<lambda>r. status (fst r))
     (update_exec_state False progress_report
        ((running_backend 0)\<lparr>status := Status_msg ''remote error''\<rparr>)) = Inr Status_OK"
  by code_simp

subsection \<open>Cancellation\<close>

lemma cancel_trace_backend: "e \<in> set (cancel_trace i client r1 reopened r2) \<Longrightarrow> event_backend e = i"
  by (auto simp: cancel_trace_def split: if_splits rpc_reply.splits)

lemma cancel_trace_counts:
  "cancel_calls_to j (cancel_trace i client r1 reopened r2) \<le> (if j = i then 2 else 0)"
  "cancel_replies_of j (cancel_trace i client r1 reopened r2) \<le> (if j = i then 1 else 0)"
  by (cases r1; cases r2; auto simp: cancel_trace_def cancel_calls_to_def cancel_replies_of_def)+

lemma AddErrorMsg_CANCELLED:
  "AddErrorMsg (Status_Error CANCELLED (''Cancelled'' # errs)) m = Status_Error CANCELLED (''Cancelled'' # errs @ [m])"
  by simp

lemma AddError_CANCELLED:
  "\<exists>errs2. AddError (Status_Error CANCELLED (''Cancelled'' # errs)) st = Status_Error CANCELLED (''Cancelled'' # errs2)"
  by (cases st) auto

lemma send_cancel_exact:
  assumes "send_cancel ops qid i es wl = (es', w', log')"
    and "status es = Status_CANCELLED"
  shows "\<exists>errs client r1 reopened r2.
           es' = es\<lparr>status := Status_Error CANCELLED (''Cancelled'' # errs)\<rparr> \<and>
           log' = snd wl @ cancel_trace i client r1 reopened r2"
proof -
  obtain client w1 where g: "GetClient ops (hostport es) (fst wl) = (client, w1)" by force
  obtain r1 w2 where c1: "CancelPlanFragment ops (hostport es) (fragment_instance_id es) w1 = (r1, w2)"
    by force
  obtain reopened w3 where ro: "ReopenClient ops (hostport es) w2 = (reopened, w3)" by force
  obtain r2 w4 where c2: "CancelPlanFragment ops (hostport es) (fragment_instance_id es) w3 = (r2, w4)"
    by force
  have es: "es = es\<lparr>status := Status_Error CANCELLED [''Cancelled'']\<rparr>"
    using assms(2) by (simp add: Status_CANCELLED_def)
  define errs where "errs =
    (if \<not> ok client then []
     else case r1 of
       Reply res \<Rightarrow> if status_code res \<noteq> OK then [join (error_msgs res) ''; ''] else []
     | TTransportException e \<Rightarrow>
         if \<not> ok reopened then (case reopened of Status_Error c msgs \<Rightarrow> msgs | Status_OK \<Rightarrow> [])
         else case r2 of
           Reply res \<Rightarrow> if status_code res \<noteq> OK then [join (error_msgs res) ''; ''] else []
         | TTransportException e2 \<Rightarrow>
             [''CancelPlanFragment rpc query_id='' @ PrintId ops qid @ '' instance_id='' @
              PrintId ops (fragment_instance_id es) @ '' failed: '' @ e2])"
  have "es' = es\<lparr>status := Status_Error CANCELLED (''Cancelled'' # errs)\<rparr> \<and>
        log' = snd wl @ cancel_trace i client r1 reopened r2"
    using assms(1) g c1 ro c2 assms(2)
    by (cases reopened)
      (auto simp: send_cancel_def cancel_replied_def cancel_trace_def errs_def Let_def
        Status_CANCELLED_def split: rpc_reply.splits if_splits)
  then show ?thesis by blast
qed

lemma cancel_backend_exact:
  assumes "cancel_backend ops qid i es wl = (es', w', log')"
  shows "\<exists>st' new. es' = es\<lparr>status := st'\<rparr> \<and> log' = snd wl @ new \<and> cancel_effect i es st' new"
proof (cases "ok (status es) \<and> initiated es \<and> \<not> is_done es")
  case True
  with assms have sc: "send_cancel ops qid i (es\<lparr>status := Status_CANCELLED\<rparr>) wl = (es', w', log')"
    by (simp add: cancel_backend_def)
  from send_cancel_exact [OF sc] obtain errs client r1 reopened r2 where
    "es' = es\<lparr>status := Status_Error CANCELLED (''Cancelled'' # errs)\<rparr>"
    "log' = snd wl @ cancel_trace i client r1 reopened r2"
    by auto
  with True show ?thesis by (intro exI conjI) (simp, simp, auto)
next
  case False
  with assms show ?thesis
    by (cases wl) (auto simp: cancel_backend_def Let_def split: if_splits)
qed

lemma calls_for_append [simp]: "calls_for j (a @ b) = calls_for j a @ calls_for j b"
  by (simp add: calls_for_def)

lemma calls_for_Nil [simp]: "calls_for j [] = []"
  by (simp add: calls_for_def)

lemma calls_for_same:
  "\<forall>e\<in>set new. event_backend e = i \<Longrightarrow> calls_for j new = (if j = i then new else [])"
  by (induction new) (auto simp: calls_for_def)

lemma calls_for_none: "\<forall>e\<in>set new. event_backend e \<noteq> j \<Longrightarrow> calls_for j new = []"
  by (induction new) (auto simp: calls_for_def)

lemma cancel_effect_backend:
  "cancel_effect i es st' new \<Longrightarrow> \<forall>e\<in>set new. event_backend e = i"
  by (auto split: if_splits dest: cancel_trace_backend)

lemma cancel_loop_exact:
  assumes "None \<notin> set states"
  shows "\<exists>states' w' new.
      cancel_loop ops qid i states wl = Inr (states', w', snd wl @ new) \<and>
      length states' = length states \<and>
      (\<forall>e\<in>set new. i \<le> event_backend e \<and> event_backend e < i + length states) \<and>
      (\<forall>k es. k < length states \<and> states ! k = Some es \<longrightarrow>
         (\<exists>st'. states' ! k = Some (es\<lparr>status := st'\<rparr>) \<and>
                cancel_effect (i + k) es st' (calls_for (i + k) new)))"
  using assms
proof (induction states arbitrary: i wl)
  case Nil
  show ?case by (cases wl) (simp add: exI [of _ "[]"])
next
  case (Cons x rest)
  from Cons.prems obtain es where x: "x = Some es" and nn: "None \<notin> set rest"
    by (cases x) auto
  obtain es1 w1 log1 where cb: "cancel_backend ops qid i es wl = (es1, w1, log1)"
    by (metis prod_cases3)
  from cancel_backend_exact [OF cb] obtain st1 new1 where
    e1: "es1 = es\<lparr>status := st1\<rparr>" and l1: "log1 = snd wl @ new1"
    and eff1: "cancel_effect i es st1 new1" by blast
  have b1: "\<forall>e\<in>set new1. event_backend e = i"
    using eff1 by (rule cancel_effect_backend)
  from Cons.IH [OF nn, of "i + 1" "(w1, log1)"] obtain states' w' new2 where
    run: "cancel_loop ops qid (i + 1) rest (w1, log1) = Inr (states', w', log1 @ new2)"
    and len: "length states' = length rest"
    and b2: "\<forall>e\<in>set new2. i + 1 \<le> event_backend e \<and> event_backend e < i + 1 + length rest"
    and eff2: "\<forall>k es. k < length rest \<and> rest ! k = Some es \<longrightarrow>
         (\<exists>st'. states' ! k = Some (es\<lparr>status := st'\<rparr>) \<and>
                cancel_effect (i + 1 + k) es st' (calls_for (i + 1 + k) new2))"
    by (simp del: cancel_loop.simps) blast
  have eq: "cancel_loop ops qid i (x # rest) wl = Inr (Some es1 # states', w', snd wl @ new1 @ new2)"
    using cb run by (simp add: x l1)
  have c0: "calls_for i (new1 @ new2) = new1"
  proof -
    have "calls_for i new2 = []" using b2 by (intro calls_for_none) auto
    then show ?thesis using calls_for_same [OF b1, of i] by simp
  qed
  have cS: "calls_for (i + Suc k) (new1 @ new2) = calls_for (i + 1 + k) new2" for k
    using calls_for_same [OF b1, of "i + Suc k"] by simp
  have bounds: "\<forall>e\<in>set (new1 @ new2). i \<le> event_backend e \<and> event_backend e < i + length (x # rest)"
    using b1 b2 by auto
  have eff: "\<exists>st'. (Some es1 # states') ! k = Some (es'\<lparr>status := st'\<rparr>) \<and>
                cancel_effect (i + k) es' st' (calls_for (i + k) (new1 @ new2))"
    if "k < length (x # rest)" "(x # rest) ! k = Some es'" for k es'
  proof (cases k)
    case 0
    with that x have es: "es' = es" by simp
    have "(Some es1 # states') ! k = Some (es'\<lparr>status := st1\<rparr>)"
      using 0 e1 es by simp
    moreover have "cancel_effect (i + k) es' st1 (calls_for (i + k) (new1 @ new2))"
      unfolding 0 es add_0_right c0 by (rule eff1)
    ultimately show ?thesis by blast
  next
    case (Suc k')
    with that have "k' < length rest" "rest ! k' = Some es'" by simp_all
    with eff2 obtain st' where st: "states' ! k' = Some (es'\<lparr>status := st'\<rparr>)"
      and eff': "cancel_effect (i + 1 + k') es' st' (calls_for (i + 1 + k') new2)" by blast
    have "(Some es1 # states') ! k = Some (es'\<lparr>status := st'\<rparr>)"
      using Suc st by simp
    moreover have "cancel_effect (i + k) es' st' (calls_for (i + k) (new1 @ new2))"
      unfolding Suc cS using eff' by (simp only: add_Suc_right add_Suc add_0_right One_nat_def)
    ultimately show ?thesis by blast
  qed
  show ?case
    apply (rule exI [of _ "Some es1 # states'"], rule exI [of _ w'], rule exI [of _ "new1 @ new2"])
    using eq len bounds eff by (simp del: cancel_loop.simps)
qed

lemma ReportQuerySummary_nonnull:
  "None \<notin> set (backend_exec_states s) \<Longrightarrow>
   \<exists>s'. ReportQuerySummary s = Inr s' \<and> s'\<lparr>summaries := summaries s\<rparr> = s"
  by (auto simp: ReportQuerySummary_def list_ex_iff)

lemma CancelInternal_exact:
  assumes nn: "None \<notin> set (backend_exec_states s)" and nok: "\<not> ok (query_status s)"
  shows "\<exists>s' new.
      CancelInternal dchecks ops s = Inr s' \<and>
      query_status s' = query_status s \<and>
      rpc_log s' = rpc_log s @ new \<and>
      length (backend_exec_states s') = length (backend_exec_states s) \<and>
      (\<forall>e\<in>set new. event_backend e < length (backend_exec_states s)) \<and>
      (\<forall>k es. k < length (backend_exec_states s) \<and> backend_exec_states s ! k = Some es \<longrightarrow>
         (\<exists>st'. backend_exec_states s' ! k = Some (es\<lparr>status := st'\<rparr>) \<and>
                cancel_effect k es st' (calls_for k new)))"
proof -
  from cancel_loop_exact [OF nn, of ops "query_id s" 0 "(rpc_world s, rpc_log s)",
      unfolded add_0 snd_conv]
  obtain states' w' new where
    run: "cancel_loop ops (query_id s) 0 (backend_exec_states s) (rpc_world s, rpc_log s) =
            Inr (states', w', rpc_log s @ new)"
    and len: "length states' = length (backend_exec_states s)"
    and bd0: "\<forall>e\<in>set new. 0 \<le> event_backend e \<and> event_backend e < length (backend_exec_states s)"
    and eff: "\<forall>k es. k < length (backend_exec_states s) \<and> backend_exec_states s ! k = Some es \<longrightarrow>
         (\<exists>st'. states' ! k = Some (es\<lparr>status := st'\<rparr>) \<and>
                cancel_effect k es st' (calls_for k new))"
    by (elim exE conjE) (rule that)
  from bd0 have bd: "\<forall>e\<in>set new. event_backend e < length (backend_exec_states s)" by simp
  define s1 where "s1 = s\<lparr>executor := map_option (\<lambda>ex. ex\<lparr>cancel_calls := cancel_calls ex + 1\<rparr>) (executor s),
      backend_exec_states := states', rpc_world := w', rpc_log := rpc_log s @ new,
      notifications := notifications s + 1\<rparr>"
  have nn1: "None \<notin> set (backend_exec_states s1)"
  proof
    assume "None \<in> set (backend_exec_states s1)"
    then obtain k where k: "k < length states'" "states' ! k = None"
      by (auto simp: s1_def in_set_conv_nth)
    with len nn obtain es where es: "backend_exec_states s ! k = Some es"
      by (cases "backend_exec_states s ! k") (auto simp: in_set_conv_nth)
    from k len have "k < length (backend_exec_states s)" by simp
    with eff es obtain st' where "states' ! k = Some (es\<lparr>status := st'\<rparr>)" by blast
    with k show False by simp
  qed
  from ReportQuerySummary_nonnull [OF nn1] obtain s' where
    rq: "ReportQuerySummary s1 = Inr s'" and s': "s'\<lparr>summaries := summaries s1\<rparr> = s1" by blast
  have f: "query_status s' = query_status s1" "rpc_log s' = rpc_log s1"
    "backend_exec_states s' = backend_exec_states s1"
    using arg_cong [OF s', of query_status] arg_cong [OF s', of rpc_log]
      arg_cong [OF s', of backend_exec_states] by simp_all
  have ci: "CancelInternal dchecks ops s = Inr s'"
    using nok run rq by (simp add: CancelInternal_def DCHECK_def Let_def s1_def del: cancel_loop.simps)
  show ?thesis
    apply (rule exI [of _ s'], rule exI [of _ new])
    using ci f len bd eff by (simp add: s1_def)
qed

lemma cancel_calls_to_calls_for: "cancel_calls_to i (calls_for i log) = cancel_calls_to i log"
proof -
  have "is_cancel_call i e \<Longrightarrow> event_backend e = i" for e by (cases e) auto
  then have "filter (is_cancel_call i) (filter (\<lambda>e. event_backend e = i) log) =
      filter (is_cancel_call i) log"
    by (induction log) auto
  then show ?thesis by (simp add: cancel_calls_to_def calls_for_def)
qed

lemma cancel_replies_of_calls_for: "cancel_replies_of i (calls_for i log) = cancel_replies_of i log"
proof -
  have "is_cancel_reply i e \<Longrightarrow> event_backend e = i" for e
    by (auto elim!: is_cancel_reply.elims(2))
  then have "filter (is_cancel_reply i) (filter (\<lambda>e. event_backend e = i) log) =
      filter (is_cancel_reply i) log"
    by (induction log) auto
  then show ?thesis by (simp add: cancel_replies_of_def calls_for_def)
qed

lemma cancel_counts_Nil [simp]: "cancel_calls_to j [] = 0" "cancel_replies_of j [] = 0"
  by (simp_all add: cancel_calls_to_def cancel_replies_of_def)

lemma cancel_effect_counts:
  assumes "cancel_effect i es st' new"
  shows "cancel_calls_to i new \<le> 2" "cancel_replies_of i new \<le> 1"
    "new \<noteq> [] \<Longrightarrow> to_cancel (Some es)"
  using assms cancel_trace_counts [of i i]
  by (auto simp: to_cancel_def cancel_calls_to_def cancel_replies_of_def split: if_splits)

text \<open>
  C5, as stated: at most one cancel RPC is sent per initiated, not-yet-done instance. When
  the first \<^verbatim>\<open>CancelPlanFragment\<close> call for an instance throws a transport exception, the
  code reopens the client and sends the call a second time (lines 790-800): one call of
  \<^verbatim>\<open>Cancel\<close> sends two cancel RPCs to the running instance.
\<close>

theorem Cancel_idempotent_counterexample:
  "to_cancel (backend_exec_states mixed_query ! 0) \<and>
   map_sum id (\<lambda>s. cancel_calls_to 0 (rpc_log s)) (Cancel True flaky_ops mixed_query) = Inr 2"
  by code_simp

text \<open>
  C5, amended. On a coordinator whose backend states all exist while the query status is
  OK (as after \<^verbatim>\<open>Exec\<close>), \<^verbatim>\<open>Cancel\<close> returns, and a second call, whatever the backends
  would answer, returns the same coordinator: query status, backend states and RPC log
  unchanged; so does any number of calls in a row. A call that finds the query status not
  OK changes nothing. The call that finds it OK sets it to \<^verbatim>\<open>CANCELLED\<close> and runs the
  internal path, which changes of every instance only the status: an instance whose
  status is not OK is left as it is and no call is made for it; every other instance gets
  the status \<^verbatim>\<open>CANCELLED\<close>; for one that is not initiated or is done no call is made; for
  one that is initiated and not done exactly the calls of \<open>cancel_trace\<close> are made: one
  \<^verbatim>\<open>CancelPlanFragment\<close> (none when no client could be got), and a second one only after a
  transport exception of the first and a reopened client. So every instance gets at most
  two cancel RPCs, of which at most one is answered, and only instances that were to be
  cancelled get any.
\<close>

theorem Cancel_idempotent:
  assumes "ok (query_status s) \<Longrightarrow> None \<notin> set (backend_exec_states s)"
  shows "\<exists>s1 new.
      Cancel dchecks ops s = Inr s1 \<and>
      Cancel dchecks' ops' s1 = Inr s1 \<and>
      Cancel_times (Suc n) dchecks ops s = Inr s1 \<and>
      query_status s1 = (if ok (query_status s) then Status_CANCELLED else query_status s) \<and>
      (\<not> ok (query_status s) \<longrightarrow> s1 = s) \<and>
      rpc_log s1 = rpc_log s @ new \<and>
      length (backend_exec_states s1) = length (backend_exec_states s) \<and>
      (ok (query_status s) \<longrightarrow>
         (\<forall>i es. i < length (backend_exec_states s) \<and> backend_exec_states s ! i = Some es \<longrightarrow>
            (\<exists>st'. backend_exec_states s1 ! i = Some (es\<lparr>status := st'\<rparr>) \<and>
               (if \<not> ok (status es) then st' = status es \<and> calls_for i new = []
                else if \<not> (initiated es \<and> \<not> is_done es)
                then st' = Status_CANCELLED \<and> calls_for i new = []
                else (\<exists>errs client r1 reopened r2.
                        st' = Status_Error CANCELLED (''Cancelled'' # errs) \<and>
                        calls_for i new = cancel_trace i client r1 reopened r2))))) \<and>
      (\<forall>i. cancel_replies_of i new \<le> 1 \<and> cancel_calls_to i new \<le> 2) \<and>
      (\<forall>i r. CancelPlanFragment_call i r \<in> set new \<longrightarrow>
             ok (query_status s) \<and> i < length (backend_exec_states s) \<and>
             to_cancel (backend_exec_states s ! i))"
proof -
  have again: "Cancel_times m dchecks ops t = Inr t" if "\<not> ok (query_status t)" for m t
    using that by (induction m) (simp_all add: Cancel_def)
  show ?thesis
  proof (cases "ok (query_status s)")
    case False
    then show ?thesis
      by (intro exI [of _ s] exI [of _ "[]"]) (simp add: Cancel_def again)
  next
    case True
    define s0 where "s0 = s\<lparr>query_status := Status_CANCELLED\<rparr>"
    have nn: "None \<notin> set (backend_exec_states s0)" using assms True by (simp add: s0_def)
    have nok: "\<not> ok (query_status s0)" by (simp add: s0_def)
    from CancelInternal_exact [OF nn nok, of dchecks ops] obtain s1 new where
      ci: "CancelInternal dchecks ops s0 = Inr s1"
      and q: "query_status s1 = Status_CANCELLED"
      and lg: "rpc_log s1 = rpc_log s @ new"
      and len: "length (backend_exec_states s1) = length (backend_exec_states s)"
      and bd: "\<forall>e\<in>set new. event_backend e < length (backend_exec_states s)"
      and eff: "\<forall>k es. k < length (backend_exec_states s) \<and> backend_exec_states s ! k = Some es \<longrightarrow>
         (\<exists>st'. backend_exec_states s1 ! k = Some (es\<lparr>status := st'\<rparr>) \<and>
                cancel_effect k es st' (calls_for k new))"
      by (auto simp: s0_def)
    have c: "Cancel dchecks ops s = Inr s1" using ci True by (simp add: Cancel_def s0_def)
    have nok1: "\<not> ok (query_status s1)" using q by simp
    have c2: "Cancel dchecks' ops' s1 = Inr s1" using nok1 by (simp add: Cancel_def)
    have ct: "Cancel_times (Suc n) dchecks ops s = Inr s1" using c again [OF nok1] by simp
    have per: "cancel_replies_of i new \<le> 1 \<and> cancel_calls_to i new \<le> 2 \<and>
        (calls_for i new \<noteq> [] \<longrightarrow> i < length (backend_exec_states s) \<and>
           to_cancel (backend_exec_states s ! i))" for i
    proof (cases "i < length (backend_exec_states s)")
      case False
      then have "calls_for i new = []" using bd by (intro calls_for_none) auto
      then show ?thesis
        using cancel_calls_to_calls_for [of i new] cancel_replies_of_calls_for [of i new] by simp
    next
      case lt: True
      with nn obtain es where es: "backend_exec_states s ! i = Some es"
        by (cases "backend_exec_states s ! i") (auto simp: s0_def in_set_conv_nth)
      with eff lt obtain st' where e: "cancel_effect i es st' (calls_for i new)" by blast
      from cancel_effect_counts [OF e] lt es show ?thesis
        using cancel_calls_to_calls_for [of i new] cancel_replies_of_calls_for [of i new] by simp
    qed
    have only: "ok (query_status s) \<and> i < length (backend_exec_states s) \<and>
        to_cancel (backend_exec_states s ! i)" if "CancelPlanFragment_call i r \<in> set new" for i r
    proof -
      from that have "CancelPlanFragment_call i r \<in> set (calls_for i new)"
        by (simp add: calls_for_def)
      then have "calls_for i new \<noteq> []" by auto
      with per [of i] True show ?thesis by simp
    qed
    show ?thesis
      apply (rule exI [of _ s1], rule exI [of _ new])
      apply (intro conjI)
      subgoal by (rule c)
      subgoal by (rule c2)
      subgoal by (rule ct)
      subgoal using q True by simp
      subgoal using True by simp
      subgoal by (rule lg)
      subgoal by (rule len)
      subgoal using eff by blast
      subgoal using per by blast
      subgoal using only by blast
      done
  qed
qed

lemma mixed_query_cancelled:
  "map_sum id (\<lambda>s. (query_status s, map (map_option status) (backend_exec_states s), rpc_log s))
     (Cancel True flaky_ops mixed_query) =
   Inr (Status_CANCELLED,
        [Some Status_CANCELLED, Some Status_CANCELLED, Some Status_CANCELLED,
         Some (Status_msg ''remote error'')],
        [GetClient_call 0 Status_OK, CancelPlanFragment_call 0 (TTransportException ''reset''),
         ReopenClient_call 0 Status_OK, CancelPlanFragment_call 0 (Reply ok_tstatus),
         ReleaseClient_call 0])"
  by code_simp

theorem Cancel_idempotent_witness:
  "None \<notin> set (backend_exec_states mixed_query) \<and>
   Cancel_times (Suc 2) True flaky_ops mixed_query = Cancel True flaky_ops mixed_query \<and>
   (\<exists>s1. Cancel True flaky_ops mixed_query = Inr s1 \<and> Cancel False flaky_ops s1 = Inr s1) \<and>
   map_sum id (\<lambda>s. (query_status s, map (map_option status) (backend_exec_states s), rpc_log s))
     (Cancel True flaky_ops mixed_query) =
   Inr (Status_CANCELLED,
        [Some Status_CANCELLED, Some Status_CANCELLED, Some Status_CANCELLED,
         Some (Status_msg ''remote error'')],
        [GetClient_call 0 Status_OK, CancelPlanFragment_call 0 (TTransportException ''reset''),
         ReopenClient_call 0 Status_OK, CancelPlanFragment_call 0 (Reply ok_tstatus),
         ReleaseClient_call 0])"
proof -
  have nn: "None \<notin> set (backend_exec_states mixed_query)"
    by (simp add: mixed_query_def coordinator0_def)
  from Cancel_idempotent [where s = mixed_query and dchecks = True and ops = flaky_ops and n = 2
      and dchecks' = False and ops' = flaky_ops] nn
  obtain s1 where "Cancel True flaky_ops mixed_query = Inr s1" "Cancel False flaky_ops s1 = Inr s1"
    "Cancel_times (Suc 2) True flaky_ops mixed_query = Inr s1"
    by blast
  with nn mixed_query_cancelled show ?thesis by simp
qed

subsection \<open>Dispatch\<close>

lemma ExecRemoteFragment_props:
  assumes "ExecRemoteFragment ops qid i es wl = (st, es', w', log')"
  shows "is_done es' = is_done es" "\<not> initiated es \<Longrightarrow> initiated es' = ok st"
    "ok st \<Longrightarrow> ok (status es')"
  using assms
  by (auto simp: ExecRemoteFragment_def exec_replied_def Let_def
      split: prod.splits rpc_reply.splits if_splits)

lemma dispatch_each_length:
  "dispatch_each ops qid i ess wl = (rs, wl') \<Longrightarrow> length rs = length ess"
  by (induction ess arbitrary: i wl rs) (auto split: prod.splits)

lemma dispatch_each_props:
  assumes "dispatch_each ops qid i ess wl = (rs, wl')"
    and "\<forall>es\<in>set ess. \<not> initiated es \<and> \<not> is_done es"
    and "k < length rs"
  shows "\<not> is_done (snd (rs ! k)) \<and> initiated (snd (rs ! k)) = ok (fst (rs ! k)) \<and>
         (ok (fst (rs ! k)) \<longrightarrow> ok (status (snd (rs ! k))))"
  using assms
proof (induction ess arbitrary: i wl rs k wl')
  case Nil
  then show ?case by simp
next
  case (Cons es rest)
  obtain st es' wl1 where er: "ExecRemoteFragment ops qid i es wl = (st, es', wl1)"
    by (metis prod_cases3)
  obtain rs2 wl2 where de: "dispatch_each ops qid (i + 1) rest wl1 = (rs2, wl2)"
    by (metis surj_pair)
  from Cons.prems(1) er de have rs: "rs = (st, es') # rs2" by simp
  obtain w1 l1 where wl1: "wl1 = (w1, l1)" by force
  note p = ExecRemoteFragment_props [OF er [unfolded wl1]]
  show ?case
  proof (cases k)
    case 0
    with rs p Cons.prems(2) show ?thesis by simp
  next
    case (Suc k')
    with Cons.prems(3) rs have "k' < length rs2" by simp
    from Cons.IH [OF de _ this] Cons.prems(2) Suc rs show ?thesis by simp
  qed
qed

lemma dispatch_each_append:
  "dispatch_each ops qid i (a @ b) wl =
     (case dispatch_each ops qid i a wl of
        (rs1, wl1) \<Rightarrow>
          (case dispatch_each ops qid (i + length a) b wl1 of
             (rs2, wl2) \<Rightarrow> (rs1 @ rs2, wl2)))"
  by (induction a arbitrary: i wl) (auto split: prod.splits)

lemma first_error_simps [simp]:
  "first_error [] = Status_OK"
  "first_error (st # sts) = (if ok st then first_error sts else st)"
  by (simp_all add: first_error_def)

lemma ParallelExecutor_Exec_dispatch_each:
  "ParallelExecutor_Exec ops qid i (map Some ess) wl =
     (case dispatch_each ops qid i ess wl of
        (rs, wl') \<Rightarrow> Inr (first_error (map fst rs), map (\<lambda>r. Some (snd r)) rs, wl'))"
  by (induction ess arbitrary: i wl) (auto split: prod.splits)

lemma first_error_all_ok: "\<forall>st\<in>set sts. ok st \<Longrightarrow> first_error sts = Status_OK"
  by (induction sts) auto

lemma first_error_nth:
  "j < length sts \<Longrightarrow> \<not> ok (sts ! j) \<Longrightarrow> \<forall>k<j. ok (sts ! k) \<Longrightarrow> first_error sts = sts ! j"
proof (induction sts arbitrary: j)
  case Nil
  then show ?case by simp
next
  case (Cons st sts)
  show ?case
  proof (cases j)
    case 0
    with Cons.prems show ?thesis by simp
  next
    case (Suc j')
    with Cons.prems have "ok st" by auto
    moreover have "first_error sts = sts ! j'"
      using Cons.prems Suc by (intro Cons.IH) auto
    ultimately show ?thesis using Suc by simp
  qed
qed

lemma planned_ranges_FindOrInsert:
  "snd (FindOrInsert m h []) = planned_ranges m h"
  "planned_ranges (fst (FindOrInsert m h [])) = planned_ranges m"
  by (auto simp: FindOrInsert_def planned_ranges_def map_of_map_set fun_eq_iff split: option.splits)

lemma planned_state_cong:
  "planned_ranges a' = planned_ranges a \<Longrightarrow> planned_state params a' b fi k = planned_state params a b fi k"
  by (simp add: planned_state_def)

lemma new_BackendExecState_exact:
  assumes "k < length (instance_ids params)" "k < length (hosts params)"
    and "fi < length (scan_range_assignment s)"
  shows "\<exists>a'. new_BackendExecState b fi params k s =
           Inr (planned_state params (scan_range_assignment s ! fi) b fi k,
                s\<lparr>scan_range_assignment := (scan_range_assignment s)[fi := a']\<rparr>) \<and>
           planned_ranges a' = planned_ranges (scan_range_assignment s ! fi)"
proof -
  obtain a' v where f: "FindOrInsert (scan_range_assignment s ! fi) (hosts params ! k) [] = (a', v)"
    by force
  from planned_ranges_FindOrInsert [of "scan_range_assignment s ! fi" "hosts params ! k"] f
  have "v = planned_ranges (scan_range_assignment s ! fi) (hosts params ! k)"
    "planned_ranges a' = planned_ranges (scan_range_assignment s ! fi)" by simp_all
  with assms f show ?thesis
    by (intro exI [of _ a']) (simp add: new_BackendExecState_def planned_state_def Let_def)
qed

lemma create_exec_states_exact:
  assumes "n \<le> length (instance_ids params)" "n \<le> length (hosts params)"
    and "fi < length (scan_range_assignment s)"
    and "b + n \<le> length (backend_exec_states s)"
  shows "\<exists>bes' a'.
      create_exec_states fi params [m..<n] (b + m) s =
        Inr (b + m + (n - m),
             s\<lparr>backend_exec_states := bes',
               scan_range_assignment := (scan_range_assignment s)[fi := a']\<rparr>) \<and>
      length bes' = length (backend_exec_states s) \<and>
      (\<forall>k. m \<le> k \<and> k < n \<longrightarrow>
         bes' ! (b + k) = Some (planned_state params (scan_range_assignment s ! fi) (b + k) fi k)) \<and>
      (\<forall>i. i < b + m \<or> b + n \<le> i \<longrightarrow> bes' ! i = backend_exec_states s ! i) \<and>
      planned_ranges a' = planned_ranges (scan_range_assignment s ! fi)"
  using assms
proof (induction "n - m" arbitrary: m s)
  case 0
  then have "[m..<n] = []" by simp
  then show ?case
    apply (intro exI [of _ "backend_exec_states s"] exI [of _ "scan_range_assignment s ! fi"])
    using 0 by auto
next
  case (Suc d)
  then have mn: "m < n" and up: "[m..<n] = m # [Suc m..<n]" by (auto simp: upt_conv_Cons)
  from new_BackendExecState_exact [of m params fi s "b + m"] mn Suc.prems
  obtain a1 where
    nb: "new_BackendExecState (b + m) fi params m s =
           Inr (planned_state params (scan_range_assignment s ! fi) (b + m) fi m,
                s\<lparr>scan_range_assignment := (scan_range_assignment s)[fi := a1]\<rparr>)"
    and pr1: "planned_ranges a1 = planned_ranges (scan_range_assignment s ! fi)"
    by auto
  define es where "es = planned_state params (scan_range_assignment s ! fi) (b + m) fi m"
  define s1 where "s1 = s\<lparr>scan_range_assignment := (scan_range_assignment s)[fi := a1],
      backend_exec_states := (backend_exec_states s)[b + m := Some es]\<rparr>"
  have d: "d = n - Suc m" using Suc.hyps(2) by simp
  have p1: "fi < length (scan_range_assignment s1)" "b + n \<le> length (backend_exec_states s1)"
    using Suc.prems by (simp_all add: s1_def)
  from Suc.hyps(1) [OF d Suc.prems(1,2) p1] obtain bes' a' where
    run: "create_exec_states fi params [Suc m..<n] (b + Suc m) s1 =
        Inr (b + Suc m + (n - Suc m),
             s1\<lparr>backend_exec_states := bes',
               scan_range_assignment := (scan_range_assignment s1)[fi := a']\<rparr>)"
    and len: "length bes' = length (backend_exec_states s1)"
    and mid: "\<forall>k. Suc m \<le> k \<and> k < n \<longrightarrow>
         bes' ! (b + k) = Some (planned_state params (scan_range_assignment s1 ! fi) (b + k) fi k)"
    and out: "\<forall>i. i < b + Suc m \<or> b + n \<le> i \<longrightarrow> bes' ! i = backend_exec_states s1 ! i"
    and pr: "planned_ranges a' = planned_ranges (scan_range_assignment s1 ! fi)"
    by blast
  have a1: "scan_range_assignment s1 ! fi = a1"
    using Suc.prems(3) by (simp add: s1_def)
  have lt: "b + m < length (backend_exec_states s)" using mn Suc.prems(4) by simp
  have eq: "create_exec_states fi params [m..<n] (b + m) s =
      Inr (b + m + (n - m),
           s\<lparr>backend_exec_states := bes',
             scan_range_assignment := (scan_range_assignment s)[fi := a']\<rparr>)"
  proof -
    have "b + Suc m + (n - Suc m) = b + m + (n - m)" using mn by simp
    moreover have "s1\<lparr>backend_exec_states := bes',
               scan_range_assignment := (scan_range_assignment s1)[fi := a']\<rparr> =
        s\<lparr>backend_exec_states := bes',
          scan_range_assignment := (scan_range_assignment s)[fi := a']\<rparr>"
      by (simp add: s1_def)
    ultimately show ?thesis
      using run nb lt unfolding up
      by (simp add: es_def [symmetric] s1_def [symmetric] del: create_exec_states.simps(2))
        (simp add: s1_def)
  qed
  have mid': "bes' ! (b + k) = Some (planned_state params (scan_range_assignment s ! fi) (b + k) fi k)"
    if "m \<le> k \<and> k < n" for k
  proof (cases "k = m")
    case True
    from out have "bes' ! (b + m) = backend_exec_states s1 ! (b + m)" by simp
    with True lt show ?thesis by (simp add: s1_def es_def)
  next
    case False
    with that have "Suc m \<le> k \<and> k < n" by simp
    with mid have "bes' ! (b + k) = Some (planned_state params (scan_range_assignment s1 ! fi) (b + k) fi k)"
      by blast
    with a1 planned_state_cong [OF pr1, of params "b + k" fi k] show ?thesis by simp
  qed
  have out': "bes' ! i = backend_exec_states s ! i" if "i < b + m \<or> b + n \<le> i" for i
  proof -
    from that mn have i: "i < b + Suc m \<or> b + n \<le> i" "i \<noteq> b + m" by auto
    with out have "bes' ! i = backend_exec_states s1 ! i" by blast
    with i(2) show ?thesis by (simp add: s1_def)
  qed
  have pr': "planned_ranges a' = planned_ranges (scan_range_assignment s ! fi)"
    using pr a1 pr1 by simp
  show ?case
    apply (rule exI [of _ bes'], rule exI [of _ a'])
    using eq len mid' out' pr' by (simp add: s1_def)
qed

lemma fragment_states_length [simp]:
  "length (fragment_states fi b s) = length (hosts (fragment_exec_params s ! fi))"
  by (simp add: fragment_states_def)

lemma create_fragment_states:
  assumes "length (hosts (fragment_exec_params s ! fi)) \<le> length (instance_ids (fragment_exec_params s ! fi))"
    and "fi < length (scan_range_assignment s)"
    and "b + length (hosts (fragment_exec_params s ! fi)) \<le> length (backend_exec_states s)"
  shows "\<exists>a'.
      create_exec_states fi (fragment_exec_params s ! fi)
          [0..<length (hosts (fragment_exec_params s ! fi))] b s =
        Inr (b + length (hosts (fragment_exec_params s ! fi)),
             s\<lparr>backend_exec_states :=
                 take b (backend_exec_states s) @ map Some (fragment_states fi b s) @
                 drop (b + length (hosts (fragment_exec_params s ! fi))) (backend_exec_states s),
               scan_range_assignment := (scan_range_assignment s)[fi := a']\<rparr>) \<and>
      planned_ranges a' = planned_ranges (scan_range_assignment s ! fi)"
proof -
  define n where "n = length (hosts (fragment_exec_params s ! fi))"
  define params where "params = fragment_exec_params s ! fi"
  from create_exec_states_exact [of n params fi s b 0] assms
  obtain bes' a' where
    run: "create_exec_states fi params [0..<n] b s =
        Inr (b + n, s\<lparr>backend_exec_states := bes',
               scan_range_assignment := (scan_range_assignment s)[fi := a']\<rparr>)"
    and len: "length bes' = length (backend_exec_states s)"
    and mid: "\<forall>k. k < n \<longrightarrow>
         bes' ! (b + k) = Some (planned_state params (scan_range_assignment s ! fi) (b + k) fi k)"
    and out: "\<forall>i. i < b \<or> b + n \<le> i \<longrightarrow> bes' ! i = backend_exec_states s ! i"
    and pr: "planned_ranges a' = planned_ranges (scan_range_assignment s ! fi)"
    unfolding n_def params_def by auto
  have bn: "b + n \<le> length (backend_exec_states s)" using assms(3) by (simp add: n_def)
  have "bes' = take b (backend_exec_states s) @ map Some (fragment_states fi b s) @
      drop (b + n) (backend_exec_states s)"
  proof (rule nth_equalityI)
    show "length bes' = length (take b (backend_exec_states s) @ map Some (fragment_states fi b s) @
      drop (b + n) (backend_exec_states s))"
      using len bn by (simp add: n_def)
  next
    fix i assume i: "i < length bes'"
    consider "i < b" | "b \<le> i" "i < b + n" | "b + n \<le> i" by linarith
    then show "bes' ! i = (take b (backend_exec_states s) @ map Some (fragment_states fi b s) @
      drop (b + n) (backend_exec_states s)) ! i"
    proof cases
      case 1
      with out bn show ?thesis by (simp add: nth_append)
    next
      case 2
      then obtain k where k: "i = b + k" "k < n" by (metis le_Suc_ex nat_add_left_cancel_less)
      with mid have "bes' ! i = Some (planned_state params (scan_range_assignment s ! fi) (b + k) fi k)"
        by simp
      moreover have "(take b (backend_exec_states s) @ map Some (fragment_states fi b s) @
          drop (b + n) (backend_exec_states s)) ! i =
          Some (planned_state params (scan_range_assignment s ! fi) (b + k) fi k)"
        using k bn by (simp add: nth_append fragment_states_def n_def params_def)
      ultimately show ?thesis by simp
    next
      case 3
      with out have "bes' ! i = backend_exec_states s ! i" by simp
      moreover have "(take b (backend_exec_states s) @ map Some (fragment_states fi b s) @
          drop (b + n) (backend_exec_states s)) ! i = backend_exec_states s ! i"
        using 3 bn i len by (auto simp: nth_append n_def)
      ultimately show ?thesis by simp
    qed
  qed
  with run pr show ?thesis unfolding n_def params_def by blast
qed

lemma planned_states_cong:
  assumes "fragment_exec_params s' = fragment_exec_params s"
    and "\<forall>fi\<in>set idxs. planned_ranges (scan_range_assignment s' ! fi) =
                          planned_ranges (scan_range_assignment s ! fi)"
  shows "planned_states idxs b s' = planned_states idxs b s"
  using assms
  by (induction idxs arbitrary: b) (simp_all add: fragment_states_def planned_state_def)

lemma planned_states_last:
  "idxs \<noteq> [] \<Longrightarrow>
   length (hosts (fragment_exec_params s ! last idxs)) \<le> length (planned_states idxs b s)"
proof (induction idxs arbitrary: b)
  case Nil
  then show ?case by simp
next
  case (Cons fi rest)
  show ?case
  proof (cases "rest = []")
    case True
    then show ?thesis by simp
  next
    case False
    from Cons.IH [OF False, of "b + length (hosts (fragment_exec_params s ! fi))"] False
    show ?thesis by simp
  qed
qed

lemma start_fragments_dispatch:
  assumes val: "list_all (\<lambda>fi. fi < length (fragment_exec_params s) \<and>
                     fi < length (scan_range_assignment s) \<and>
                     hosts (fragment_exec_params s ! fi) \<noteq> [] \<and>
                     length (hosts (fragment_exec_params s ! fi)) \<le>
                       length (instance_ids (fragment_exec_params s ! fi))) idxs"
    and dist: "distinct idxs"
    and len: "length (backend_exec_states s) = b + length (planned_states idxs b s)"
    and okq: "ok (query_status s)"
    and disp: "dispatch_each ops (query_id s) b (planned_states idxs b s) (rpc_world s, rpc_log s) =
                 (rs, w1, log1)"
    and j: "j < length rs" "\<not> ok (fst (rs ! j))" "\<forall>k<j. ok (fst (rs ! k))"
    and lastf: "length rs - length (hosts (fragment_exec_params s ! last idxs)) \<le> j"
  shows "\<exists>s2. start_fragments dchecks ops idxs b s =
            (case CancelInternal dchecks ops (s2\<lparr>query_status := fst (rs ! j)\<rparr>) of
               Inl f \<Rightarrow> Inl f
             | Inr s3 \<Rightarrow> Inr (Inl (fst (rs ! j), s3))) \<and>
          backend_exec_states s2 = take b (backend_exec_states s) @ map (\<lambda>r. Some (snd r)) rs \<and>
          rpc_log s2 = log1 \<and> query_id s2 = query_id s \<and> hdfs_trace s2 = hdfs_trace s"
  using assms
proof (induction idxs arbitrary: b s rs j)
  case Nil
  then show ?case by simp
next
  case (Cons fi rest)
  define n where "n = length (hosts (fragment_exec_params s ! fi))"
  define bes where "bes = backend_exec_states s"
  from Cons.prems(1) have v: "fi < length (fragment_exec_params s)"
    "fi < length (scan_range_assignment s)" "0 < n"
    "n \<le> length (instance_ids (fragment_exec_params s ! fi))"
    and vrest: "list_all (\<lambda>fi. fi < length (fragment_exec_params s) \<and>
                     fi < length (scan_range_assignment s) \<and>
                     hosts (fragment_exec_params s ! fi) \<noteq> [] \<and>
                     length (hosts (fragment_exec_params s ! fi)) \<le>
                       length (instance_ids (fragment_exec_params s ! fi))) rest"
    by (simp_all add: n_def)
  from Cons.prems(2) have nin: "fi \<notin> set rest" and drest: "distinct rest" by simp_all
  have ps: "planned_states (fi # rest) b s = fragment_states fi b s @ planned_states rest (b + n) s"
    by (simp add: n_def)
  have lenb: "length bes = b + n + length (planned_states rest (b + n) s)"
    using Cons.prems(3) by (simp add: n_def bes_def)
  obtain rs1 wa la where d1:
    "dispatch_each ops (query_id s) b (fragment_states fi b s) (rpc_world s, rpc_log s) = (rs1, wa, la)"
    by (metis prod_cases3)
  obtain rs2 wl2 where d2:
    "dispatch_each ops (query_id s) (b + n) (planned_states rest (b + n) s) (wa, la) = (rs2, wl2)"
    by (metis surj_pair)
  from Cons.prems(5) d1 d2 have rs: "rs = rs1 @ rs2" and wl2: "wl2 = (w1, log1)"
    unfolding ps dispatch_each_append by (simp_all add: n_def)
  have l1: "length rs1 = n" using dispatch_each_length [OF d1] by (simp add: n_def)
  have l2: "length rs2 = length (planned_states rest (b + n) s)"
    using dispatch_each_length [OF d2] .
  from create_fragment_states [of s fi b] v lenb obtain a' where
    cr: "create_exec_states fi (fragment_exec_params s ! fi) [0..<n] b s =
        Inr (b + n,
             s\<lparr>backend_exec_states := take b bes @ map Some (fragment_states fi b s) @ drop (b + n) bes,
               scan_range_assignment := (scan_range_assignment s)[fi := a']\<rparr>)"
    and pr: "planned_ranges a' = planned_ranges (scan_range_assignment s ! fi)"
    unfolding n_def bes_def by auto
  define s1 where "s1 = s\<lparr>backend_exec_states :=
      take b bes @ map Some (fragment_states fi b s) @ drop (b + n) bes,
      scan_range_assignment := (scan_range_assignment s)[fi := a']\<rparr>"
  have blk: "take n (drop (b + n - n) (backend_exec_states s1)) = map Some (fragment_states fi b s)"
    using lenb by (simp add: s1_def n_def)
  have pe: "ParallelExecutor_Exec ops (query_id s1) (b + n - n)
      (take n (drop (b + n - n) (backend_exec_states s1))) (rpc_world s1, rpc_log s1) =
      Inr (first_error (map fst rs1), map (\<lambda>r. Some (snd r)) rs1, wa, la)"
    unfolding blk ParallelExecutor_Exec_dispatch_each using d1 by (simp add: s1_def)
  define s2 where "s2 = s1\<lparr>backend_exec_states :=
      take (b + n - n) (backend_exec_states s1) @ map (\<lambda>r. Some (snd r)) rs1 @
      drop (b + n) (backend_exec_states s1), rpc_world := wa, rpc_log := la\<rparr>"
  have bes2: "backend_exec_states s2 = take b bes @ map (\<lambda>r. Some (snd r)) rs1 @ drop (b + n) bes"
    using lenb l1 by (simp add: s2_def s1_def n_def [symmetric])
  have step: "start_fragments dchecks ops (fi # rest) b s =
      (if \<not> ok (first_error (map fst rs1))
       then (case CancelInternal dchecks ops (s2\<lparr>query_status := first_error (map fst rs1)\<rparr>) of
               Inl f \<Rightarrow> Inl f
             | Inr s3 \<Rightarrow> Inr (Inl (first_error (map fst rs1), s3)))
       else start_fragments dchecks ops rest (b + n) s2)"
    using v cr pe Cons.prems(4)
    by (simp add: n_def [symmetric] s1_def [symmetric] Let_def DCHECK_def s2_def [symmetric]
        del: ParallelExecutor_Exec.simps)
      (simp add: s2_def s1_def)
  show ?case
  proof (cases "rest = []")
    case True
    then have rs2: "rs2 = []" using l2 by simp
    with rs have rs1: "rs1 = rs" by simp
    from d2 rs2 True wl2 have wl: "wa = w1" "la = log1" by simp_all
    have fe: "first_error (map fst rs1) = fst (rs ! j)"
      using first_error_nth [of j "map fst rs"] Cons.prems(6-8) rs1 by simp
    have dr: "drop (b + n) bes = []" using lenb True by simp
    have e: "start_fragments dchecks ops (fi # rest) b s =
        (case CancelInternal dchecks ops (s2\<lparr>query_status := fst (rs ! j)\<rparr>) of
           Inl f \<Rightarrow> Inl f
         | Inr s3 \<Rightarrow> Inr (Inl (fst (rs ! j), s3)))"
      unfolding step fe using Cons.prems(7) by simp
    have bb: "backend_exec_states s2 = take b (backend_exec_states s) @ map (\<lambda>r. Some (snd r)) rs"
      using bes2 dr rs1 by (simp add: bes_def)
    have o: "rpc_log s2 = log1" "query_id s2 = query_id s" "hdfs_trace s2 = hdfs_trace s"
      using wl by (simp_all add: s2_def s1_def)
    show ?thesis
      apply (rule exI [of _ s2])
      apply (intro conjI)
          apply (rule e)
         apply (rule bb)
        apply (rule o)+
      done
  next
    case False
    have nl: "length (hosts (fragment_exec_params s ! last rest)) \<le> length rs2"
      using planned_states_last [OF False, of s "b + n"] l2 by simp
    have jn: "n \<le> j"
      using Cons.prems(9) False nl rs l1 by simp
    have allok: "\<forall>st\<in>set (map fst rs1). ok st"
    proof
      fix st assume "st \<in> set (map fst rs1)"
      then obtain k where k: "k < length rs1" "st = fst (rs1 ! k)"
        by (auto simp: in_set_conv_nth)
      with jn l1 have "k < j" by simp
      with Cons.prems(8) have "ok (fst (rs ! k))" by simp
      with k rs show "ok st" by (simp add: nth_append)
    qed
    have fe: "first_error (map fst rs1) = Status_OK" by (rule first_error_all_ok [OF allok])
    have rec: "start_fragments dchecks ops (fi # rest) b s = start_fragments dchecks ops rest (b + n) s2"
      using step fe by simp
    have f2: "fragment_exec_params s2 = fragment_exec_params s" "query_id s2 = query_id s"
      "query_status s2 = query_status s" "rpc_world s2 = wa" "rpc_log s2 = la"
      "length (scan_range_assignment s2) = length (scan_range_assignment s)"
      "hdfs_trace s2 = hdfs_trace s"
      by (simp_all add: s2_def s1_def)
    have sra: "\<forall>fi'\<in>set rest. planned_ranges (scan_range_assignment s2 ! fi') =
                          planned_ranges (scan_range_assignment s ! fi')"
    proof
      fix fi' assume "fi' \<in> set rest"
      with nin have "fi \<noteq> fi'" by auto
      then show "planned_ranges (scan_range_assignment s2 ! fi') =
          planned_ranges (scan_range_assignment s ! fi')"
        by (simp add: s2_def s1_def)
    qed
    have pst: "planned_states rest (b + n) s2 = planned_states rest (b + n) s"
      by (rule planned_states_cong [OF f2(1) sra])
    have p1: "list_all (\<lambda>fi. fi < length (fragment_exec_params s2) \<and>
                     fi < length (scan_range_assignment s2) \<and>
                     hosts (fragment_exec_params s2 ! fi) \<noteq> [] \<and>
                     length (hosts (fragment_exec_params s2 ! fi)) \<le>
                       length (instance_ids (fragment_exec_params s2 ! fi))) rest"
      using vrest by (simp add: f2)
    have p3: "length (backend_exec_states s2) = b + n + length (planned_states rest (b + n) s2)"
      using bes2 lenb l1 by (simp add: pst)
    have p4: "ok (query_status s2)" using Cons.prems(4) by (simp add: f2)
    have p5: "dispatch_each ops (query_id s2) (b + n) (planned_states rest (b + n) s2)
        (rpc_world s2, rpc_log s2) = (rs2, w1, log1)"
      using d2 wl2 by (simp add: pst f2)
    have p6: "j - n < length rs2" using Cons.prems(6) rs l1 jn by simp
    have nth2: "rs ! (n + k) = rs2 ! k" for k using rs l1 by (simp add: nth_append)
    have p7: "\<not> ok (fst (rs2 ! (j - n)))" using Cons.prems(7) nth2 [of "j - n"] jn by simp
    have p8: "\<forall>k<j - n. ok (fst (rs2 ! k))"
    proof (intro allI impI)
      fix k assume "k < j - n"
      then have "n + k < j" by simp
      with Cons.prems(8) have "ok (fst (rs ! (n + k)))" by blast
      then show "ok (fst (rs2 ! k))" by (simp add: nth2)
    qed
    have p9: "length rs2 - length (hosts (fragment_exec_params s2 ! last rest)) \<le> j - n"
      using Cons.prems(9) False rs l1 jn by (simp add: f2)
    from Cons.IH [OF p1 drest p3 p4 p5 p6 p7 p8 p9] obtain s2' where
      r: "start_fragments dchecks ops rest (b + n) s2 =
            (case CancelInternal dchecks ops (s2'\<lparr>query_status := fst (rs2 ! (j - n))\<rparr>) of
               Inl f \<Rightarrow> Inl f
             | Inr s3 \<Rightarrow> Inr (Inl (fst (rs2 ! (j - n)), s3)))"
      and b2: "backend_exec_states s2' = take (b + n) (backend_exec_states s2) @ map (\<lambda>r. Some (snd r)) rs2"
      and o2: "rpc_log s2' = log1" "query_id s2' = query_id s2" "hdfs_trace s2' = hdfs_trace s2"
      by blast
    have st: "fst (rs2 ! (j - n)) = fst (rs ! j)" using nth2 [of "j - n"] jn by simp
    have bb: "backend_exec_states s2' = take b (backend_exec_states s) @ map (\<lambda>r. Some (snd r)) rs"
      using b2 bes2 lenb l1 rs by (simp add: bes_def)
    have e: "start_fragments dchecks ops (fi # rest) b s =
        (case CancelInternal dchecks ops (s2'\<lparr>query_status := fst (rs ! j)\<rparr>) of
           Inl f \<Rightarrow> Inl f
         | Inr s3 \<Rightarrow> Inr (Inl (fst (rs ! j), s3)))"
      unfolding rec r st ..
    have o: "rpc_log s2' = log1" "query_id s2' = query_id s" "hdfs_trace s2' = hdfs_trace s"
      using o2 f2 by simp_all
    show ?thesis
      apply (rule exI [of _ s2'])
      apply (intro conjI)
          apply (rule e)
         apply (rule bb)
        apply (rule o)+
      done
  qed
qed

lemma planned_states_fresh:
  "es \<in> set (planned_states idxs b s) \<Longrightarrow> \<not> initiated es \<and> \<not> is_done es"
  by (induction idxs arbitrary: b) (auto simp: fragment_states_def planned_state_def)

text \<open>
  C2, as stated: when a dispatch fails, \<^verbatim>\<open>Exec\<close> returns that error and the query status
  is \<^verbatim>\<open>CANCELLED\<close>. With five instances of one fragment and a transport error on the
  third, \<^verbatim>\<open>Exec\<close> returns the error of the third dispatch and the query status is that
  same error, not \<^verbatim>\<open>CANCELLED\<close> (line 341 stores it before \<^verbatim>\<open>CancelInternal\<close> runs).
\<close>

theorem Exec_dispatch_error_counterexample:
  "map_sum id (\<lambda>r. (fst r, query_status (snd r)))
     (Exec True fail_third_ops idle_executor one_fragment_request planned_query) =
     Inr (Status_msg ''ExecPlanRequest rpc query_id=7:100 instance_id=7:103 failed: down'',
          Status_msg ''ExecPlanRequest rpc query_id=7:100 instance_id=7:103 failed: down'') \<and>
   Status_msg ''ExecPlanRequest rpc query_id=7:100 instance_id=7:103 failed: down'' \<noteq>
     Status_CANCELLED"
  by code_simp

text \<open>
  When the dispatch that fails is not in the last fragment, the entries of
  \<^verbatim>\<open>backend_exec_states_\<close> of the fragments not yet started are still null pointers, and
  \<^verbatim>\<open>CancelInternal\<close> dereferences them (line 758), in either build.
\<close>

lemma Exec_null_backend_state:
  "Exec True fail_first_ops idle_executor staged_request staged_query = Inl UndefinedBehaviour \<and>
   Exec False fail_first_ops idle_executor staged_request staged_query = Inl UndefinedBehaviour"
  by code_simp

text \<open>
  C2, amended. Take a planned query on a coordinator without backend states and with
  query status OK, whose local executor, if it has a coordinator fragment, can be
  prepared. Let \<open>rs\<close> be the outcomes of the dispatch calls of its instances, let the
  dispatch of instance \<open>j\<close> be the first that fails, and let \<open>j\<close> belong to the last
  fragment. Then \<^verbatim>\<open>Exec\<close> returns, and it returns the error of that first failed dispatch;
  the query status is that same error; there is one backend state per instance; an
  instance is initiated exactly when its dispatch succeeded; after the dispatch calls the
  log holds, for every initiated instance, exactly the calls of \<open>cancel_trace\<close> (a
  \<^verbatim>\<open>CancelPlanFragment\<close> unless no client could be got), and no call for an instance that
  was not initiated; no instance is left with status OK.
\<close>

theorem Exec_dispatch_error:
  assumes req: "fragments request \<noteq> []"
    and prep: "partition (hd (fragments request)) = UNPARTITIONED \<longrightarrow> ok (prepare_result local)"
    and plan: "planned (remote_fragments request) s"
    and fresh: "backend_exec_states s = []" "ok (query_status s)"
    and disp: "dispatch_each ops (query_id s) 0 (planned_states (remote_fragments request) 0 s)
                 (rpc_world s, rpc_log s) = (rs, w1, log1)"
    and j: "j < length rs" "\<not> ok (fst (rs ! j))" "\<forall>k<j. ok (fst (rs ! k))"
    and lastf: "length rs - length (hosts (fragment_exec_params s ! last (remote_fragments request))) \<le> j"
  shows "\<exists>s' new.
      Exec dchecks ops local request s = Inr (fst (rs ! j), s') \<and>
      query_status s' = fst (rs ! j) \<and>
      rpc_log s' = log1 @ new \<and>
      length (backend_exec_states s') = length rs \<and>
      (\<forall>i<length rs. \<exists>st'.
          backend_exec_states s' ! i = Some ((snd (rs ! i))\<lparr>status := st'\<rparr>) \<and> \<not> ok st' \<and>
          initiated (snd (rs ! i)) = ok (fst (rs ! i)) \<and>
          (if ok (fst (rs ! i))
           then \<exists>errs client r1 reopened r2.
                  st' = Status_Error CANCELLED (''Cancelled'' # errs) \<and>
                  calls_for i new = cancel_trace i client r1 reopened r2
           else calls_for i new = []))"
proof -
  define idxs where "idxs = remote_fragments request"
  define hcf where "hcf = (partition (hd (fragments request)) = UNPARTITIONED)"
  define N where "N = length (planned_states idxs 0 s)"
  define s2 where "s2 = s\<lparr>executor := (if hcf then Some local else None),
      backend_exec_states := replicate N None, num_remaining_backends := int N\<rparr>"
  from req obtain fragment0 more_fragments where fr: "fragments request = fragment0 # more_fragments"
    by (cases "fragments request") auto
  from plan have nb: "num_backends s = int N"
    and val: "list_all (\<lambda>fi. fi < length (fragment_exec_params s) \<and>
                     fi < length (scan_range_assignment s) \<and>
                     hosts (fragment_exec_params s ! fi) \<noteq> [] \<and>
                     length (hosts (fragment_exec_params s ! fi)) \<le>
                       length (instance_ids (fragment_exec_params s ! fi))) idxs"
    by (simp_all add: planned_def idxs_def N_def)
  have ex: "Exec dchecks ops local request s =
      (case start_fragments dchecks ops idxs 0 s2 of
         Inl f \<Rightarrow> Inl f
       | Inr (Inl (st, s3)) \<Rightarrow> Inr (st, s3)
       | Inr (Inr s3) \<Rightarrow> Inr (Status_OK, s3\<lparr>progress := 0\<rparr>))"
    using prep fresh(1) nb
    by (cases "partition fragment0 = UNPARTITIONED")
      (simp_all add: Exec_def fr Let_def idxs_def remote_fragments_def hcf_def s2_def del: upt_Suc)
  have pst: "planned_states idxs 0 s2 = planned_states idxs 0 s"
    by (rule planned_states_cong) (simp_all add: s2_def)
  have p1: "list_all (\<lambda>fi. fi < length (fragment_exec_params s2) \<and>
                     fi < length (scan_range_assignment s2) \<and>
                     hosts (fragment_exec_params s2 ! fi) \<noteq> [] \<and>
                     length (hosts (fragment_exec_params s2 ! fi)) \<le>
                       length (instance_ids (fragment_exec_params s2 ! fi))) idxs"
    using val by (simp add: s2_def)
  have p2: "distinct idxs" by (simp add: idxs_def remote_fragments_def)
  have p3: "length (backend_exec_states s2) = 0 + length (planned_states idxs 0 s2)"
    unfolding pst by (simp add: s2_def N_def)
  have p4: "ok (query_status s2)" using fresh(2) by (simp add: s2_def)
  have p5: "dispatch_each ops (query_id s2) 0 (planned_states idxs 0 s2) (rpc_world s2, rpc_log s2) =
      (rs, w1, log1)"
    unfolding pst using disp by (simp add: idxs_def s2_def)
  have p9: "length rs - length (hosts (fragment_exec_params s2 ! last idxs)) \<le> j"
    using lastf by (simp add: idxs_def s2_def)
  from start_fragments_dispatch [OF p1 p2 p3 p4 p5 j p9, of dchecks] obtain s3 where
    sf: "start_fragments dchecks ops idxs 0 s2 =
          (case CancelInternal dchecks ops (s3\<lparr>query_status := fst (rs ! j)\<rparr>) of
             Inl f \<Rightarrow> Inl f
           | Inr s4 \<Rightarrow> Inr (Inl (fst (rs ! j), s4)))"
    and b3: "backend_exec_states s3 = map (\<lambda>r. Some (snd r)) rs"
    and l3: "rpc_log s3 = log1"
    by auto
  define s4 where "s4 = s3\<lparr>query_status := fst (rs ! j)\<rparr>"
  have nn: "None \<notin> set (backend_exec_states s4)" by (auto simp: s4_def b3)
  have nok: "\<not> ok (query_status s4)" using j(2) by (simp add: s4_def)
  from CancelInternal_exact [OF nn nok, of dchecks ops] obtain s' new where
    ci: "CancelInternal dchecks ops s4 = Inr s'"
    and q: "query_status s' = fst (rs ! j)"
    and lg: "rpc_log s' = log1 @ new"
    and len: "length (backend_exec_states s') = length rs"
    and eff: "\<forall>k es. k < length (backend_exec_states s4) \<and> backend_exec_states s4 ! k = Some es \<longrightarrow>
         (\<exists>st'. backend_exec_states s' ! k = Some (es\<lparr>status := st'\<rparr>) \<and>
                cancel_effect k es st' (calls_for k new))"
    by (auto simp: s4_def b3 l3)
  have e: "Exec dchecks ops local request s = Inr (fst (rs ! j), s')"
    unfolding ex sf s4_def [symmetric] ci by simp
  have fr: "\<forall>es\<in>set (planned_states (remote_fragments request) 0 s). \<not> initiated es \<and> \<not> is_done es"
    using planned_states_fresh by blast
  have per: "\<exists>st'.
          backend_exec_states s' ! i = Some ((snd (rs ! i))\<lparr>status := st'\<rparr>) \<and> \<not> ok st' \<and>
          initiated (snd (rs ! i)) = ok (fst (rs ! i)) \<and>
          (if ok (fst (rs ! i))
           then \<exists>errs client r1 reopened r2.
                  st' = Status_Error CANCELLED (''Cancelled'' # errs) \<and>
                  calls_for i new = cancel_trace i client r1 reopened r2
           else calls_for i new = [])" if i: "i < length rs" for i
  proof -
    from i have "i < length (backend_exec_states s4)" "backend_exec_states s4 ! i = Some (snd (rs ! i))"
      by (simp_all add: s4_def b3)
    with eff obtain st' where
      st: "backend_exec_states s' ! i = Some ((snd (rs ! i))\<lparr>status := st'\<rparr>)"
      and ce: "cancel_effect i (snd (rs ! i)) st' (calls_for i new)" by blast
    from dispatch_each_props [OF disp fr i] have
      p: "\<not> is_done (snd (rs ! i))" "initiated (snd (rs ! i)) = ok (fst (rs ! i))"
      "ok (fst (rs ! i)) \<longrightarrow> ok (status (snd (rs ! i)))" by simp_all
    show ?thesis
    proof (cases "ok (fst (rs ! i))")
      case True
      with p ce obtain errs client r1 reopened r2 where
        "st' = Status_Error CANCELLED (''Cancelled'' # errs)"
        "calls_for i new = cancel_trace i client r1 reopened r2" by auto
      with st p True show ?thesis by (intro exI [of _ st']) auto
    next
      case False
      with p ce have "calls_for i new = []" "\<not> ok st'"
        by (auto split: if_splits)
      with st p False show ?thesis by (intro exI [of _ st']) simp
    qed
  qed
  show ?thesis
    apply (rule exI [of _ s'], rule exI [of _ new])
    apply (intro conjI allI impI)
        apply (rule e)
       apply (rule q)
      apply (rule lg)
     apply (rule len)
    apply (erule per)
    done
qed

lemma staged_query_planned:
  "fragments staged_request \<noteq> [] \<and> ok (prepare_result idle_executor) \<and>
   planned (remote_fragments staged_request) staged_query \<and>
   backend_exec_states staged_query = [] \<and> ok (query_status staged_query) \<and>
   length (hosts (fragment_exec_params staged_query ! last (remote_fragments staged_request))) = 3"
  by code_simp

lemma staged_query_dispatch:
  "map fst (fst (dispatch_each fail_third_ops (query_id staged_query) 0
         (planned_states (remote_fragments staged_request) 0 staged_query)
         (rpc_world staged_query, rpc_log staged_query))) =
   [Status_OK, Status_OK,
    Status_msg ''ExecPlanRequest rpc query_id=7:100 instance_id=7:104 failed: down'',
    Status_OK, Status_OK]"
  by code_simp

lemma staged_query_result:
  "map_sum id (\<lambda>r. (fst r, map (map_option (\<lambda>es. (initiated es, status es))) (backend_exec_states (snd r)),
        map (\<lambda>i. cancel_calls_to i (rpc_log (snd r))) [0..<5]))
     (Exec True fail_third_ops idle_executor staged_request staged_query) =
   Inr (Status_msg ''ExecPlanRequest rpc query_id=7:100 instance_id=7:104 failed: down'',
        [Some (True, Status_CANCELLED), Some (True, Status_CANCELLED),
         Some (False, Status_msg ''ExecPlanRequest rpc query_id=7:100 instance_id=7:104 failed: down''),
         Some (True, Status_CANCELLED), Some (True, Status_CANCELLED)],
        [1, 1, 0, 1, 1])"
  by code_simp

theorem Exec_dispatch_error_witness:
  "fragments staged_request \<noteq> [] \<and> ok (prepare_result idle_executor) \<and>
   planned (remote_fragments staged_request) staged_query \<and>
   backend_exec_states staged_query = [] \<and> ok (query_status staged_query) \<and>
   map fst (fst (dispatch_each fail_third_ops (query_id staged_query) 0
         (planned_states (remote_fragments staged_request) 0 staged_query)
         (rpc_world staged_query, rpc_log staged_query))) =
     [Status_OK, Status_OK,
      Status_msg ''ExecPlanRequest rpc query_id=7:100 instance_id=7:104 failed: down'',
      Status_OK, Status_OK] \<and>
   (\<exists>s'. Exec True fail_third_ops idle_executor staged_request staged_query =
           Inr (Status_msg ''ExecPlanRequest rpc query_id=7:100 instance_id=7:104 failed: down'', s') \<and>
         query_status s' =
           Status_msg ''ExecPlanRequest rpc query_id=7:100 instance_id=7:104 failed: down'' \<and>
         length (backend_exec_states s') = 5) \<and>
   map_sum id (\<lambda>r. (fst r, map (map_option (\<lambda>es. (initiated es, status es))) (backend_exec_states (snd r)),
        map (\<lambda>i. cancel_calls_to i (rpc_log (snd r))) [0..<5]))
     (Exec True fail_third_ops idle_executor staged_request staged_query) =
   Inr (Status_msg ''ExecPlanRequest rpc query_id=7:100 instance_id=7:104 failed: down'',
        [Some (True, Status_CANCELLED), Some (True, Status_CANCELLED),
         Some (False, Status_msg ''ExecPlanRequest rpc query_id=7:100 instance_id=7:104 failed: down''),
         Some (True, Status_CANCELLED), Some (True, Status_CANCELLED)],
        [1, 1, 0, 1, 1])"
proof -
  obtain rs w1 log1 where disp:
    "dispatch_each fail_third_ops (query_id staged_query) 0
         (planned_states (remote_fragments staged_request) 0 staged_query)
         (rpc_world staged_query, rpc_log staged_query) = (rs, w1, log1)"
    by (metis prod_cases3)
  with staged_query_dispatch have m: "map fst rs =
     [Status_OK, Status_OK,
      Status_msg ''ExecPlanRequest rpc query_id=7:100 instance_id=7:104 failed: down'',
      Status_OK, Status_OK]" by simp
  from arg_cong [OF m, of length] have len: "length rs = 5" by simp
  have nth: "fst (rs ! k) = map fst rs ! k" if "k < 5" for k using that len by simp
  have st: "fst (rs ! 2) =
      Status_msg ''ExecPlanRequest rpc query_id=7:100 instance_id=7:104 failed: down''"
    using nth [of 2] m by simp
  have j: "2 < length rs" "\<not> ok (fst (rs ! 2))" using len st by simp_all
  have before: "\<forall>k<2. ok (fst (rs ! k))"
  proof (intro allI impI)
    fix k :: nat assume "k < 2"
    then consider "k = 0" | "k = 1" by linarith
    then show "ok (fst (rs ! k))" using nth [of k] m by cases simp_all
  qed
  note h = staged_query_planned
  have lastf: "length rs -
      length (hosts (fragment_exec_params staged_query ! last (remote_fragments staged_request))) \<le> 2"
    using h len by simp
  have prep: "partition (hd (fragments staged_request)) = UNPARTITIONED \<longrightarrow>
      ok (prepare_result idle_executor)" using h by simp
  from Exec_dispatch_error [where dchecks = True, OF _ prep _ _ _ disp j before lastf] h
  obtain s' where "Exec True fail_third_ops idle_executor staged_request staged_query =
      Inr (fst (rs ! 2), s')" "query_status s' = fst (rs ! 2)"
    "length (backend_exec_states s') = length rs"
    by blast
  then have "\<exists>s'. Exec True fail_third_ops idle_executor staged_request staged_query =
           Inr (Status_msg ''ExecPlanRequest rpc query_id=7:100 instance_id=7:104 failed: down'', s') \<and>
         query_status s' =
           Status_msg ''ExecPlanRequest rpc query_id=7:100 instance_id=7:104 failed: down'' \<and>
         length (backend_exec_states s') = 5"
    unfolding st len by blast
  with h staged_query_dispatch staged_query_result show ?thesis by blast
qed

subsection \<open>Finalization\<close>

lemma delete_files_loop_data_files:
  "delete_files_loop hops listing ft =
   delete_each hops ''Failed to delete existing HDFS file as part of INSERT OVERWRITE query: ''
     (data_files listing) ft"
  by (induction listing arbitrary: ft) (auto simp: data_files_def split: prod.splits)

lemma delete_tmp_dirs_loop_each:
  "delete_tmp_dirs_loop hops ps ft = delete_each hops ''Failed to delete temporary directory: '' ps ft"
  by (induction ps arbitrary: ft) (auto split: prod.splits)

lemma move_files_loop_renames:
  "fst (move_files_loop hops moves tmp ft) = fst (rename_each hops (pending_renames moves) ft) \<and>
   snd (snd (move_files_loop hops moves tmp ft)) = snd (rename_each hops (pending_renames moves) ft)"
  by (induction moves arbitrary: tmp ft) (auto simp: pending_renames_def split: prod.splits)

lemma move_files_loop_tmp:
  "ok (fst (move_files_loop hops moves tmp ft)) \<Longrightarrow>
   fst (snd (move_files_loop hops moves tmp ft)) =
   foldl (\<lambda>tmp move. insort_insert (fst move) tmp) tmp (filter (\<lambda>move. snd move = []) moves)"
  by (induction moves arbitrary: tmp ft) (auto simp: Status_msg_def split: prod.splits if_splits)

text \<open>
  C7. For an overwrite of an unpartitioned table (the only partition key is empty),
  called after \<^verbatim>\<open>Wait\<close> for a query that needs finalization, \<^verbatim>\<open>FinalizeQuery\<close> returns what
  the specification says: it lists the root directory and returns the error when that
  fails; it deletes the entries that are files, in order, and never an entry that is a
  directory, and returns the error of the first delete that fails; it creates the
  directory; it renames the moves with a destination, in order, and returns the error of
  the first rename that fails; it deletes the temporary directories. The status it
  returns is the status that \<^verbatim>\<open>Wait\<close> returns for the query.
\<close>

theorem FinalizeQuery_overwrite_unpartitioned:
  assumes "has_called_wait s" and "needs_finalization s"
    and "finalize_params s = (True, base)"
    and "partition_row_counts s = [([], n)]"
  shows "FinalizeQuery dchecks hops s =
     Inr (case finalize_overwrite_unpartitioned hops base (files_to_move s) (hdfs s, hdfs_trace s) of
            (st, ft) \<Rightarrow> (st, set_hdfs ft s))"
proof -
  obtain listing fs1 where ls: "hdfsListDirectory hops (base @ ''/'') (hdfs s) = (listing, fs1)"
    by force
  show ?thesis
  proof (cases listing)
    case None
    with ls assms show ?thesis
      by (simp add: FinalizeQuery_def DCHECK_def finalize_overwrite_unpartitioned_def Let_def)
  next
    case (Some es)
    obtain dst fs2 tr2 where de: "delete_each hops
        ''Failed to delete existing HDFS file as part of INSERT OVERWRITE query: ''
        (data_files es) (fs1, hdfs_trace s @ [ListDirectory_call (base @ ''/'')]) = (dst, fs2, tr2)"
      by (metis prod_cases3)
    show ?thesis
    proof (cases "ok dst")
      case False
      with ls Some de assms show ?thesis
        by (simp add: FinalizeQuery_def DCHECK_def finalize_overwrite_unpartitioned_def
            delete_files_loop_data_files Let_def)
    next
      case True
      obtain rc fs3 where cr: "hdfsCreateDirectory hops (base @ ''/'') fs2 = (rc, fs3)" by force
      obtain mst fs4 tr4 where re: "rename_each hops (pending_renames (files_to_move s))
          (fs3, tr2 @ [CreateDirectory_call (base @ ''/'')]) = (mst, fs4, tr4)"
        by (metis prod_cases3)
      obtain tmpd where mv: "move_files_loop hops (files_to_move s) []
          (fs3, tr2 @ [CreateDirectory_call (base @ ''/'')]) = (mst, tmpd, fs4, tr4)"
        using move_files_loop_renames [of hops "files_to_move s" "[]"
            "(fs3, tr2 @ [CreateDirectory_call (base @ ''/'')])"] re
        by (cases "move_files_loop hops (files_to_move s) [] (fs3, tr2 @ [CreateDirectory_call (base @ ''/'')])")
          simp
      show ?thesis
      proof (cases "ok mst")
        case mf: False
        with ls Some de True cr re mv assms show ?thesis
          by (simp add: FinalizeQuery_def DCHECK_def finalize_overwrite_unpartitioned_def
              delete_files_loop_data_files Let_def)
      next
        case mt: True
        with mv have "ok (fst (move_files_loop hops (files_to_move s) []
                      (fs3, tr2 @ [CreateDirectory_call (base @ ''/'')])))"
          by simp
        from move_files_loop_tmp [OF this] mv
        have tmp: "tmpd = tmp_dirs (files_to_move s)"
          by (simp add: tmp_dirs_def)
        obtain st5 ft5 where d5: "delete_each hops ''Failed to delete temporary directory: ''
              (tmp_dirs (files_to_move s)) (fs4, tr4) = (st5, ft5)" by (metis surj_pair)
        from ls Some de True cr re mv mt tmp d5 assms show ?thesis
          by (simp add: FinalizeQuery_def DCHECK_def finalize_overwrite_unpartitioned_def
              delete_files_loop_data_files delete_tmp_dirs_loop_each Let_def)
      qed
    qed
  qed
qed

lemma overwrite_query_finalized:
  "finalize_overwrite_unpartitioned toy_hdfs ''/base'' tmp_moves (table_root, []) =
   (Status_OK,
    [\<lparr>mKind = kObjectKindDirectory, mName = ''/base/sub''\<rparr>,
     \<lparr>mKind = kObjectKindFile, mName = ''/base/a''\<rparr>,
     \<lparr>mKind = kObjectKindFile, mName = ''/base/c''\<rparr>],
    [ListDirectory_call ''/base/'', Delete_call ''/base/a'', Delete_call ''/base/b'',
     CreateDirectory_call ''/base/'', Rename_call ''/base/tmp/1'' ''/base/a'',
     Rename_call ''/base/tmp/2'' ''/base/c''])"
  by code_simp

theorem FinalizeQuery_overwrite_unpartitioned_witness:
  "has_called_wait overwrite_query \<and> needs_finalization overwrite_query \<and>
   finalize_params overwrite_query = (True, ''/base'') \<and>
   partition_row_counts overwrite_query = [([], 10)] \<and>
   map_sum id (\<lambda>r. (fst r, hdfs (snd r), hdfs_trace (snd r)))
     (FinalizeQuery True toy_hdfs overwrite_query) =
   Inr (Status_OK,
        [\<lparr>mKind = kObjectKindDirectory, mName = ''/base/sub''\<rparr>,
         \<lparr>mKind = kObjectKindFile, mName = ''/base/a''\<rparr>,
         \<lparr>mKind = kObjectKindFile, mName = ''/base/c''\<rparr>],
        [ListDirectory_call ''/base/'', Delete_call ''/base/a'', Delete_call ''/base/b'',
         CreateDirectory_call ''/base/'', Rename_call ''/base/tmp/1'' ''/base/a'',
         Rename_call ''/base/tmp/2'' ''/base/c''])"
proof -
  have h: "has_called_wait overwrite_query" "needs_finalization overwrite_query"
    "finalize_params overwrite_query = (True, ''/base'')"
    "partition_row_counts overwrite_query = [([], 10)]"
    by (simp_all add: overwrite_query_def coordinator0_def)
  have v: "files_to_move overwrite_query = tmp_moves" "hdfs overwrite_query = table_root"
    "hdfs_trace overwrite_query = []"
    by (simp_all add: overwrite_query_def coordinator0_def)
  from FinalizeQuery_overwrite_unpartitioned [OF h, of True toy_hdfs] h
  show ?thesis
    by (simp add: v overwrite_query_finalized set_hdfs_def)
qed

subsection \<open>Waiting and results\<close>

lemma kept_refl [simp]: "kept s s"
  by (simp add: kept_def)






















text \<open>
  C10. Without a local executor, and after \<^verbatim>\<open>Wait\<close>, \<^verbatim>\<open>GetNext\<close> returns at once: the batch
  is nil, the status is the status of the query, and the coordinator is unchanged.
\<close>

theorem GetNext_without_executor:
  assumes "executor s = None" and "has_called_wait s"
  shows "GetNext dchecks ops s = Inr (query_status s, None, s)"
  using assms by (simp add: GetNext_def DCHECK_def GetStatus_def)

theorem GetNext_without_executor_witness:
  "executor cancelled_insert = None \<and> has_called_wait cancelled_insert \<and>
   query_status cancelled_insert = Status_CANCELLED \<and>
   GetNext True quiet_ops cancelled_insert = Inr (Status_CANCELLED, None, cancelled_insert)"
proof -
  have h: "executor cancelled_insert = None" "has_called_wait cancelled_insert"
    and q: "query_status cancelled_insert = Status_CANCELLED"
    by (simp_all add: cancelled_insert_def coordinator0_def)
  from GetNext_without_executor [OF h, of True quiet_ops] h q show ?thesis by simp
qed

end
